(* ===== verification/Go_Prelude.thy ===== *)
theory Go_Prelude
  imports Main "HOL-Library.AList" "HOL-Library.Sublist" "HOL-Library.Word"
begin

text \<open>
  What every component shares: the parts of the Go language and of its standard library that
  the sources use (strings, decimal conversion, error values, dynamically typed values), the
  named theorem collections of the development, and generic lemmas about them.

  A Go string is a byte string; it is modelled by a list of \<^typ>\<open>char\<close>.
  A Go map that is only read by key, written and deleted is an association list: \<^term>\<open>map_of\<close>
  reads it, \<^term>\<open>AList.update\<close> writes it, \<^term>\<open>AList.delete\<close> deletes from it.
\<close>

named_theorems go_str \<open>evaluation and inversion of the string functions\<close>
named_theorems err_simps \<open>error values and their texts\<close>
named_theorems observe \<open>what a condition list shows after an operation\<close>
named_theorems preserves \<open>what a manifest transformer leaves unchanged\<close>

type_synonym go_bytes = string
type_synonym 'v go_map = "(string \<times> 'v) list"

section \<open>Package strings\<close>

definition HasPrefix :: "string \<Rightarrow> string \<Rightarrow> bool" where
  "HasPrefix s p \<longleftrightarrow> take (length p) s = p"

definition CutPrefix :: "string \<Rightarrow> string \<Rightarrow> string option" where
  "CutPrefix s p = (if HasPrefix s p then Some (drop (length p) s) else None)"

fun Cut :: "string \<Rightarrow> string \<Rightarrow> (string \<times> string) option" where
  "Cut [] sep = (if sep = [] then Some ([], []) else None)"
| "Cut (c # cs) sep =
     (if HasPrefix (c # cs) sep then Some ([], drop (length sep) (c # cs))
      else map_option (\<lambda>(a, b). (c # a, b)) (Cut cs sep))"

text \<open>
  \<open>strings.ReplaceAll\<close> replaces the non-overlapping occurrences from left to right. The
  sources only call it with a non-empty pattern.
\<close>

function ReplaceAll :: "string \<Rightarrow> string \<Rightarrow> string \<Rightarrow> string" where
  "ReplaceAll [] old new = []"
| "ReplaceAll (c # cs) old new =
     (if HasPrefix (c # cs) old
      then new @ ReplaceAll (drop (length old - 1) cs) old new
      else c # ReplaceAll cs old new)"
  by pat_completeness auto
termination by (relation "measure (\<lambda>(s, _, _). length s)") auto

fun Join :: "string list \<Rightarrow> string \<Rightarrow> string" where
  "Join [] sep = []"
| "Join [s] sep = s"
| "Join (s # ss) sep = s @ sep @ Join ss sep"

lemma HasPrefix_prefix: "HasPrefix s p \<longleftrightarrow> prefix p s"
  by (auto simp: HasPrefix_def prefix_def) (metis append_take_drop_id)

lemma HasPrefix_append [simp, go_str]: "HasPrefix (p @ s) p"
  by (simp add: HasPrefix_def)

lemma HasPrefix_refl [simp, go_str]: "HasPrefix s s"
  by (simp add: HasPrefix_def)

lemma HasPrefix_Nil [simp, go_str]: "HasPrefix s []"
  by (simp add: HasPrefix_def)

lemma HasPrefix_obtain:
  assumes "HasPrefix s p"
  obtains r where "s = p @ r"
  using assms by (metis HasPrefix_prefix prefixE)

lemma CutPrefix_append [simp, go_str]: "CutPrefix (p @ s) p = Some s"
  by (simp add: CutPrefix_def)

lemma CutPrefix_Some_iff [go_str]: "CutPrefix s p = Some r \<longleftrightarrow> s = p @ r"
  by (auto simp: CutPrefix_def HasPrefix_def) (metis append_take_drop_id)

lemma Cut_split: "Cut s sep = Some (a, b) \<Longrightarrow> s = a @ sep @ b"
proof (induction s sep arbitrary: a b rule: Cut.induct)
  case (1 sep)
  then show ?case by (simp split: if_splits)
next
  case (2 c cs sep)
  show ?case
  proof (cases "HasPrefix (c # cs) sep")
    case True
    with "2.prems" show ?thesis by (auto elim!: HasPrefix_obtain)
  next
    case False
    with "2.prems" obtain a' where "Cut cs sep = Some (a', b)" and "a = c # a'" by auto
    with "2.IH" [OF False] show ?thesis by simp
  qed
qed

lemma Cut_char:
  "x \<notin> set a \<Longrightarrow> Cut (a @ x # b) [x] = Some (a, b)"
  by (induction a) (auto simp: HasPrefix_def)

lemma Cut_char_None: "x \<notin> set s \<Longrightarrow> Cut s [x] = None"
  by (induction s) (auto simp: HasPrefix_def)

lemma ReplaceAll_absent:
  "old \<noteq> [] \<Longrightarrow> \<not> sublist old s \<Longrightarrow> ReplaceAll s old new = s"
proof (induction s old new rule: ReplaceAll.induct)
  case (1 old new)
  then show ?case by simp
next
  case (2 c cs old new)
  have "\<not> HasPrefix (c # cs) old"
    using "2.prems" by (auto simp: HasPrefix_prefix)
  moreover have "\<not> sublist old cs"
    using "2.prems"(2) by (meson sublist_Cons_right)
  ultimately show ?case using "2.IH"(2) "2.prems"(1) by simp
qed

lemma ReplaceAll_same: "old \<noteq> [] \<Longrightarrow> new = old \<Longrightarrow> ReplaceAll s old new = s"
proof (induction s old new rule: ReplaceAll.induct)
  case (2 c cs old new)
  show ?case
  proof (cases "HasPrefix (c # cs) old")
    case True
    then obtain r where r: "c # cs = old @ r" by (rule HasPrefix_obtain)
    with "2.prems" have "drop (length old - 1) cs = r"
      by (cases old) auto
    with True "2.IH"(1) "2.prems" have "ReplaceAll (c # cs) old new = old @ r" by simp
    with r show ?thesis by simp
  next
    case False
    with "2.IH"(2) "2.prems" show ?thesis by simp
  qed
qed simp

section \<open>Package strconv\<close>

text \<open>\<open>strconv.Itoa\<close>, and \<open>strconv.Atoi\<close> on a 64-bit platform.\<close>

definition digit_char :: "nat \<Rightarrow> char" where
  "digit_char d = char_of (48 + d)"

definition is_digit :: "char \<Rightarrow> bool" where
  "is_digit c \<longleftrightarrow> 48 \<le> (of_char c :: nat) \<and> (of_char c :: nat) \<le> 57"

definition digit_val :: "char \<Rightarrow> nat" where
  "digit_val c = of_char c - 48"

fun nat_text :: "nat \<Rightarrow> string" where
  "nat_text n = (if n < 10 then [digit_char n] else nat_text (n div 10) @ [digit_char (n mod 10)])"

declare nat_text.simps [simp del]

definition Itoa :: "int \<Rightarrow> string" where
  "Itoa i = (if i < 0 then CHR ''-'' # nat_text (nat (- i)) else nat_text (nat i))"

definition digits_value :: "string \<Rightarrow> nat" where
  "digits_value s = foldl (\<lambda>n c. 10 * n + digit_val c) 0 s"

definition unsigned_text :: "string \<Rightarrow> nat option" where
  "unsigned_text s = (if s \<noteq> [] \<and> list_all is_digit s then Some (digits_value s) else None)"

definition in_int64 :: "int \<Rightarrow> bool" where
  "in_int64 i \<longleftrightarrow> - (2 ^ 63) \<le> i \<and> i < 2 ^ 63"

definition signed_text :: "string \<Rightarrow> int option" where
  "signed_text s =
     (case s of
        [] \<Rightarrow> None
      | c # cs \<Rightarrow>
          if c = CHR ''-'' then map_option (\<lambda>n. - int n) (unsigned_text cs)
          else if c = CHR ''+'' then map_option int (unsigned_text cs)
          else map_option int (unsigned_text s))"

definition Atoi :: "string \<Rightarrow> int option" where
  "Atoi s = (case signed_text s of
               Some i \<Rightarrow> if in_int64 i then Some i else None
             | None \<Rightarrow> None)"

lemma of_char_digit: "d < 10 \<Longrightarrow> (of_char (digit_char d) :: nat) = 48 + d"
  by (simp add: digit_char_def)

lemma digit_char_ok: "d < 10 \<Longrightarrow> is_digit (digit_char d) \<and> digit_val (digit_char d) = d"
  by (simp add: is_digit_def digit_val_def of_char_digit)

lemma nat_text_nonempty [simp]: "nat_text n \<noteq> []"
  by (subst nat_text.simps) simp

lemma nat_text_digits: "list_all is_digit (nat_text n)"
proof (induction n rule: nat_text.induct)
  case (1 n)
  then show ?case by (subst nat_text.simps) (auto simp: digit_char_ok)
qed

lemma nat_text_value: "digits_value (nat_text n) = n"
proof (induction n rule: nat_text.induct)
  case (1 n)
  then show ?case
    by (subst nat_text.simps) (auto simp: digits_value_def digit_char_ok)
qed

lemma unsigned_nat_text [simp]: "unsigned_text (nat_text n) = Some n"
  by (simp add: unsigned_text_def nat_text_digits nat_text_value)

lemma nat_text_head:
  assumes "nat_text n = c # cs"
  shows "c \<noteq> CHR ''-''" and "c \<noteq> CHR ''+''"
proof -
  have "is_digit c" using nat_text_digits [of n] assms by simp
  then show "c \<noteq> CHR ''-''" and "c \<noteq> CHR ''+''" by (auto simp: is_digit_def)
qed

lemma signed_Itoa: "signed_text (Itoa i) = Some i"
proof (cases "i < 0")
  case True
  then show ?thesis by (simp add: Itoa_def signed_text_def)
next
  case False
  then obtain c cs where cs: "nat_text (nat i) = c # cs"
    by (metis list.exhaust nat_text_nonempty)
  with False show ?thesis
    using nat_text_head [OF cs] unsigned_nat_text [of "nat i"]
    by (simp add: Itoa_def signed_text_def)
qed

lemma Atoi_Itoa [simp]: "in_int64 i \<Longrightarrow> Atoi (Itoa i) = Some i"
  by (simp add: Atoi_def signed_Itoa)

text \<open>
  \<open>%q\<close> of package fmt: the double-quoted form of \<open>strconv.Quote\<close>, exact on ASCII; a byte
  from 128 upwards is copied, as \<open>Quote\<close> does for the printable runes of valid UTF-8. Only
  error texts use it.
\<close>

definition hex_char :: "nat \<Rightarrow> char" where
  "hex_char d = char_of (if d < 10 then 48 + d else 87 + d)"

definition quote_char :: "char \<Rightarrow> string" where
  "quote_char c =
     (let n = (of_char c :: nat) in
      if c = CHR ''\"'' then [CHR 0x5C, c]
      else if n = 92 then [CHR 0x5C, c]
      else if n = 7 then CHR 0x5C # ''a''
      else if n = 8 then CHR 0x5C # ''b''
      else if n = 12 then CHR 0x5C # ''f''
      else if n = 10 then CHR 0x5C # ''n''
      else if n = 13 then CHR 0x5C # ''r''
      else if n = 9 then CHR 0x5C # ''t''
      else if n = 11 then CHR 0x5C # ''v''
      else if n < 32 \<or> n = 127 then CHR 0x5C # ''x'' @ [hex_char (n div 16), hex_char (n mod 16)]
      else [c])"

definition Quote :: "string \<Rightarrow> string" where
  "Quote s = CHR 0x22 # concat (map quote_char s) @ [CHR 0x22]"

section \<open>Error values\<close>

text \<open>
  \<open>Foreign\<close> is an error made outside the sources (the Kubernetes client, the operating
  system): its identity, its text and what its \<open>Unwrap\<close> method returns. \<open>Message\<close> is
  \<open>errors.New\<close> or a \<open>fmt.Errorf\<close> without \<open>%w\<close>; \<open>Wrapped p e\<close> is \<open>fmt.Errorf("p: %w", e)\<close>;
  \<open>Joined\<close> is the result of \<open>errors.Join\<close> on at least one error.
\<close>

datatype gerror =
    Foreign nat string "gerror option"
  | Message string
  | Wrapped string gerror
  | Joined "gerror list"

fun Error :: "gerror \<Rightarrow> string" where
  "Error (Foreign k m i) = m"
| "Error (Message m) = m"
| "Error (Wrapped p e) = p @ '': '' @ Error e"
| "Error (Joined es) = Join (map Error es) [CHR 0x0A]"

fun Unwrap :: "gerror \<Rightarrow> gerror option" where
  "Unwrap (Foreign k m i) = i"
| "Unwrap (Message m) = None"
| "Unwrap (Wrapped p e) = Some e"
| "Unwrap (Joined es) = None"

definition errors_Join :: "gerror option list \<Rightarrow> gerror option" where
  "errors_Join es =
     (let present = map the (filter (\<lambda>e. e \<noteq> None) es)
      in if present = [] then None else Some (Joined present))"

lemma Unwrap_smaller: "Unwrap e = Some e' \<Longrightarrow> size e' < size e"
  by (cases e) auto

lemma errors_Join_None [err_simps]: "errors_Join es = None \<longleftrightarrow> (\<forall>e \<in> set es. e = None)"
  by (auto simp: errors_Join_def Let_def filter_empty_conv)

type_synonym 'a result = "gerror + 'a"

fun map_result :: "('a \<Rightarrow> 'e + 'b) \<Rightarrow> 'a list \<Rightarrow> 'e + 'b list" where
  "map_result f [] = Inr []"
| "map_result f (x # xs) =
     (case f x of
        Inl e \<Rightarrow> Inl e
      | Inr y \<Rightarrow> (case map_result f xs of Inl e \<Rightarrow> Inl e | Inr ys \<Rightarrow> Inr (y # ys)))"

lemma map_result_Inr:
  "map_result f xs = Inr ys \<longleftrightarrow> list_all2 (\<lambda>x y. f x = Inr y) xs ys"
proof (induction xs arbitrary: ys)
  case Nil
  then show ?case by auto
next
  case (Cons x xs)
  show ?case
    by (cases "map_result f xs"; cases "f x")
      (auto simp: list_all2_Cons1 Cons.IH [symmetric])
qed

lemma map_result_Inl:
  "map_result f xs = Inl e \<Longrightarrow> \<exists>x \<in> set xs. f x = Inl e"
  by (induction xs) (auto split: sum.splits)

lemma map_result_member:
  "map_result f xs = Inr ys \<Longrightarrow> y \<in> set ys \<Longrightarrow> \<exists>x \<in> set xs. f x = Inr y"
  by (auto simp: map_result_Inr list_all2_conv_all_nth in_set_conv_nth) (metis nth_mem)

lemma list_all2_source:
  "list_all2 P xs ys \<Longrightarrow> y \<in> set ys \<Longrightarrow> \<exists>x \<in> set xs. P x y"
  by (induction xs ys rule: list_all2_induct) auto

lemma list_all2_target:
  "list_all2 P xs ys \<Longrightarrow> x \<in> set xs \<Longrightarrow> \<exists>y \<in> set ys. P x y"
  by (induction xs ys rule: list_all2_induct) auto

section \<open>Dynamically typed values\<close>

text \<open>
  The values \<open>interface{}\<close> holds in an unstructured Kubernetes object: what encoding/json
  produces. A floating point number is kept as its 64 bits; the sources never compute with it.
\<close>

datatype gval =
    VNil
  | VBool bool
  | VInt int
  | VFloat "64 word"
  | VStr string
  | VList "gval list"
  | VMap "(string \<times> gval) list"

type_synonym gmap = "gval go_map"

text \<open>The two-value type assertions \<open>v.(string)\<close> and \<open>v.(map[string]interface{})\<close>.\<close>

fun as_string :: "gval \<Rightarrow> string option" where
  "as_string (VStr s) = Some s"
| "as_string _ = None"

fun as_map :: "gval \<Rightarrow> gmap option" where
  "as_map (VMap m) = Some m"
| "as_map _ = None"

fun_cases as_string_SomeE: "as_string v = Some s"
fun_cases as_map_SomeE: "as_map v = Some m"

lemma as_string_Some [simp]: "as_string v = Some s \<longleftrightarrow> v = VStr s"
  by (cases v) auto

lemma as_map_Some [simp]: "as_map v = Some m \<longleftrightarrow> v = VMap m"
  by (cases v) auto

lemma map_of_update [simp]: "map_of (AList.update k v m) = (map_of m)(k \<mapsto> v)"
  by (simp add: update_conv')

lemma map_of_delete [simp]: "map_of (AList.delete k m) = (map_of m)(k := None)"
  by (simp add: delete_conv')

end
