(* ===== verification/Platform_API.thy ===== *)
theory Platform_API
  imports Go_Prelude
begin

text \<open>
  The MCPLifecycleOperator custom resource (api/v1alpha1/mcplifecycleoperator_types.go) and the
  names its conditions have. Of the platform types the sources embed
  (\<open>platformcommon.Condition\<close>, \<open>Status\<close>, \<open>ComponentRelease\<close>) the records carry the fields the
  sources read or write; the time stamps of a condition are the library's own.
\<close>

section \<open>Constants\<close>

definition MCPLifecycleOperatorServiceName :: string where
  "MCPLifecycleOperatorServiceName = ''mcplifecycleoperator''"

definition MCPLifecycleOperatorInstanceName :: string where
  "MCPLifecycleOperatorInstanceName = ''default''"

definition MCPLifecycleOperatorKind :: string where
  "MCPLifecycleOperatorKind = ''MCPLifecycleOperator''"

definition GroupVersion :: "string \<times> string" where
  "GroupVersion = (''components.platform.opendatahub.io'', ''v1alpha1'')"

text \<open>\<open>schema.GroupVersion.String\<close> on a non-empty group.\<close>

definition gv_string :: "string \<times> string \<Rightarrow> string" where
  "gv_string gv = fst gv @ ''/'' @ snd gv"

text \<open>Constants of the platform library and of apimachinery.\<close>

definition ConditionTrue :: string where "ConditionTrue = ''True''"
definition ConditionFalse :: string where "ConditionFalse = ''False''"
definition ConditionUnknown :: string where "ConditionUnknown = ''Unknown''"
definition ConditionSeverityInfo :: string where "ConditionSeverityInfo = ''Info''"
definition ConditionTypeReady :: string where "ConditionTypeReady = ''Ready''"
definition ConditionTypeProvisioningSucceeded :: string where
  "ConditionTypeProvisioningSucceeded = ''ProvisioningSucceeded''"
definition ConditionTypeDegraded :: string where "ConditionTypeDegraded = ''Degraded''"
definition PhaseReady :: string where "PhaseReady = ''Ready''"
definition PhaseNotReady :: string where "PhaseNotReady = ''Not Ready''"
definition Removed :: string where "Removed = ''Removed''"
definition Managed :: string where "Managed = ''Managed''"
definition PlatformPartOf :: string where "PlatformPartOf = ''platform.opendatahub.io/part-of''"

text \<open>Condition types of mcplifecycleoperator_lifecycle.go.\<close>

definition ConditionMCPLifecycleOperatorAvailable :: string where
  "ConditionMCPLifecycleOperatorAvailable = ''MCPLifecycleOperatorAvailable''"

definition ConditionMCPServerStorageMigrated :: string where
  "ConditionMCPServerStorageMigrated = ''MCPServerStorageMigrated''"

definition ConditionMCPServerConversionVerified :: string where
  "ConditionMCPServerConversionVerified = ''MCPServerConversionVerified''"

lemmas condition_type_defs =
  ConditionMCPLifecycleOperatorAvailable_def ConditionMCPServerStorageMigrated_def
  ConditionMCPServerConversionVerified_def ConditionTypeReady_def
  ConditionTypeProvisioningSucceeded_def ConditionTypeDegraded_def

lemmas condition_status_defs = ConditionTrue_def ConditionFalse_def ConditionUnknown_def

text \<open>The condition types and the statuses are pairwise different.\<close>

lemma condition_types_distinct [simp]:
  "distinct [ConditionMCPLifecycleOperatorAvailable, ConditionMCPServerStorageMigrated,
     ConditionMCPServerConversionVerified, ConditionTypeReady,
     ConditionTypeProvisioningSucceeded, ConditionTypeDegraded]"
  by (simp add: condition_type_defs)

lemma condition_types_neq [simp]:
  "ConditionMCPLifecycleOperatorAvailable \<noteq> ConditionMCPServerStorageMigrated"
  "ConditionMCPServerStorageMigrated \<noteq> ConditionMCPLifecycleOperatorAvailable"
  "ConditionMCPLifecycleOperatorAvailable \<noteq> ConditionMCPServerConversionVerified"
  "ConditionMCPServerConversionVerified \<noteq> ConditionMCPLifecycleOperatorAvailable"
  "ConditionMCPServerStorageMigrated \<noteq> ConditionMCPServerConversionVerified"
  "ConditionMCPServerConversionVerified \<noteq> ConditionMCPServerStorageMigrated"
  "ConditionTypeReady \<noteq> ConditionTypeProvisioningSucceeded"
  "ConditionTypeProvisioningSucceeded \<noteq> ConditionTypeReady"
  "ConditionTypeReady \<noteq> ConditionTypeDegraded"
  "ConditionTypeDegraded \<noteq> ConditionTypeReady"
  "ConditionTypeProvisioningSucceeded \<noteq> ConditionTypeDegraded"
  "ConditionTypeDegraded \<noteq> ConditionTypeProvisioningSucceeded"
  by (simp_all add: condition_type_defs)

lemma own_types_neq_platform [simp]:
  "ConditionMCPLifecycleOperatorAvailable \<noteq> ConditionTypeReady"
  "ConditionMCPLifecycleOperatorAvailable \<noteq> ConditionTypeProvisioningSucceeded"
  "ConditionMCPLifecycleOperatorAvailable \<noteq> ConditionTypeDegraded"
  "ConditionMCPServerStorageMigrated \<noteq> ConditionTypeReady"
  "ConditionMCPServerStorageMigrated \<noteq> ConditionTypeProvisioningSucceeded"
  "ConditionMCPServerStorageMigrated \<noteq> ConditionTypeDegraded"
  "ConditionMCPServerConversionVerified \<noteq> ConditionTypeReady"
  "ConditionMCPServerConversionVerified \<noteq> ConditionTypeProvisioningSucceeded"
  "ConditionMCPServerConversionVerified \<noteq> ConditionTypeDegraded"
  by (simp_all add: condition_type_defs)

lemmas platform_types_neq_own [simp] = own_types_neq_platform [symmetric]

lemma condition_statuses_neq [simp]:
  "ConditionTrue \<noteq> ConditionFalse" "ConditionFalse \<noteq> ConditionTrue"
  "ConditionTrue \<noteq> ConditionUnknown" "ConditionUnknown \<noteq> ConditionTrue"
  "ConditionFalse \<noteq> ConditionUnknown" "ConditionUnknown \<noteq> ConditionFalse"
  by (simp_all add: condition_status_defs)

section \<open>The custom resource\<close>

record condition =
  ctype :: string
  cstatus :: string
  creason :: string
  cmessage :: string
  cobserved :: int
  cseverity :: string

record distribution =
  dist_name :: string
  dist_version :: string

record listener_ref =
  lr_name :: string
  lr_hostname :: string

record gateway_ref =
  gr_name :: string
  gr_namespace :: string
  gr_listeners :: "listener_ref list"

record mcp_gateway_info =
  gi_name :: string
  gi_namespace :: string
  gi_ready :: bool
  gi_gateway :: gateway_ref

record component_release =
  rel_name :: string
  rel_repo_url :: string
  rel_version :: string

record status =
  st_phase :: string
  st_observed_generation :: int
  st_conditions :: "condition list"
  st_releases :: "component_release list"
  st_distribution :: distribution
  st_gateways :: "mcp_gateway_info list"

record operator_cr =
  cr_name :: string
  cr_uid :: string
  cr_generation :: int
  cr_management_state :: string
  cr_status :: status

definition GetConditions :: "operator_cr \<Rightarrow> condition list" where
  "GetConditions m = st_conditions (cr_status m)"

definition SetConditions :: "operator_cr \<Rightarrow> condition list \<Rightarrow> operator_cr" where
  "SetConditions m cs = m\<lparr>cr_status := (cr_status m)\<lparr>st_conditions := cs\<rparr>\<rparr>"

definition GetReleaseStatus :: "operator_cr \<Rightarrow> component_release list" where
  "GetReleaseStatus m = st_releases (cr_status m)"

definition SetReleaseStatus :: "operator_cr \<Rightarrow> component_release list \<Rightarrow> operator_cr" where
  "SetReleaseStatus m rs = m\<lparr>cr_status := (cr_status m)\<lparr>st_releases := rs\<rparr>\<rparr>"

lemma accessors [simp]:
  "GetConditions (SetConditions m cs) = cs"
  "SetConditions m (GetConditions m) = m"
  "SetConditions (SetConditions m cs) cs' = SetConditions m cs'"
  "GetReleaseStatus (SetReleaseStatus m rs) = rs"
  "GetConditions (SetReleaseStatus m rs) = GetConditions m"
  "GetReleaseStatus (SetConditions m cs) = GetReleaseStatus m"
  by (simp_all add: GetConditions_def SetConditions_def GetReleaseStatus_def SetReleaseStatus_def)

text \<open>Setting the conditions writes no other field.\<close>

lemma SetConditions_frame [simp]:
  "cr_name (SetConditions m cs) = cr_name m"
  "cr_uid (SetConditions m cs) = cr_uid m"
  "cr_generation (SetConditions m cs) = cr_generation m"
  "cr_management_state (SetConditions m cs) = cr_management_state m"
  "st_distribution (cr_status (SetConditions m cs)) = st_distribution (cr_status m)"
  "st_gateways (cr_status (SetConditions m cs)) = st_gateways (cr_status m)"
  "st_phase (cr_status (SetConditions m cs)) = st_phase (cr_status m)"
  "st_observed_generation (cr_status (SetConditions m cs)) = st_observed_generation (cr_status m)"
  "st_releases (cr_status (SetConditions m cs)) = st_releases (cr_status m)"
  by (simp_all add: SetConditions_def)

end
