(* ===== verification/Conditions.thy ===== *)
theory Conditions
  imports Platform_API
begin

text \<open>
  The ConditionsManager of api/v1alpha1/mcplifecycleoperator_lifecycle.go: marking conditions,
  folding them into Ready, ProvisioningSucceeded and Degraded, and the phase.

  The condition store itself (\<open>libconditions.SetStatusCondition\<close>, \<open>FindStatusCondition\<close>,
  \<open>IsStatusConditionTrue\<close>) is a library outside the sources: it is the parameter
  \<open>conditions_api\<close>, and what the code relies on are the laws \<open>conditions_laws\<close>.
  The manager holds a pointer to the resource whose conditions it writes; here each operation
  takes the condition list and returns the new one.
\<close>

record conditions_api =
  lib_set :: "condition list \<Rightarrow> condition \<Rightarrow> condition list"
  lib_find :: "condition list \<Rightarrow> string \<Rightarrow> condition option"
  lib_is_true :: "condition list \<Rightarrow> string \<Rightarrow> bool"

section \<open>The manager\<close>

record conditions_manager =
  cm_lib :: conditions_api
  cm_generation :: int

definition NewConditionsManager :: "conditions_api \<Rightarrow> int \<Rightarrow> conditions_manager" where
  "NewConditionsManager lib generation = \<lparr>cm_lib = lib, cm_generation = generation\<rparr>"

definition MarkTrue :: "conditions_manager \<Rightarrow> string \<Rightarrow> condition list \<Rightarrow> condition list" where
  "MarkTrue cm condType cs =
     lib_set (cm_lib cm) cs
       \<lparr>ctype = condType, cstatus = ConditionTrue, creason = ''Available'', cmessage = [],
        cobserved = cm_generation cm, cseverity = []\<rparr>"

definition MarkTrueWithReason ::
    "conditions_manager \<Rightarrow> string \<Rightarrow> string \<Rightarrow> condition list \<Rightarrow> condition list" where
  "MarkTrueWithReason cm condType reason cs =
     lib_set (cm_lib cm) cs
       \<lparr>ctype = condType, cstatus = ConditionTrue, creason = reason, cmessage = [],
        cobserved = cm_generation cm, cseverity = []\<rparr>"

definition MarkFalse ::
    "conditions_manager \<Rightarrow> string \<Rightarrow> string \<Rightarrow> string \<Rightarrow> condition list \<Rightarrow> condition list" where
  "MarkFalse cm condType reason message cs =
     lib_set (cm_lib cm) cs
       \<lparr>ctype = condType, cstatus = ConditionFalse, creason = reason, cmessage = message,
        cobserved = cm_generation cm, cseverity = []\<rparr>"

definition MarkUnknown :: "conditions_manager \<Rightarrow> string \<Rightarrow> condition list \<Rightarrow> condition list" where
  "MarkUnknown cm condType cs =
     lib_set (cm_lib cm) cs
       \<lparr>ctype = condType, cstatus = ConditionUnknown, creason = ''Progressing'', cmessage = [],
        cobserved = cm_generation cm, cseverity = []\<rparr>"

text \<open>A key of the Go map with the value true; every other key reads false.\<close>

definition featureConditionTypes :: "string \<Rightarrow> bool" where
  "featureConditionTypes t \<longleftrightarrow> t = ConditionMCPLifecycleOperatorAvailable"

text \<open>The loop of AggregateReady over all conditions, with its two flags.\<close>

fun scanFeatures :: "condition list \<Rightarrow> bool \<Rightarrow> bool \<Rightarrow> bool \<times> bool" where
  "scanFeatures [] anyFailing anyUnknown = (anyFailing, anyUnknown)"
| "scanFeatures (c # cs) anyFailing anyUnknown =
     (if \<not> featureConditionTypes (ctype c) then scanFeatures cs anyFailing anyUnknown
      else if cstatus c = ConditionFalse
        then scanFeatures cs (if cseverity c \<noteq> ConditionSeverityInfo then True else anyFailing)
               anyUnknown
      else if cstatus c = ConditionUnknown then scanFeatures cs anyFailing True
      else scanFeatures cs anyFailing anyUnknown)"

definition AggregateReady :: "conditions_manager \<Rightarrow> condition list \<Rightarrow> condition list" where
  "AggregateReady cm cs =
     (let opAvail = lib_find (cm_lib cm) cs ConditionMCPLifecycleOperatorAvailable in
      if opAvail = None \<or> cstatus (the opAvail) \<noteq> ConditionTrue then
        MarkFalse cm ConditionTypeDegraded ''NotDegraded'' []
          (MarkFalse cm ConditionTypeReady
             ''OperandDeploymentFailed'' ''MCP Lifecycle Operator operand is not available''
             (MarkFalse cm ConditionTypeProvisioningSucceeded
                ''OperandDeploymentFailed'' ''MCP Lifecycle Operator operand is not available'' cs))
      else
        (let (anyFailing, anyUnknown) = scanFeatures cs False False;
             cs1 = MarkTrue cm ConditionTypeProvisioningSucceeded cs
         in if anyFailing
            then MarkTrue cm ConditionTypeDegraded (MarkTrue cm ConditionTypeReady cs1)
            else if anyUnknown
            then MarkFalse cm ConditionTypeDegraded ''NotDegraded'' []
                   (MarkUnknown cm ConditionTypeReady cs1)
            else MarkFalse cm ConditionTypeDegraded ''NotDegraded'' []
                   (MarkTrue cm ConditionTypeReady cs1)))"

definition Phase :: "conditions_manager \<Rightarrow> condition list \<Rightarrow> string" where
  "Phase cm cs =
     (if lib_is_true (cm_lib cm) cs ConditionTypeReady then PhaseReady else PhaseNotReady)"

lemmas mark_defs = MarkTrue_def MarkTrueWithReason_def MarkFalse_def MarkUnknown_def

section \<open>What the code relies on of the condition store\<close>

text \<open>What a reader sees of one condition: its status, reason, message and generation.\<close>

type_synonym observation = "string \<times> string \<times> string \<times> int"

definition shown :: "condition \<Rightarrow> observation" where
  "shown c = (cstatus c, creason c, cmessage c, cobserved c)"

definition observed :: "conditions_manager \<Rightarrow> condition list \<Rightarrow> string \<Rightarrow> observation option" where
  "observed cm cs t = map_option shown (lib_find (cm_lib cm) cs t)"

definition status_is :: "conditions_manager \<Rightarrow> condition list \<Rightarrow> string \<Rightarrow> string \<Rightarrow> bool" where
  "status_is cm cs t s \<longleftrightarrow> map_option fst (observed cm cs t) = Some s"

definition one_per_type :: "condition list \<Rightarrow> bool" where
  "one_per_type cs \<longleftrightarrow> distinct (map ctype cs)"

text \<open>
  Finding returns the first condition of a type; setting makes the given condition the one that
  is found for its type, leaves the other types alone, and never makes a second condition of a
  type.
\<close>

definition conditions_laws :: "conditions_api \<Rightarrow> bool" where
  "conditions_laws lib \<longleftrightarrow>
     (\<forall>cs t. lib_find lib cs t = find (\<lambda>c. ctype c = t) cs) \<and>
     (\<forall>cs t. lib_is_true lib cs t \<longleftrightarrow>
        map_option cstatus (find (\<lambda>c. ctype c = t) cs) = Some ConditionTrue) \<and>
     (\<forall>cs c. map_option shown (find (\<lambda>d. ctype d = ctype c) (lib_set lib cs c)) = Some (shown c)) \<and>
     (\<forall>cs c t. t \<noteq> ctype c \<longrightarrow>
        find (\<lambda>d. ctype d = t) (lib_set lib cs c) = find (\<lambda>d. ctype d = t) cs) \<and>
     (\<forall>cs c. distinct (map ctype cs) \<longrightarrow> distinct (map ctype (lib_set lib cs c)))"

locale conditions_lib =
  fixes cm :: conditions_manager
  assumes laws: "conditions_laws (cm_lib cm)"
begin

lemma find_first: "lib_find (cm_lib cm) cs t = find (\<lambda>c. ctype c = t) cs"
  using laws by (simp add: conditions_laws_def)

lemma is_true_status: "lib_is_true (cm_lib cm) cs t \<longleftrightarrow> status_is cm cs t ConditionTrue"
  using laws
  by (auto simp: conditions_laws_def status_is_def observed_def option.map_comp comp_def shown_def)

lemma set_observed:
  "observed cm (lib_set (cm_lib cm) cs c) t = (if t = ctype c then Some (shown c) else observed cm cs t)"
  using laws by (auto simp: conditions_laws_def observed_def)

lemma set_one_per_type: "one_per_type cs \<Longrightarrow> one_per_type (lib_set (cm_lib cm) cs c)"
  using laws by (auto simp: conditions_laws_def one_per_type_def)

lemma MarkTrue_observed:
  "observed cm (MarkTrue cm ty cs) t =
     (if t = ty then Some (ConditionTrue, ''Available'', [], cm_generation cm) else observed cm cs t)"
  by (simp add: MarkTrue_def set_observed shown_def)

lemma MarkTrueWithReason_observed:
  "observed cm (MarkTrueWithReason cm ty r cs) t =
     (if t = ty then Some (ConditionTrue, r, [], cm_generation cm) else observed cm cs t)"
  by (simp add: MarkTrueWithReason_def set_observed shown_def)

lemma MarkFalse_observed:
  "observed cm (MarkFalse cm ty r m cs) t =
     (if t = ty then Some (ConditionFalse, r, m, cm_generation cm) else observed cm cs t)"
  by (simp add: MarkFalse_def set_observed shown_def)

lemma MarkUnknown_observed:
  "observed cm (MarkUnknown cm ty cs) t =
     (if t = ty then Some (ConditionUnknown, ''Progressing'', [], cm_generation cm)
      else observed cm cs t)"
  by (simp add: MarkUnknown_def set_observed shown_def)

lemmas marks_observed =
  MarkTrue_observed MarkTrueWithReason_observed MarkFalse_observed MarkUnknown_observed

lemma marks_one_per_type:
  assumes "one_per_type cs"
  shows "one_per_type (MarkTrue cm ty cs)" and "one_per_type (MarkTrueWithReason cm ty r cs)"
    and "one_per_type (MarkFalse cm ty r m cs)" and "one_per_type (MarkUnknown cm ty cs)"
  using assms by (simp_all add: mark_defs set_one_per_type)

lemma aggregate_test:
  "(lib_find (cm_lib cm) cs t = None \<or> cstatus (the (lib_find (cm_lib cm) cs t)) \<noteq> ConditionTrue)
     \<longleftrightarrow> \<not> status_is cm cs t ConditionTrue"
  by (cases "lib_find (cm_lib cm) cs t") (auto simp: status_is_def observed_def shown_def)

end

text \<open>
  The scan of AggregateReady runs only when the found availability condition is True; with one
  condition per type it then raises neither flag.
\<close>

lemma scanFeatures_irrelevant:
  assumes "\<forall>c \<in> set cs. featureConditionTypes (ctype c) \<longrightarrow> cstatus c = ConditionTrue"
  shows "scanFeatures cs f u = (f, u)"
  using assms by (induction cs) auto

lemma one_per_type_found:
  assumes "one_per_type cs" and "find (\<lambda>c. ctype c = t) cs = Some c" and "d \<in> set cs" and "ctype d = t"
  shows "d = c"
proof -
  from assms(2) have "c \<in> set cs" and "ctype c = t"
    by (auto simp: find_Some_iff)
  with assms show ?thesis
    by (auto simp: one_per_type_def dest: distinct_map [THEN iffD1] inj_onD)
qed

context conditions_lib
begin

lemma scan_quiet:
  assumes "one_per_type cs" and "status_is cm cs ConditionMCPLifecycleOperatorAvailable ConditionTrue"
  shows "scanFeatures cs False False = (False, False)"
proof (rule scanFeatures_irrelevant, intro ballI impI)
  fix d assume d: "d \<in> set cs" "featureConditionTypes (ctype d)"
  from assms(2) obtain c
    where c: "find (\<lambda>c. ctype c = ConditionMCPLifecycleOperatorAvailable) cs = Some c"
      and "cstatus c = ConditionTrue"
    by (auto simp: status_is_def observed_def find_first shown_def)
  moreover have "d = c"
    using one_per_type_found [OF assms(1) c d(1)] d(2) by (simp add: featureConditionTypes_def)
  ultimately show "cstatus d = ConditionTrue" by simp
qed

lemma aggregate_unavailable:
  assumes "\<not> status_is cm cs ConditionMCPLifecycleOperatorAvailable ConditionTrue"
  shows "observed cm (AggregateReady cm cs) t =
    (if t = ConditionTypeDegraded then Some (ConditionFalse, ''NotDegraded'', [], cm_generation cm)
     else if t = ConditionTypeReady \<or> t = ConditionTypeProvisioningSucceeded
       then Some (ConditionFalse, ''OperandDeploymentFailed'',
              ''MCP Lifecycle Operator operand is not available'', cm_generation cm)
     else observed cm cs t)"
  using assms by (simp add: AggregateReady_def Let_def aggregate_test marks_observed)

lemma aggregate_available:
  assumes "one_per_type cs" and "status_is cm cs ConditionMCPLifecycleOperatorAvailable ConditionTrue"
  shows "observed cm (AggregateReady cm cs) t =
    (if t = ConditionTypeDegraded then Some (ConditionFalse, ''NotDegraded'', [], cm_generation cm)
     else if t = ConditionTypeReady \<or> t = ConditionTypeProvisioningSucceeded
       then Some (ConditionTrue, ''Available'', [], cm_generation cm)
     else observed cm cs t)"
  using assms
  by (simp add: AggregateReady_def Let_def aggregate_test marks_observed scan_quiet)

lemma aggregate_frame:
  assumes "t \<notin> {ConditionTypeDegraded, ConditionTypeReady, ConditionTypeProvisioningSucceeded}"
  shows "observed cm (AggregateReady cm cs) t = observed cm cs t"
  using assms
  by (auto simp: AggregateReady_def Let_def aggregate_test marks_observed split: prod.splits)

lemma aggregate_one_per_type: "one_per_type cs \<Longrightarrow> one_per_type (AggregateReady cm cs)"
  by (auto simp: AggregateReady_def Let_def marks_one_per_type split: prod.splits)

lemma phase_ready: "Phase cm cs = PhaseReady \<longleftrightarrow> status_is cm cs ConditionTypeReady ConditionTrue"
  by (simp add: Phase_def is_true_status PhaseReady_def PhaseNotReady_def)

end

section \<open>A condition store\<close>

text \<open>
  The store of apimachinery's \<open>meta.SetStatusCondition\<close> on a list: replace the first condition
  of the type in place, or append. It satisfies the laws, and evaluates.
\<close>

fun upsert_condition :: "condition list \<Rightarrow> condition \<Rightarrow> condition list" where
  "upsert_condition [] c = [c]"
| "upsert_condition (d # ds) c = (if ctype d = ctype c then c # ds else d # upsert_condition ds c)"

definition list_conditions :: conditions_api where
  "list_conditions = \<lparr>lib_set = upsert_condition,
     lib_find = (\<lambda>cs t. find (\<lambda>c. ctype c = t) cs),
     lib_is_true = (\<lambda>cs t. map_option cstatus (find (\<lambda>c. ctype c = t) cs) = Some ConditionTrue)\<rparr>"

lemma find_upsert_same: "find (\<lambda>d. ctype d = ctype c) (upsert_condition cs c) = Some c"
  by (induction cs) auto

lemma find_upsert_other:
  "t \<noteq> ctype c \<Longrightarrow> find (\<lambda>d. ctype d = t) (upsert_condition cs c) = find (\<lambda>d. ctype d = t) cs"
  by (induction cs) auto

lemma upsert_types: "ctype ` set (upsert_condition cs c) = insert (ctype c) (ctype ` set cs)"
  by (induction cs) auto

lemma upsert_distinct: "distinct (map ctype cs) \<Longrightarrow> distinct (map ctype (upsert_condition cs c))"
proof (induction cs)
  case Nil
  then show ?case by simp
next
  case (Cons d ds)
  then show ?case using upsert_types [of ds c] by auto
qed

lemma list_conditions_laws: "conditions_laws list_conditions"
  by (simp add: conditions_laws_def list_conditions_def find_upsert_same find_upsert_other upsert_distinct)

interpretation stored: conditions_lib "NewConditionsManager list_conditions g" for g
  by unfold_locales (simp add: NewConditionsManager_def list_conditions_laws)

section \<open>Properties\<close>

text \<open>
  C26: AggregateReady copies the availability of the operand into Ready and ProvisioningSucceeded,
  with the reason of the outcome and the manager's generation, always reports Degraded as False,
  and leaves every other condition alone. With one condition per type its scan for failing and
  unknown feature conditions never decides anything. The phase is Ready exactly when the operand is
  available.
\<close>

theorem aggregate_ready_spec:
  assumes "conditions_laws (cm_lib cm)" and "one_per_type cs"
  shows "observed cm (AggregateReady cm cs) t =
    (if t = ConditionTypeDegraded then Some (ConditionFalse, ''NotDegraded'', [], cm_generation cm)
     else if t = ConditionTypeReady \<or> t = ConditionTypeProvisioningSucceeded then
       (if status_is cm cs ConditionMCPLifecycleOperatorAvailable ConditionTrue
        then Some (ConditionTrue, ''Available'', [], cm_generation cm)
        else Some (ConditionFalse, ''OperandDeploymentFailed'',
               ''MCP Lifecycle Operator operand is not available'', cm_generation cm))
     else observed cm cs t) \<and>
    (Phase cm (AggregateReady cm cs) = PhaseReady \<longleftrightarrow>
      status_is cm cs ConditionMCPLifecycleOperatorAvailable ConditionTrue) \<and>
    one_per_type (AggregateReady cm cs)"
proof -
  note lib = conditions_lib.intro [OF assms(1)]
  have all: "observed cm (AggregateReady cm cs) t =
    (if t = ConditionTypeDegraded then Some (ConditionFalse, ''NotDegraded'', [], cm_generation cm)
     else if t = ConditionTypeReady \<or> t = ConditionTypeProvisioningSucceeded then
       (if status_is cm cs ConditionMCPLifecycleOperatorAvailable ConditionTrue
        then Some (ConditionTrue, ''Available'', [], cm_generation cm)
        else Some (ConditionFalse, ''OperandDeploymentFailed'',
               ''MCP Lifecycle Operator operand is not available'', cm_generation cm))
     else observed cm cs t)" for t
    using conditions_lib.aggregate_available [OF lib assms(2)] conditions_lib.aggregate_unavailable [OF lib]
    by (cases "status_is cm cs ConditionMCPLifecycleOperatorAvailable ConditionTrue") auto
  then show ?thesis
    using conditions_lib.phase_ready [OF lib] conditions_lib.aggregate_one_per_type [OF lib assms(2)]
    by (simp add: status_is_def)
qed

theorem aggregate_ready_spec_witness:
  "Phase (NewConditionsManager list_conditions 7) (AggregateReady (NewConditionsManager list_conditions 7)
     (MarkTrue (NewConditionsManager list_conditions 7) ConditionMCPLifecycleOperatorAvailable [])) = PhaseReady"
proof -
  let ?cm = "NewConditionsManager list_conditions 7"
  let ?cs = "MarkTrue ?cm ConditionMCPLifecycleOperatorAvailable []"
  have laws: "conditions_laws (cm_lib ?cm)" by (simp add: NewConditionsManager_def list_conditions_laws)
  have "one_per_type ?cs" and "status_is ?cm ?cs ConditionMCPLifecycleOperatorAvailable ConditionTrue"
    by code_simp+
  with aggregate_ready_spec [OF laws] show ?thesis by blast
qed

end
