(* ===== verification/Unstructured.thy ===== *)
theory Unstructured
  imports Go_Prelude
begin

text \<open>
  The accessors of \<open>k8s.io/apimachinery/.../unstructured\<close> through which the sources read and
  write Kubernetes objects of any kind. They are a library outside the sources: a parameter
  \<open>unstructured_api\<close>, whose documented behaviour the laws \<open>unstructured_laws\<close> state over the
  field an object has at a path.
\<close>

record unstructured_api =
  u_GetKind :: "gmap \<Rightarrow> string"
  u_GetName :: "gmap \<Rightarrow> string"
  u_GetNamespace :: "gmap \<Rightarrow> string"
  u_GroupVersionKind :: "gmap \<Rightarrow> string \<times> string \<times> string"
  u_GetLabels :: "gmap \<Rightarrow> string go_map option"
  u_SetLabels :: "gmap \<Rightarrow> string go_map \<Rightarrow> gmap"
  u_GetAnnotations :: "gmap \<Rightarrow> string go_map option"
  u_SetAnnotations :: "gmap \<Rightarrow> string go_map \<Rightarrow> gmap"
  u_NestedSlice :: "gmap \<Rightarrow> string list \<Rightarrow> gval list option result"
  u_NestedString :: "gmap \<Rightarrow> string list \<Rightarrow> string option result"
  u_NestedStringSlice :: "gmap \<Rightarrow> string list \<Rightarrow> string list option result"
  u_SetNestedSlice :: "gmap \<Rightarrow> gval list \<Rightarrow> string list \<Rightarrow> gmap result"
  u_SetNestedStringSlice :: "gmap \<Rightarrow> string list \<Rightarrow> string list \<Rightarrow> gmap result"

text \<open>
  A nil map and a nil slice read like empty ones; the accessors return \<open>None\<close> for nil and
  \<open>Inr None\<close> for \<open>found = false\<close>.
\<close>

definition annotations_of :: "unstructured_api \<Rightarrow> gmap \<Rightarrow> string \<Rightarrow> string option" where
  "annotations_of U m = (case u_GetAnnotations U m of None \<Rightarrow> Map.empty | Some a \<Rightarrow> map_of a)"

definition labels_of :: "unstructured_api \<Rightarrow> gmap \<Rightarrow> string \<Rightarrow> string option" where
  "labels_of U m = (case u_GetLabels U m of None \<Rightarrow> Map.empty | Some a \<Rightarrow> map_of a)"

section \<open>The field at a path\<close>

fun field :: "gval \<Rightarrow> string list \<Rightarrow> gval option" where
  "field v [] = Some v"
| "field (VMap m) (k # ks) = (case map_of m k of None \<Rightarrow> None | Some v \<Rightarrow> field v ks)"
| "field _ (k # ks) = None"

fun settable :: "gval \<Rightarrow> string list \<Rightarrow> bool" where
  "settable v [] = True"
| "settable (VMap m) (k # ks) = (case map_of m k of None \<Rightarrow> True | Some v \<Rightarrow> ks = [] \<or> settable v ks)"
| "settable _ (k # ks) = False"

definition apart :: "string list \<Rightarrow> string list \<Rightarrow> bool" where
  "apart p q \<longleftrightarrow> \<not> prefix p q \<and> \<not> prefix q p"

definition str_field :: "gmap \<Rightarrow> string list \<Rightarrow> string" where
  "str_field m p = (case field (VMap m) p of Some (VStr s) \<Rightarrow> s | _ \<Rightarrow> [])"

lemma field_settable: "field v p \<noteq> None \<Longrightarrow> settable v p"
  by (induction v p rule: field.induct) (auto split: option.splits)

lemma apart_commute: "apart p q \<longleftrightarrow> apart q p"
  by (auto simp: apart_def)

lemma apart_Cons [simp]: "apart (k # ks) (l # ls) \<longleftrightarrow> k \<noteq> l \<or> apart ks ls"
  by (auto simp: apart_def)

section \<open>Documented behaviour\<close>

definition reads_kind :: "unstructured_api \<Rightarrow> bool" where
  "reads_kind U \<longleftrightarrow>
     (\<forall>m. u_GetKind U m = str_field m [''kind'']) \<and>
     (\<forall>m. u_GetName U m = str_field m [''metadata'', ''name'']) \<and>
     (\<forall>m. u_GetNamespace U m = str_field m [''metadata'', ''namespace''])"

text \<open>
  Labels and annotations: a map of strings is read as it is; what is set is read back, provided
  the object's metadata is a map or absent, and no field elsewhere changes.
\<close>

definition string_map_at :: "(gmap \<Rightarrow> string go_map option) \<Rightarrow>
    (gmap \<Rightarrow> string go_map \<Rightarrow> gmap) \<Rightarrow> string \<Rightarrow> bool" where
  "string_map_at getter setter key \<longleftrightarrow>
     (\<forall>m n. field (VMap m) [''metadata'', key] = field (VMap n) [''metadata'', key]
        \<longrightarrow> getter m = getter n) \<and>
     (\<forall>m a. field (VMap m) [''metadata'', key] = Some (VMap (map (\<lambda>(k, s). (k, VStr s)) a)) \<longrightarrow>
        (\<exists>b. getter m = Some b \<and> map_of b = map_of a)) \<and>
     (\<forall>m a. settable (VMap m) [''metadata'', key] \<longrightarrow>
        (case getter (setter m a) of None \<Rightarrow> Map.empty | Some b \<Rightarrow> map_of b) = map_of a) \<and>
     (\<forall>m a q. apart [''metadata'', key] q \<longrightarrow> field (VMap (setter m a)) q = field (VMap m) q)"

definition reads_fields :: "unstructured_api \<Rightarrow> bool" where
  "reads_fields U \<longleftrightarrow>
     (\<forall>m p vs. u_NestedSlice U m p = Inr (Some vs) \<longleftrightarrow> field (VMap m) p = Some (VList vs)) \<and>
     (\<forall>m p. u_NestedSlice U m p = Inr None \<longrightarrow> field (VMap m) p = None) \<and>
     (\<forall>m k. map_of m k = None \<longrightarrow> u_NestedSlice U m [k] = Inr None) \<and>
     (\<forall>m p s. u_NestedString U m p = Inr (Some s) \<longleftrightarrow> field (VMap m) p = Some (VStr s)) \<and>
     (\<forall>m p ss. u_NestedStringSlice U m p = Inr (Some ss) \<longleftrightarrow>
        field (VMap m) p = Some (VList (map VStr ss))) \<and>
     (\<forall>m p. u_NestedStringSlice U m p = Inr None \<longrightarrow> field (VMap m) p = None) \<and>
     (\<forall>m k. map_of m k = None \<longrightarrow> u_NestedStringSlice U m [k] = Inr None)"

definition writes_field :: "(gmap \<Rightarrow> 'a \<Rightarrow> string list \<Rightarrow> gmap result) \<Rightarrow> ('a \<Rightarrow> gval) \<Rightarrow> bool" where
  "writes_field setter enc \<longleftrightarrow>
     (\<forall>m x p m'. setter m x p = Inr m' \<longrightarrow>
        field (VMap m') p = Some (enc x) \<and>
        (\<forall>q. apart p q \<longrightarrow> field (VMap m') q = field (VMap m) q)) \<and>
     (\<forall>m x p. p \<noteq> [] \<longrightarrow> settable (VMap m) p \<longrightarrow> (\<exists>m'. setter m x p = Inr m'))"

definition unstructured_laws :: "unstructured_api \<Rightarrow> bool" where
  "unstructured_laws U \<longleftrightarrow>
     reads_kind U \<and> reads_fields U \<and>
     string_map_at (u_GetLabels U) (u_SetLabels U) ''labels'' \<and>
     string_map_at (u_GetAnnotations U) (u_SetAnnotations U) ''annotations'' \<and>
     writes_field (u_SetNestedSlice U) VList \<and>
     writes_field (u_SetNestedStringSlice U) (\<lambda>ss. VList (map VStr ss))"

lemma string_map_atD:
  assumes "string_map_at getter setter key"
  shows "field (VMap m) [''metadata'', key] = field (VMap n) [''metadata'', key] \<Longrightarrow> getter m = getter n"
    and "settable (VMap m) [''metadata'', key] \<Longrightarrow>
      (case getter (setter m a) of None \<Rightarrow> Map.empty | Some b \<Rightarrow> map_of b) = map_of a"
    and "apart [''metadata'', key] q \<Longrightarrow> field (VMap (setter m a)) q = field (VMap m) q"
    and "field (VMap m) [''metadata'', key] = Some (VMap (map (\<lambda>(k, s). (k, VStr s)) a)) \<Longrightarrow>
      \<exists>b. getter m = Some b \<and> map_of b = map_of a"
  using assms unfolding string_map_at_def by blast+

locale unstructured_lib =
  fixes U :: unstructured_api
  assumes laws: "unstructured_laws U"
begin

lemma kind_field: "u_GetKind U m = str_field m [''kind'']"
  and name_field: "u_GetName U m = str_field m [''metadata'', ''name'']"
  and namespace_field: "u_GetNamespace U m = str_field m [''metadata'', ''namespace'']"
  using laws by (simp_all add: unstructured_laws_def reads_kind_def)

lemma nested_slice_Some: "u_NestedSlice U m p = Inr (Some vs) \<longleftrightarrow> field (VMap m) p = Some (VList vs)"
  and nested_string_Some: "u_NestedString U m p = Inr (Some s) \<longleftrightarrow> field (VMap m) p = Some (VStr s)"
  and nested_strings_Some:
    "u_NestedStringSlice U m p = Inr (Some ss) \<longleftrightarrow> field (VMap m) p = Some (VList (map VStr ss))"
  using laws by (simp_all add: unstructured_laws_def reads_fields_def)

lemma nested_slice_None: "u_NestedSlice U m p = Inr None \<Longrightarrow> field (VMap m) p = None"
  and nested_strings_None: "u_NestedStringSlice U m p = Inr None \<Longrightarrow> field (VMap m) p = None"
  using laws by (simp_all add: unstructured_laws_def reads_fields_def)

lemma nested_slice_absent: "map_of m k = None \<Longrightarrow> u_NestedSlice U m [k] = Inr None"
  and nested_strings_absent: "map_of m k = None \<Longrightarrow> u_NestedStringSlice U m [k] = Inr None"
  using laws by (simp_all add: unstructured_laws_def reads_fields_def)

lemma set_slice:
  assumes "u_SetNestedSlice U m vs p = Inr m'"
  shows "field (VMap m') p = Some (VList vs)"
    and "apart p q \<Longrightarrow> field (VMap m') q = field (VMap m) q"
  using laws assms by (auto simp: unstructured_laws_def writes_field_def)

lemma set_strings:
  assumes "u_SetNestedStringSlice U m ss p = Inr m'"
  shows "field (VMap m') p = Some (VList (map VStr ss))"
    and "apart p q \<Longrightarrow> field (VMap m') q = field (VMap m) q"
  using laws assms by (auto simp: unstructured_laws_def writes_field_def)

lemma set_slice_ok: "p \<noteq> [] \<Longrightarrow> settable (VMap m) p \<Longrightarrow> \<exists>m'. u_SetNestedSlice U m vs p = Inr m'"
  and set_strings_ok: "p \<noteq> [] \<Longrightarrow> settable (VMap m) p \<Longrightarrow> \<exists>m'. u_SetNestedStringSlice U m ss p = Inr m'"
  using laws by (simp_all add: unstructured_laws_def writes_field_def)

lemma labels_at: "string_map_at (u_GetLabels U) (u_SetLabels U) ''labels''"
  and annotations_at: "string_map_at (u_GetAnnotations U) (u_SetAnnotations U) ''annotations''"
  using laws by (simp_all add: unstructured_laws_def)

lemmas labels_set = string_map_atD(2) [OF labels_at, folded labels_of_def]
lemmas annotations_set = string_map_atD(2) [OF annotations_at, folded annotations_of_def]
lemmas labels_frame = string_map_atD(3) [OF labels_at]
lemmas annotations_frame = string_map_atD(3) [OF annotations_at]
lemmas annotations_read = string_map_atD(4) [OF annotations_at]
lemmas annotations_cong = string_map_atD(1) [OF annotations_at]

lemma labels_cong:
  assumes "field (VMap m) [''metadata'', ''labels''] = field (VMap n) [''metadata'', ''labels'']"
  shows "labels_of U m = labels_of U n"
  unfolding labels_of_def string_map_atD(1) [OF labels_at assms] ..

end

section \<open>Accessors over JSON values\<close>

text \<open>Accessors that satisfy the laws and evaluate.\<close>

fun set_path :: "gmap \<Rightarrow> string list \<Rightarrow> gval \<Rightarrow> gmap option" where
  "set_path m [] v = None"
| "set_path m [k] v = Some (AList.update k v m)"
| "set_path m (k # ks) v =
     (case map_of m k of
        None \<Rightarrow> map_option (\<lambda>m'. AList.update k (VMap m') m) (set_path [] ks v)
      | Some (VMap m1) \<Rightarrow> map_option (\<lambda>m'. AList.update k (VMap m') m) (set_path m1 ks v)
      | Some _ \<Rightarrow> None)"

fun all_strings :: "gval list \<Rightarrow> string list option" where
  "all_strings [] = Some []"
| "all_strings (VStr s # vs) = map_option ((#) s) (all_strings vs)"
| "all_strings (_ # vs) = None"

fun string_entries :: "gmap \<Rightarrow> string go_map option" where
  "string_entries [] = Some []"
| "string_entries ((k, VStr s) # m) = map_option ((#) (k, s)) (string_entries m)"
| "string_entries (_ # m) = None"

definition type_error :: gerror where
  "type_error = Foreign 0 ''accessor error'' None"

definition ref_get_map :: "string \<Rightarrow> gmap \<Rightarrow> string go_map option" where
  "ref_get_map key m = (case field (VMap m) [''metadata'', key] of
     Some (VMap a) \<Rightarrow> string_entries a | _ \<Rightarrow> None)"

definition ref_set_map :: "string \<Rightarrow> gmap \<Rightarrow> string go_map \<Rightarrow> gmap" where
  "ref_set_map key m a =
     (let entries = VMap (map (\<lambda>(k, s). (k, VStr s)) a);
          meta = (case map_of m ''metadata'' of Some (VMap x) \<Rightarrow> x | _ \<Rightarrow> [])
      in AList.update ''metadata'' (VMap (AList.update key entries meta)) m)"

definition ref_nested :: "(gval \<Rightarrow> 'a option) \<Rightarrow> gmap \<Rightarrow> string list \<Rightarrow> 'a option result" where
  "ref_nested dec m p = (case field (VMap m) p of
     None \<Rightarrow> if settable (VMap m) p then Inr None else Inl type_error
   | Some v \<Rightarrow> (case dec v of Some x \<Rightarrow> Inr (Some x) | None \<Rightarrow> Inl type_error))"

definition ref_set :: "('a \<Rightarrow> gval) \<Rightarrow> gmap \<Rightarrow> 'a \<Rightarrow> string list \<Rightarrow> gmap result" where
  "ref_set enc m x p = (case set_path m p (enc x) of Some m' \<Rightarrow> Inr m' | None \<Rightarrow> Inl type_error)"

definition dec_list :: "gval \<Rightarrow> gval list option" where
  "dec_list v = (case v of VList vs \<Rightarrow> Some vs | _ \<Rightarrow> None)"

definition dec_strings :: "gval \<Rightarrow> string list option" where
  "dec_strings v = (case v of VList vs \<Rightarrow> all_strings vs | _ \<Rightarrow> None)"

definition ref_gvk :: "gmap \<Rightarrow> string \<times> string \<times> string" where
  "ref_gvk m = (case Cut (str_field m [''apiVersion'']) ''/'' of
     Some (g, v) \<Rightarrow> (g, v, str_field m [''kind''])
   | None \<Rightarrow> ([], str_field m [''apiVersion''], str_field m [''kind'']))"

definition json_unstructured :: unstructured_api where
  "json_unstructured = \<lparr>
     u_GetKind = (\<lambda>m. str_field m [''kind'']),
     u_GetName = (\<lambda>m. str_field m [''metadata'', ''name'']),
     u_GetNamespace = (\<lambda>m. str_field m [''metadata'', ''namespace'']),
     u_GroupVersionKind = ref_gvk,
     u_GetLabels = ref_get_map ''labels'', u_SetLabels = ref_set_map ''labels'',
     u_GetAnnotations = ref_get_map ''annotations'', u_SetAnnotations = ref_set_map ''annotations'',
     u_NestedSlice = ref_nested dec_list, u_NestedString = ref_nested as_string,
     u_NestedStringSlice = ref_nested dec_strings,
     u_SetNestedSlice = ref_set VList, u_SetNestedStringSlice = ref_set (\<lambda>ss. VList (map VStr ss))\<rparr>"

lemma all_strings_Some: "all_strings vs = Some ss \<longleftrightarrow> vs = map VStr ss"
  by (induction vs arbitrary: ss rule: all_strings.induct) auto

lemma string_entries_enc: "string_entries (map (\<lambda>(k, s). (k, VStr s)) a) = Some a"
  by (induction a) auto

lemma set_path_field:
  "set_path m p v = Some m' \<Longrightarrow> field (VMap m') p = Some v"
  by (induction m p v arbitrary: m' rule: set_path.induct)
    (auto split: option.splits gval.splits)

lemma set_path_Cons:
  assumes "set_path m (k # k2 # ks) v = Some m'"
  obtains m1 m2 where "set_path m1 (k2 # ks) v = Some m2" and "m' = AList.update k (VMap m2) m"
    and "map_of m k = Some (VMap m1) \<or> map_of m k = None \<and> m1 = []"
  using assms by (auto split: option.splits gval.splits)

lemma field_Nil_map: "q \<noteq> [] \<Longrightarrow> field (VMap []) q = None"
  by (cases q) auto

lemma set_path_frame:
  "set_path m p v = Some m' \<Longrightarrow> apart p q \<Longrightarrow> field (VMap m') q = field (VMap m) q"
proof (induction p arbitrary: m m' q)
  case Nil
  then show ?case by simp
next
  case (Cons k p)
  obtain l ls where q: "q = l # ls" using Cons.prems(2) by (cases q) (auto simp: apart_def)
  show ?case
  proof (cases p)
    case Nil
    with Cons.prems q show ?thesis by (auto simp: apart_def)
  next
    case (Cons k2 ks)
    with Cons.prems(1) obtain m1 m2 where m2: "set_path m1 p v = Some m2"
      and m': "m' = AList.update k (VMap m2) m"
      and m1: "map_of m k = Some (VMap m1) \<or> map_of m k = None \<and> m1 = []"
      by (metis set_path_Cons)
    show ?thesis
    proof (cases "l = k")
      case False
      with q m' show ?thesis by simp
    next
      case True
      with Cons.prems(2) q have ls: "apart p ls" by simp
      then have "ls \<noteq> []" by (auto simp: apart_def)
      with Cons.IH [OF m2 ls] m' m1 q True show ?thesis by (auto simp: field_Nil_map)
    qed
  qed
qed

lemma settable_empty [simp]: "settable (VMap []) p"
  by (cases p) auto

lemma set_path_ok: "p \<noteq> [] \<Longrightarrow> settable (VMap m) p \<Longrightarrow> set_path m p v \<noteq> None"
  by (induction m p v rule: set_path.induct) (auto split: option.splits gval.splits)

lemma ref_set_writes: "writes_field (ref_set enc) enc"
proof -
  have "set_path m p (enc x) = Some m'" if "ref_set enc m x p = Inr m'" for m x p m'
    using that by (simp add: ref_set_def split: option.splits)
  moreover have "\<exists>m'. ref_set enc m x p = Inr m'" if "p \<noteq> []" "settable (VMap m) p" for m x p
    using set_path_ok [OF that, of "enc x"] by (auto simp: ref_set_def)
  ultimately show ?thesis
    unfolding writes_field_def using set_path_field set_path_frame by blast
qed

lemma ref_set_map_frame:
  assumes "apart [''metadata'', key] q"
  shows "field (VMap (ref_set_map key m a)) q = field (VMap m) q"
proof (cases q)
  case Nil
  with assms show ?thesis by (simp add: apart_def)
next
  case (Cons l ls)
  show ?thesis
  proof (cases "l = ''metadata''")
    case False
    with Cons show ?thesis by (simp add: ref_set_map_def Let_def)
  next
    case True
    with Cons assms obtain l2 ls2 where q: "q = ''metadata'' # l2 # ls2" and "l2 \<noteq> key"
      by (cases ls) (auto simp: apart_def)
    then show ?thesis
      by (simp add: ref_set_map_def Let_def split: option.split gval.split)
  qed
qed

lemma ref_map_read:
  "field (VMap m) [''metadata'', key] = Some (VMap (map (\<lambda>(k, s). (k, VStr s)) a)) \<Longrightarrow>
     ref_get_map key m = Some a"
  unfolding ref_get_map_def by (simp add: string_entries_enc)

lemma ref_map_cong:
  "field (VMap m) [''metadata'', key] = field (VMap n) [''metadata'', key] \<Longrightarrow>
     ref_get_map key m = ref_get_map key n"
  unfolding ref_get_map_def by presburger

lemma ref_map_set: "ref_get_map key (ref_set_map key m a) = Some a"
  by (rule ref_map_read) (simp add: ref_set_map_def Let_def)

lemma ref_maps: "string_map_at (ref_get_map key) (ref_set_map key) key"
  unfolding string_map_at_def ref_map_set option.simps
  by (blast intro: ref_map_read ref_map_cong ref_set_map_frame)

lemma ref_nested_Some:
  "ref_nested dec m p = Inr (Some x) \<longleftrightarrow> (\<exists>v. field (VMap m) p = Some v \<and> dec v = Some x)"
  by (auto simp: ref_nested_def split: option.splits)

lemma ref_nested_None: "ref_nested dec m p = Inr None \<Longrightarrow> field (VMap m) p = None"
  by (auto simp: ref_nested_def split: option.splits)

lemma ref_nested_absent: "map_of m k = None \<Longrightarrow> ref_nested dec m [k] = Inr None"
  by (simp add: ref_nested_def)

lemma dec_Some:
  "dec_list v = Some vs \<longleftrightarrow> v = VList vs"
  "dec_strings v = Some ss \<longleftrightarrow> v = VList (map VStr ss)"
  by (cases v; simp add: dec_list_def dec_strings_def all_strings_Some)+

lemma ref_reads: "reads_fields json_unstructured"
  unfolding reads_fields_def json_unstructured_def
  by (simp add: ref_nested_Some ref_nested_absent dec_Some) (blast dest: ref_nested_None)

lemma json_unstructured_laws: "unstructured_laws json_unstructured"
  using ref_reads
  by (simp add: unstructured_laws_def reads_kind_def json_unstructured_def ref_maps ref_set_writes)

interpretation json: unstructured_lib json_unstructured
  by unfold_locales (rule json_unstructured_laws)

end
