(* ===== verification/Kube_Client.thy ===== *)
theory Kube_Client
  imports Conditions Unstructured
begin

text \<open>
  What the reconciler calls outside the sources to reach the cluster: the controller-runtime
  client, the dynamic and discovery clients, the deployer, the garbage collector and the watch
  registration. Each call takes the state of the world and returns its result and the next
  state; the type of the world is left open, so a definition that passes the world on unchanged
  has made no call. The error predicates of apimachinery are parameters too.
\<close>

type_synonym gvr = "string \<times> string \<times> string"
type_synonym nsname = "string \<times> string"

text \<open>The parts of an appsv1.Deployment the sources read; a condition is its type and message.\<close>

record deployment =
  dep_replicas :: "int option"
  dep_available :: int
  dep_conditions :: "(string \<times> string) list"

text \<open>The configuration of a garbage-collection run (\<open>gc.New\<close>) and of a deployment.\<close>

record gc_config =
  gc_only_owned :: bool
  gc_label :: "string \<times> string"
  gc_namespace :: string
  gc_predicate :: "gmap \<Rightarrow> bool"
  gc_version :: string
  gc_platform_type :: string

record deploy_input =
  di_owner :: operator_cr
  di_release_type :: string
  di_release_version :: string
  di_resources :: "gmap list"

record 'w kube =
  k_GetOperator :: "string \<Rightarrow> 'w \<Rightarrow> operator_cr result \<times> 'w"
  k_GetConfigMap :: "nsname \<Rightarrow> 'w \<Rightarrow> string go_map result \<times> 'w"
  k_GetCRD :: "string \<Rightarrow> 'w \<Rightarrow> gerror option \<times> 'w"
  k_GetDeployment :: "nsname \<Rightarrow> 'w \<Rightarrow> deployment result \<times> 'w"
  k_PatchStatus :: "operator_cr \<Rightarrow> operator_cr \<Rightarrow> 'w \<Rightarrow> gerror option \<times> 'w"
  k_List :: "gvr \<Rightarrow> int \<Rightarrow> string \<Rightarrow> 'w \<Rightarrow> (gmap list \<times> string) result \<times> 'w"
  k_Get :: "gvr \<Rightarrow> string \<Rightarrow> string \<Rightarrow> 'w \<Rightarrow> gmap result \<times> 'w"
  k_Create :: "gvr \<Rightarrow> gmap \<Rightarrow> 'w \<Rightarrow> gerror option \<times> 'w"
  k_Delete :: "gvr \<Rightarrow> string \<Rightarrow> 'w \<Rightarrow> gerror option \<times> 'w"
  k_ServerResources :: "string \<Rightarrow> 'w \<Rightarrow> string list result \<times> 'w"
  k_Deploy :: "deploy_input \<Rightarrow> 'w \<Rightarrow> gerror option \<times> 'w"
  k_Collect :: "operator_cr \<Rightarrow> gc_config \<Rightarrow> 'w \<Rightarrow> gerror option \<times> 'w"
  k_Informer :: "gvr \<Rightarrow> 'w \<Rightarrow> 'w"
  k_Start :: "'w \<Rightarrow> 'w"
  k_Watch :: "gvr \<Rightarrow> 'w \<Rightarrow> gerror option \<times> 'w"
  k_IsNotFound :: "gerror \<Rightarrow> bool"
  k_IsAlreadyExists :: "gerror \<Rightarrow> bool"
  k_IsResourceExpired :: "gerror \<Rightarrow> bool"
  k_IsNoMatchError :: "gerror \<Rightarrow> bool"
  k_IsNotRegisteredError :: "gerror \<Rightarrow> bool"

text \<open>\<open>ctrl.Result\<close>: the delay is a \<open>time.Duration\<close> in nanoseconds, zero for none.\<close>

record ctrl_result =
  RequeueAfter :: int

definition emptyResult :: ctrl_result where
  "emptyResult = \<lparr>RequeueAfter = 0\<rparr>"

definition requeueIn :: "int \<Rightarrow> ctrl_result" where
  "requeueIn d = \<lparr>RequeueAfter = d\<rparr>"

definition Second :: int where "Second = 1000000000"
definition Minute :: int where "Minute = 60 * Second"

lemma requeue_simps [simp]:
  "RequeueAfter emptyResult = 0" "RequeueAfter (requeueIn d) = d"
  by (simp_all add: emptyResult_def requeueIn_def)

text \<open>Running a condition-list operation on the resource the manager points to.\<close>

definition onConditions :: "(condition list \<Rightarrow> condition list) \<Rightarrow> operator_cr \<Rightarrow> operator_cr" where
  "onConditions f cr = SetConditions cr (f (GetConditions cr))"

lemma onConditions_conditions [simp]: "GetConditions (onConditions f cr) = f (GetConditions cr)"
  by (simp add: onConditions_def)

lemma onConditions_frame [simp]:
  "cr_name (onConditions f cr) = cr_name cr"
  "cr_uid (onConditions f cr) = cr_uid cr"
  "cr_generation (onConditions f cr) = cr_generation cr"
  "cr_management_state (onConditions f cr) = cr_management_state cr"
  "st_distribution (cr_status (onConditions f cr)) = st_distribution (cr_status cr)"
  "st_gateways (cr_status (onConditions f cr)) = st_gateways (cr_status cr)"
  "st_phase (cr_status (onConditions f cr)) = st_phase (cr_status cr)"
  "st_observed_generation (cr_status (onConditions f cr)) = st_observed_generation (cr_status cr)"
  "st_releases (cr_status (onConditions f cr)) = st_releases (cr_status cr)"
  by (simp_all add: onConditions_def)

lemma onConditions_comp: "onConditions g (onConditions f cr) = onConditions (\<lambda>cs. g (f cs)) cr"
  by (simp add: onConditions_def)

end
