(* ===== verification/Cluster.thy ===== *)
theory Cluster
  imports Kube_Client
begin

text \<open>
  A cluster that evaluates: the calls of \<open>Kube_Client\<close> over stored objects, with errors that can
  be injected per verb. The witnesses run the reconciler on it, and the contracts the reconciler
  states about the cluster are interpreted on it.
\<close>

record cluster =
  cl_operators :: "operator_cr go_map"
  cl_configmaps :: "(nsname \<times> string go_map) list"
  cl_crds :: "string list"
  cl_deployments :: "(nsname \<times> deployment) list"
  cl_objects :: "((gvr \<times> string \<times> string) \<times> gmap) list"
  cl_served :: "(string \<times> string list) list"
  cl_faults :: "(string \<times> gerror) list"
  cl_calls :: "string list"

definition not_found :: gerror where
  "not_found = Foreign 404 ''not found'' None"

definition already_exists :: gerror where
  "already_exists = Foreign 409 ''already exists'' None"

definition expired :: gerror where
  "expired = Foreign 410 ''expired'' None"

fun code_of :: "gerror \<Rightarrow> nat" where
  "code_of (Foreign k m i) = k"
| "code_of (Message m) = 0"
| "code_of (Wrapped p e) = code_of e"
| "code_of (Joined es) = 0"

definition called :: "string \<Rightarrow> cluster \<Rightarrow> cluster" where
  "called verb w = w\<lparr>cl_calls := verb # cl_calls w\<rparr>"

text \<open>A verb's injected error; a missing object is never injected, it has to be missing.\<close>

definition fault :: "string \<Rightarrow> cluster \<Rightarrow> gerror option" where
  "fault verb w =
     (case map_of (cl_faults w) verb of
        None \<Rightarrow> None
      | Some e \<Rightarrow> if code_of e = 404 then None else Some e)"

definition lookup_in :: "('k \<times> 'v) list \<Rightarrow> 'k \<Rightarrow> 'v result" where
  "lookup_in m k = (case map_of m k of None \<Rightarrow> Inl not_found | Some v \<Rightarrow> Inr v)"

definition reading :: "string \<Rightarrow> (cluster \<Rightarrow> 'a result) \<Rightarrow> cluster \<Rightarrow> 'a result \<times> cluster" where
  "reading verb f w = ((case fault verb w of Some e \<Rightarrow> Inl e | None \<Rightarrow> f w), called verb w)"

definition writing :: "string \<Rightarrow> (cluster \<Rightarrow> cluster) \<Rightarrow> cluster \<Rightarrow> gerror option \<times> cluster" where
  "writing verb f w =
     (case fault verb w of Some e \<Rightarrow> (Some e, called verb w) | None \<Rightarrow> (None, f (called verb w)))"

definition objects_of :: "cluster \<Rightarrow> gvr \<Rightarrow> gmap list" where
  "objects_of w g = map snd (filter (\<lambda>(k, _). fst k = g) (cl_objects w))"

definition cluster_list ::
    "gvr \<Rightarrow> int \<Rightarrow> string \<Rightarrow> cluster \<Rightarrow> (gmap list \<times> string) result \<times> cluster" where
  "cluster_list g limit token w =
     ((case map_of (cl_faults w) ''list'' of
         Some e \<Rightarrow> Inl e
       | None \<Rightarrow> Inr (objects_of w g, [])), called ''list'' w)"

text \<open>A created object is stored without its status, which is a subresource.\<close>

definition cluster_create :: "gvr \<Rightarrow> gmap \<Rightarrow> cluster \<Rightarrow> gerror option \<times> cluster" where
  "cluster_create g obj w =
     (let k = (g, str_field obj [''metadata'', ''namespace''], str_field obj [''metadata'', ''name'']) in
      case fault ''create'' w of
        Some e \<Rightarrow> (Some e, called ''create'' w)
      | None \<Rightarrow>
          if map_of (cl_objects w) k \<noteq> None then (Some already_exists, called ''create'' w)
          else (None, called ''create'' (w\<lparr>cl_objects := (k, AList.delete ''status'' obj) # cl_objects w\<rparr>)))"

definition cluster_delete :: "gvr \<Rightarrow> string \<Rightarrow> cluster \<Rightarrow> gerror option \<times> cluster" where
  "cluster_delete g name w =
     (case fault ''delete'' w of
        Some e \<Rightarrow> (Some e, called ''delete'' w)
      | None \<Rightarrow>
          if map_of (cl_objects w) (g, [], name) = None then (Some not_found, called ''delete'' w)
          else (None, called ''delete'' (w\<lparr>cl_objects := AList.delete (g, [], name) (cl_objects w)\<rparr>)))"

definition collected :: "gc_config \<Rightarrow> cluster \<Rightarrow> cluster" where
  "collected gc w = w\<lparr>cl_objects := filter (\<lambda>(k, obj).
     \<not> (fst (snd k) = gc_namespace gc \<and>
        (case field (VMap obj) [''metadata'', ''labels'', fst (gc_label gc)] of
           Some (VStr v) \<Rightarrow> v = snd (gc_label gc) | _ \<Rightarrow> False) \<and>
        gc_predicate gc obj)) (cl_objects w)\<rparr>"

definition simulated :: "cluster kube" where
  "simulated = \<lparr>
     k_GetOperator = (\<lambda>n. reading ''get-operator'' (\<lambda>w. lookup_in (cl_operators w) n)),
     k_GetConfigMap = (\<lambda>n. reading ''get-configmap'' (\<lambda>w. lookup_in (cl_configmaps w) n)),
     k_GetCRD = (\<lambda>n w.
       ((case fault ''get-crd'' w of
           Some e \<Rightarrow> Some e
         | None \<Rightarrow> if List.member (cl_crds w) n then None else Some not_found), called ''get-crd'' w)),
     k_GetDeployment = (\<lambda>n. reading ''get-deployment'' (\<lambda>w. lookup_in (cl_deployments w) n)),
     k_PatchStatus = (\<lambda>orig cr. writing ''patch''
       (\<lambda>w. w\<lparr>cl_operators := AList.update (cr_name cr) cr (cl_operators w)\<rparr>)),
     k_List = cluster_list,
     k_Get = (\<lambda>g ns n. reading ''get'' (\<lambda>w. lookup_in (cl_objects w) (g, ns, n))),
     k_Create = cluster_create,
     k_Delete = cluster_delete,
     k_ServerResources = (\<lambda>gv. reading ''discover'' (\<lambda>w. lookup_in (cl_served w) gv)),
     k_Deploy = (\<lambda>d. writing ''deploy'' (\<lambda>w. w)),
     k_Collect = (\<lambda>cr gc. writing ''collect'' (collected gc)),
     k_Informer = (\<lambda>g. called ''informer''),
     k_Start = called ''start'',
     k_Watch = (\<lambda>g. writing ''watch'' (\<lambda>w. w)),
     k_IsNotFound = (\<lambda>e. code_of e = 404),
     k_IsAlreadyExists = (\<lambda>e. code_of e = 409),
     k_IsResourceExpired = (\<lambda>e. code_of e = 410),
     k_IsNoMatchError = (\<lambda>e. code_of e = 4041),
     k_IsNotRegisteredError = (\<lambda>e. code_of e = 4042)\<rparr>"

definition empty_cluster :: cluster where
  "empty_cluster = \<lparr>cl_operators = [], cl_configmaps = [], cl_crds = [], cl_deployments = [],
     cl_objects = [], cl_served = [], cl_faults = [], cl_calls = []\<rparr>"

end
