(* ===== verification/Readiness.thy ===== *)
theory Readiness
  imports Kube_Client Cluster
begin

text \<open>
  The two readiness gates of internal/controller/mcplifecycleoperator_reconciler.go: the
  operand's Deployments and the conversion of stored MCPServer objects. They share a contract,
  the locale \<open>readiness_gate\<close>: a gate that holds the reconcile back marks the operator
  unavailable, folds that into the platform conditions and asks for a requeue; a gate that lets
  it pass writes nothing.
\<close>

definition defaultRequeueDelay :: int where
  "defaultRequeueDelay = 10 * Second"

definition conversionCheckPageLimit :: int where "conversionCheckPageLimit = 500"
definition conversionCheckMaxRestarts :: nat where "conversionCheckMaxRestarts = 3"

definition reasonConversionCheckPending :: string where
  "reasonConversionCheckPending = ''ConversionCheckPending''"
definition reasonConversionCheckFailed :: string where
  "reasonConversionCheckFailed = ''ConversionCheckFailed''"

definition mcpServerGVR :: gvr where
  "mcpServerGVR = (''mcp.x-k8s.io'', ''v1beta1'', ''mcpservers'')"

definition DeploymentReplicaFailure :: string where "DeploymentReplicaFailure = ''ReplicaFailure''"
definition DeploymentAvailable :: string where "DeploymentAvailable = ''Available''"

text \<open>The MarkFalse of the availability condition and the AggregateReady that follows each one.\<close>

definition markUnavailable ::
    "conditions_manager \<Rightarrow> string \<Rightarrow> string \<Rightarrow> operator_cr \<Rightarrow> operator_cr" where
  "markUnavailable cm reason message cr =
     onConditions (AggregateReady cm)
       (onConditions (MarkFalse cm ConditionMCPLifecycleOperatorAvailable reason message) cr)"

section \<open>Deployments\<close>

fun findDeploymentNames :: "unstructured_api \<Rightarrow> gmap list \<Rightarrow> nsname list" where
  "findDeploymentNames U [] = []"
| "findDeploymentNames U (obj # resources) =
     (if u_GetKind U obj = ''Deployment''
      then (u_GetNamespace U obj, u_GetName U obj) # findDeploymentNames U resources
      else findDeploymentNames U resources)"

fun notReadyMessage :: "(string \<times> string) list \<Rightarrow> string \<Rightarrow> string" where
  "notReadyMessage [] msg = msg"
| "notReadyMessage ((ty, m) # cs) msg =
     (if ty = DeploymentReplicaFailure \<and> m \<noteq> [] then m
      else notReadyMessage cs (if ty = DeploymentAvailable \<and> m \<noteq> [] then m else msg))"

definition desiredReplicas :: "deployment \<Rightarrow> int" where
  "desiredReplicas d = (case dep_replicas d of None \<Rightarrow> 1 | Some n \<Rightarrow> n)"

fun checkDeploymentNames ::
    "'w kube \<Rightarrow> conditions_manager \<Rightarrow> nsname list \<Rightarrow> operator_cr \<Rightarrow> 'w
      \<Rightarrow> ctrl_result \<times> bool \<times> operator_cr \<times> 'w" where
  "checkDeploymentNames K cm [] cr w = (emptyResult, True, cr, w)"
| "checkDeploymentNames K cm (dn # dns) cr w =
     (case k_GetDeployment K dn w of
        (Inl err, w) \<Rightarrow>
          (requeueIn defaultRequeueDelay, False,
           markUnavailable cm ''DeploymentNotFound''
             (''Operand deployment '' @ snd dn @ '' not found: '' @ Error err) cr, w)
      | (Inr d, w) \<Rightarrow>
          if dep_available d < desiredReplicas d then
            (requeueIn defaultRequeueDelay, False,
             markUnavailable cm ''DeploymentNotReady''
               (notReadyMessage (dep_conditions d)
                  (''Operand deployment '' @ snd dn @ '' has '' @ Itoa (dep_available d) @ ''/'' @
                   Itoa (desiredReplicas d) @ '' available replicas'')) cr, w)
          else checkDeploymentNames K cm dns cr w)"

definition checkDeploymentsReady ::
    "'w kube \<Rightarrow> unstructured_api \<Rightarrow> conditions_manager \<Rightarrow> gmap list \<Rightarrow> operator_cr \<Rightarrow> 'w
      \<Rightarrow> ctrl_result \<times> bool \<times> operator_cr \<times> 'w" where
  "checkDeploymentsReady K U cm desired cr w =
     checkDeploymentNames K cm (findDeploymentNames U desired) cr w"

section \<open>Conversion health\<close>

text \<open>The loop along the chain of wrapped errors ends because \<open>Unwrap\<close> yields a smaller error.\<close>

function isNotRegisteredError :: "'w kube \<Rightarrow> gerror \<Rightarrow> bool" where
  "isNotRegisteredError K err =
     (if k_IsNotRegisteredError K err then True
      else (case Unwrap err of None \<Rightarrow> False | Some err' \<Rightarrow> isNotRegisteredError K err'))"
  by pat_completeness auto
termination
  by (relation "measure (\<lambda>(_, err). size err)") (auto dest: Unwrap_smaller)

declare isNotRegisteredError.simps [simp del]

definition notServed :: "'w kube \<Rightarrow> gerror \<Rightarrow> bool" where
  "notServed K err \<longleftrightarrow> k_IsNotFound K err \<or> k_IsNoMatchError K err \<or> isNotRegisteredError K err"

text \<open>
  The page loop has no bound on the number of pages: as many rounds as the server returns
  continue tokens. Its value is None when it does not return.
\<close>

partial_function (option) conversionLoop ::
    "'w kube \<Rightarrow> conditions_manager \<Rightarrow> string \<Rightarrow> nat \<Rightarrow> operator_cr \<Rightarrow> 'w
      \<Rightarrow> (ctrl_result \<times> bool \<times> operator_cr \<times> 'w) option" where
  "conversionLoop K cm continueToken restarts cr w =
     (case k_List K mcpServerGVR conversionCheckPageLimit continueToken w of
        (Inl err, w) \<Rightarrow>
          if notServed K err then
            Some (requeueIn defaultRequeueDelay, False,
              markUnavailable cm reasonConversionCheckPending
                (''MCPServer v1beta1 API is not served (CRD absent or v1beta1 not yet served); '' @
                 ''deferring until the conversion path is ready'') cr, w)
          else if k_IsResourceExpired K err then
            if restarts < conversionCheckMaxRestarts
            then conversionLoop K cm [] (restarts + 1) cr w
            else
              Some (requeueIn defaultRequeueDelay, False,
                markUnavailable cm reasonConversionCheckPending
                  ''MCPServer conversion check could not complete: list pagination kept expiring; retrying''
                  cr, w)
          else
            Some (requeueIn defaultRequeueDelay, False,
              markUnavailable cm reasonConversionCheckFailed (Error err) cr, w)
      | (Inr (items, next), w) \<Rightarrow>
          if next = [] then Some (emptyResult, True, cr, w)
          else conversionLoop K cm next restarts cr w)"

declare conversionLoop.simps [code]

definition checkConversionHealth ::
    "'w kube \<Rightarrow> conditions_manager \<Rightarrow> operator_cr \<Rightarrow> 'w
      \<Rightarrow> (ctrl_result \<times> bool \<times> operator_cr \<times> 'w) option" where
  "checkConversionHealth K cm cr w = conversionLoop K cm [] 0 cr w"

section \<open>The contract of a gate\<close>

definition gate_held :: "conditions_manager \<Rightarrow> operator_cr \<Rightarrow> operator_cr \<Rightarrow> bool" where
  "gate_held cm cr cr' \<longleftrightarrow> (\<exists>reason message. cr' = markUnavailable cm reason message cr)"

text \<open>What a resource shows once it was marked unavailable.\<close>

lemma unavailable_observed:
  assumes "conditions_laws (cm_lib cm)"
  shows "observed cm (GetConditions (markUnavailable cm r m cr)) t =
    (if t = ConditionTypeDegraded then Some (ConditionFalse, ''NotDegraded'', [], cm_generation cm)
     else if t = ConditionTypeReady \<or> t = ConditionTypeProvisioningSucceeded
       then Some (ConditionFalse, ''OperandDeploymentFailed'',
              ''MCP Lifecycle Operator operand is not available'', cm_generation cm)
     else if t = ConditionMCPLifecycleOperatorAvailable
       then Some (ConditionFalse, r, m, cm_generation cm)
     else observed cm (GetConditions cr) t)"
proof -
  have lib: "conditions_lib cm" using assms by (rule conditions_lib.intro)
  have "\<not> status_is cm (MarkFalse cm ConditionMCPLifecycleOperatorAvailable r m (GetConditions cr))
      ConditionMCPLifecycleOperatorAvailable ConditionTrue"
    by (simp add: status_is_def conditions_lib.marks_observed [OF lib])
  from conditions_lib.aggregate_unavailable [OF lib this] show ?thesis
    by (simp add: markUnavailable_def conditions_lib.marks_observed [OF lib])
qed

lemma unavailable_frame [simp]:
  "cr_name (markUnavailable cm r m cr) = cr_name cr"
  "cr_uid (markUnavailable cm r m cr) = cr_uid cr"
  "cr_generation (markUnavailable cm r m cr) = cr_generation cr"
  "cr_management_state (markUnavailable cm r m cr) = cr_management_state cr"
  "st_distribution (cr_status (markUnavailable cm r m cr)) = st_distribution (cr_status cr)"
  "st_gateways (cr_status (markUnavailable cm r m cr)) = st_gateways (cr_status cr)"
  "st_releases (cr_status (markUnavailable cm r m cr)) = st_releases (cr_status cr)"
  by (simp_all add: markUnavailable_def)

locale readiness_gate =
  fixes cm :: conditions_manager
    and gate :: "operator_cr \<Rightarrow> 'w \<Rightarrow> ctrl_result \<times> bool \<times> operator_cr \<times> 'w \<Rightarrow> bool"
  assumes passes: "gate cr w (res, True, cr', w') \<Longrightarrow> res = emptyResult \<and> cr' = cr"
    and holds: "gate cr w (res, False, cr', w') \<Longrightarrow>
      res = requeueIn defaultRequeueDelay \<and> gate_held cm cr cr'"
begin

text \<open>Whatever a gate answers, the fields other gates decided before it are kept.\<close>

lemma gate_frame:
  assumes "gate cr w (res, b, cr', w')"
  shows "st_distribution (cr_status cr') = st_distribution (cr_status cr)"
    and "st_gateways (cr_status cr') = st_gateways (cr_status cr)"
    and "cr_generation cr' = cr_generation cr"
  using assms passes holds by (cases b; fastforce simp: gate_held_def)+

lemma requeue_iff_held:
  "gate cr w (res, b, cr', w') \<Longrightarrow> RequeueAfter res \<noteq> 0 \<longleftrightarrow> \<not> b"
  using passes holds
  by (cases b) (fastforce simp: defaultRequeueDelay_def Second_def)+

lemma held_not_ready:
  assumes "gate cr w (res, False, cr', w')" and "conditions_laws (cm_lib cm)"
  shows "status_is cm (GetConditions cr') ConditionTypeReady ConditionFalse"
    and "status_is cm (GetConditions cr') ConditionMCPLifecycleOperatorAvailable ConditionFalse"
    and "observed cm (GetConditions cr') ConditionMCPServerConversionVerified =
      observed cm (GetConditions cr) ConditionMCPServerConversionVerified"
    and "observed cm (GetConditions cr') ConditionMCPServerStorageMigrated =
      observed cm (GetConditions cr) ConditionMCPServerStorageMigrated"
  using holds [OF assms(1)] unavailable_observed [OF assms(2)]
  by (auto simp: gate_held_def status_is_def)

end

text \<open>The contract as a predicate on an answer, with the two answers that satisfy it.\<close>

definition gate_answer ::
    "conditions_manager \<Rightarrow> operator_cr \<Rightarrow> ctrl_result \<times> bool \<times> operator_cr \<times> 'w \<Rightarrow> bool" where
  "gate_answer cm cr out \<longleftrightarrow>
     (case out of (res, b, cr', w') \<Rightarrow>
        if b then res = emptyResult \<and> cr' = cr
        else res = requeueIn defaultRequeueDelay \<and> gate_held cm cr cr')"

lemma gate_answers [intro, simp]:
  "gate_answer cm cr (emptyResult, True, cr, w)"
  "gate_answer cm cr (requeueIn defaultRequeueDelay, False, markUnavailable cm r m cr, w)"
  by (auto simp: gate_answer_def gate_held_def)

lemma deployment_names_gate: "gate_answer cm cr (checkDeploymentNames K cm dns cr w)"
  by (induction dns arbitrary: w) (auto split: prod.split sum.split)

interpretation deployments_gate:
  readiness_gate cm "\<lambda>cr w out. checkDeploymentsReady K U cm desired cr w = out" for cm K U desired
proof unfold_locales
  fix cr w res cr' w'
  note a = deployment_names_gate [of cm cr K "findDeploymentNames U desired" w]
  show "res = emptyResult \<and> cr' = cr" if "checkDeploymentsReady K U cm desired cr w = (res, True, cr', w')"
    using a that by (simp add: checkDeploymentsReady_def gate_answer_def)
  show "res = requeueIn defaultRequeueDelay \<and> gate_held cm cr cr'"
    if "checkDeploymentsReady K U cm desired cr w = (res, False, cr', w')"
    using a that by (simp add: checkDeploymentsReady_def gate_answer_def)
qed

text \<open>Induction on a loop that returned: how a round ends, or goes on.\<close>

lemma conversion_loop_induct [consumes 1, case_names held expired last more]:
  assumes "conversionLoop K cm token restarts cr w = Some out"
    and held: "\<And>K cm token restarts cr w err w1 r m.
      k_List K mcpServerGVR conversionCheckPageLimit token w = (Inl err, w1) \<Longrightarrow>
      P K cm token restarts cr w (requeueIn defaultRequeueDelay, False, markUnavailable cm r m cr, w1)"
    and expired: "\<And>K cm token restarts cr w err w1 out.
      k_List K mcpServerGVR conversionCheckPageLimit token w = (Inl err, w1) \<Longrightarrow>
      k_IsResourceExpired K err \<Longrightarrow> restarts < conversionCheckMaxRestarts \<Longrightarrow>
      P K cm [] (Suc restarts) cr w1 out \<Longrightarrow> P K cm token restarts cr w out"
    and last: "\<And>K cm token restarts cr w items w1.
      k_List K mcpServerGVR conversionCheckPageLimit token w = (Inr (items, []), w1) \<Longrightarrow>
      P K cm token restarts cr w (emptyResult, True, cr, w1)"
    and more: "\<And>K cm token restarts cr w items nxt w1 out.
      k_List K mcpServerGVR conversionCheckPageLimit token w = (Inr (items, nxt), w1) \<Longrightarrow> nxt \<noteq> [] \<Longrightarrow>
      P K cm nxt restarts cr w1 out \<Longrightarrow> P K cm token restarts cr w out"
  shows "P K cm token restarts cr w out"
proof (rule conversionLoop.raw_induct [OF _ assms(1)], goal_cases)
  case (1 loop K cm token restarts cr w out)
  obtain r w1 where l: "k_List K mcpServerGVR conversionCheckPageLimit token w = (r, w1)" by fastforce
  show ?case
  proof (cases r)
    case (Inl err)
    show ?thesis
    proof (cases "loop K cm [] (restarts + 1) cr w1 = Some out")
      case True
      from 1(1) [OF True] Inl l 1(2) show ?thesis
        by (auto split: if_splits intro: held expired [of K token w err w1])
    next
      case False
      with Inl l 1(2) show ?thesis by (auto split: if_splits intro: held)
    qed
  next
    case (Inr page)
    then obtain items nxt where p: "r = Inr (items, nxt)" by (cases page) auto
    show ?thesis
    proof (cases "nxt = []")
      case True
      with 1(2) l p show ?thesis by (auto intro: last)
    next
      case False
      with 1(2) l p have "loop K cm nxt restarts cr w1 = Some out" by simp
      from 1(1) [OF this] l p False show ?thesis by (auto intro: more)
    qed
  qed
qed

lemma conversion_loop_gate:
  "conversionLoop K cm token restarts cr w = Some out \<Longrightarrow> gate_answer cm cr out"
  by (induction rule: conversion_loop_induct) auto

interpretation conversion_gate:
  readiness_gate cm "\<lambda>cr w out. checkConversionHealth K cm cr w = Some out" for cm K
proof unfold_locales
  fix cr w res cr' w'
  show "res = emptyResult \<and> cr' = cr" if "checkConversionHealth K cm cr w = Some (res, True, cr', w')"
    using conversion_loop_gate that by (fastforce simp: checkConversionHealth_def gate_answer_def)
  show "res = requeueIn defaultRequeueDelay \<and> gate_held cm cr cr'"
    if "checkConversionHealth K cm cr w = Some (res, False, cr', w')"
    using conversion_loop_gate that by (fastforce simp: checkConversionHealth_def gate_answer_def)
qed

section \<open>What passing means\<close>

text \<open>
  The deployments gate read every Deployment it was given, in order, and found each one with its
  replicas available, one where spec.replicas is not set; \<open>reads_available\<close> follows the reads
  through the world.
\<close>

inductive reads_available :: "'w kube \<Rightarrow> nsname list \<Rightarrow> 'w \<Rightarrow> 'w \<Rightarrow> bool" for K where
  none: "reads_available K [] w w"
| one: "k_GetDeployment K dn w = (Inr d, w1) \<Longrightarrow>
    (case dep_replicas d of None \<Rightarrow> 1 | Some n \<Rightarrow> n) \<le> dep_available d \<Longrightarrow>
    reads_available K dns w1 w2 \<Longrightarrow> reads_available K (dn # dns) w w2"

lemma deployments_passed:
  "checkDeploymentNames K cm dns cr w = (res, True, cr', w') \<longleftrightarrow>
     res = emptyResult \<and> cr' = cr \<and> reads_available K dns w w'"
proof (induction dns arbitrary: w)
  case Nil
  then show ?case by (auto elim: reads_available.cases intro: none)
next
  case (Cons dn dns)
  show ?case
    by (subst reads_available.simps) (auto simp: Cons.IH desiredReplicas_def split: prod.splits sum.splits)
qed

text \<open>
  The conversion gate passed: a sequence of pages from the first to one without a continue token
  was listed, each without error, after at most the allowed restarts. \<open>pages\<close> follows one
  listing.
\<close>

inductive pages :: "'w kube \<Rightarrow> string \<Rightarrow> 'w \<Rightarrow> 'w \<Rightarrow> bool" for K where
  last: "k_List K mcpServerGVR conversionCheckPageLimit token w = (Inr (items, []), w') \<Longrightarrow>
    pages K token w w'"
| more: "k_List K mcpServerGVR conversionCheckPageLimit token w = (Inr (items, next), w1) \<Longrightarrow>
    next \<noteq> [] \<Longrightarrow> pages K next w1 w' \<Longrightarrow> pages K token w w'"

lemma conversion_loop_pages:
  "conversionLoop K cm token restarts cr w = Some out \<Longrightarrow> fst (snd out) \<Longrightarrow>
     pages K token w (snd (snd (snd out))) \<or> (\<exists>w1. pages K [] w1 (snd (snd (snd out))))"
  by (induction rule: conversion_loop_induct) (auto intro: pages.intros)

section \<open>Termination of the conversion check\<close>

text \<open>
  The check returns when the server's paging ends: some rank of the tokens falls from page to
  page. Restarts are bounded by the code itself.
\<close>

definition paging_ends :: "'w kube \<Rightarrow> (string \<Rightarrow> nat) \<Rightarrow> bool" where
  "paging_ends K rank \<longleftrightarrow>
     (\<forall>token w items next w'.
        k_List K mcpServerGVR conversionCheckPageLimit token w = (Inr (items, next), w') \<longrightarrow>
        next \<noteq> [] \<longrightarrow> rank next < rank token)"

lemma conversion_loop_returns:
  assumes "paging_ends K rank"
  shows "conversionLoop K cm token restarts cr w \<noteq> None"
proof (induction "(conversionCheckMaxRestarts - restarts, rank token)" arbitrary: token restarts w
    rule: wf_induct_rule [OF wf_lex_prod [OF wf_less wf_less]])
  case (1 token restarts w)
  obtain r w1 where l: "k_List K mcpServerGVR conversionCheckPageLimit token w = (r, w1)" by fastforce
  show ?case
  proof (cases r)
    case (Inl err)
    have "conversionLoop K cm [] (restarts + 1) cr w1 \<noteq> None" if "restarts < conversionCheckMaxRestarts"
      using that by (intro 1) auto
    with Inl l show ?thesis by (subst conversionLoop.simps) auto
  next
    case (Inr page)
    then obtain items nxt where p: "r = Inr (items, nxt)" by (cases page) auto
    show ?thesis
    proof (cases "nxt = []")
      case True
      with p l show ?thesis by (subst conversionLoop.simps) simp
    next
      case False
      then have "rank nxt < rank token" using assms l p unfolding paging_ends_def by blast
      then have "conversionLoop K cm nxt restarts cr w1 \<noteq> None" by (intro 1) auto
      with False p l show ?thesis by (subst conversionLoop.simps) simp
    qed
  qed
qed

text \<open>A server that hands out a continue token with every page keeps the loop from returning.\<close>

definition endless_pages :: "'w kube \<Rightarrow> bool" where
  "endless_pages K \<longleftrightarrow>
     (\<forall>token w. \<exists>items next w'.
        k_List K mcpServerGVR conversionCheckPageLimit token w = (Inr (items, next), w') \<and> next \<noteq> [])"

lemma conversion_loop_diverges:
  "conversionLoop K cm token restarts cr w = Some out \<Longrightarrow> \<not> endless_pages K"
proof (induction rule: conversion_loop_induct)
  case (held K cm token restarts cr w err w1 r m)
  then show ?case unfolding endless_pages_def by (metis Inl_Inr_False prod.inject)
next
  case (last K cm token restarts cr w items w1)
  then show ?case unfolding endless_pages_def by (metis prod.inject sum.inject(2))
qed simp_all

section \<open>Properties\<close>

lemma find_names: "findDeploymentNames U rs =
    map (\<lambda>obj. (u_GetNamespace U obj, u_GetName U obj)) (filter (\<lambda>obj. u_GetKind U obj = ''Deployment'') rs)"
  by (induction rs) auto

text \<open>
  C21: The deployments gate answers ready exactly when every Deployment among the desired resources,
  read in order, has its replicas available, one if it does not say; it then writes nothing. Any
  read error and any shortfall makes the operator unavailable and not ready, and asks for a requeue
  after ten seconds.
\<close>

theorem deployments_gate_verdict:
  assumes "conditions_laws (cm_lib cm)" and "checkDeploymentsReady K U cm desired cr w = (res, ready, cr', w')"
  shows "(ready \<longleftrightarrow> (\<exists>w1. reads_available K
      (map (\<lambda>obj. (u_GetNamespace U obj, u_GetName U obj))
         (filter (\<lambda>obj. u_GetKind U obj = ''Deployment'') desired)) w w1)) \<and>
    (if ready then res = emptyResult \<and> cr' = cr
     else RequeueAfter res = 10 * Second \<and>
       status_is cm (GetConditions cr') ConditionMCPLifecycleOperatorAvailable ConditionFalse \<and>
       status_is cm (GetConditions cr') ConditionTypeReady ConditionFalse \<and>
       st_distribution (cr_status cr') = st_distribution (cr_status cr))"
proof (cases ready)
  case True
  with assms(2) show ?thesis
    by (auto simp: checkDeploymentsReady_def deployments_passed find_names)
next
  case False
  with assms(2) have held: "checkDeploymentsReady K U cm desired cr w = (res, False, cr', w')" by simp
  have "\<not> reads_available K (findDeploymentNames U desired) w w1" for w1
    using held deployments_passed [of K cm "findDeploymentNames U desired" cr w emptyResult cr w1]
    by (auto simp: checkDeploymentsReady_def)
  with False deployments_gate.holds [OF held] deployments_gate.held_not_ready(1,2) [OF held assms(1)]
    deployments_gate.gate_frame(1) [OF held]
  show ?thesis by (simp add: find_names defaultRequeueDelay_def)
qed

definition one_deployment :: "string \<Rightarrow> gmap" where
  "one_deployment n = [(''kind'', VStr ''Deployment''), (''metadata'', VMap [(''name'', VStr n)])]"

definition short_cluster :: cluster where
  "short_cluster = empty_cluster\<lparr>cl_deployments := [(([], ''op''),
     \<lparr>dep_replicas = None, dep_available = 0,
      dep_conditions = [(''Available'', ''no pods''), (''ReplicaFailure'', ''quota exceeded'')]\<rparr>)]\<rparr>"

definition test_cr :: operator_cr where
  "test_cr = \<lparr>cr_name = ''default'', cr_uid = ''u'', cr_generation = 1, cr_management_state = ''Managed'',
     cr_status = \<lparr>st_phase = [], st_observed_generation = 0, st_conditions = [], st_releases = [],
       st_distribution = \<lparr>dist_name = [], dist_version = []\<rparr>, st_gateways = []\<rparr>\<rparr>"

definition test_manager :: conditions_manager where
  "test_manager = NewConditionsManager list_conditions 1"

lemma test_laws [simp]: "conditions_laws (cm_lib test_manager)"
  by (simp add: test_manager_def NewConditionsManager_def list_conditions_laws)

theorem deployments_gate_verdict_witness:
  "\<exists>res cr' w'. checkDeploymentsReady simulated json_unstructured test_manager [one_deployment ''op''] test_cr
       short_cluster = (res, False, cr', w') \<and> RequeueAfter res = 10 * Second \<and>
     status_is test_manager (GetConditions cr') ConditionTypeReady ConditionFalse"
proof -
  let ?run = "checkDeploymentsReady simulated json_unstructured test_manager [one_deployment ''op''] test_cr short_cluster"
  have "fst (snd ?run) = False" by code_simp
  then obtain res cr' w' where run: "?run = (res, False, cr', w')" by (metis prod.collapse)
  from deployments_gate_verdict [OF test_laws run] run show ?thesis by simp
qed

text \<open>
  The message for a Deployment that is short of replicas is that of its first ReplicaFailure
  condition with a message, else that of its last Available condition with one, else the count of
  replicas, in whatever order the conditions are stored.
\<close>

theorem failure_message_preferred:
  shows "notReadyMessage cs msg =
    (case filter (\<lambda>(t, m). t = DeploymentReplicaFailure \<and> m \<noteq> []) cs of
       c # _ \<Rightarrow> snd c
     | [] \<Rightarrow> last (msg # map snd (filter (\<lambda>(t, m). t = DeploymentAvailable \<and> m \<noteq> []) cs)))"
proof (induction cs arbitrary: msg)
  case Nil
  then show ?case by simp
next
  case (Cons c cs)
  obtain t m where c: "c = (t, m)" by fastforce
  have "\<not> (t = DeploymentReplicaFailure \<and> t = DeploymentAvailable)"
    by (simp add: DeploymentReplicaFailure_def DeploymentAvailable_def)
  with Cons.IH show ?case
    unfolding c by (auto split: list.split)
qed

text \<open>
  C20: The conversion check calls the stored objects convertible only after a listing at v1beta1
  that ran from the first page to one without a continue token, every page without an error; it
  then writes nothing. Every other verdict marks the operator unavailable and not ready, keeps the
  conversion marker, the migration condition and the distribution, and asks for a requeue.
\<close>

theorem conversion_check_verdict:
  assumes "conditions_laws (cm_lib cm)" and "checkConversionHealth K cm cr w = Some (res, healthy, cr', w')"
  shows "if healthy then (\<exists>w0. pages K [] w0 w') \<and> res = emptyResult \<and> cr' = cr
    else RequeueAfter res = 10 * Second \<and>
      status_is cm (GetConditions cr') ConditionMCPLifecycleOperatorAvailable ConditionFalse \<and>
      status_is cm (GetConditions cr') ConditionTypeReady ConditionFalse \<and>
      observed cm (GetConditions cr') ConditionMCPServerConversionVerified =
        observed cm (GetConditions cr) ConditionMCPServerConversionVerified \<and>
      observed cm (GetConditions cr') ConditionMCPServerStorageMigrated =
        observed cm (GetConditions cr) ConditionMCPServerStorageMigrated \<and>
      st_distribution (cr_status cr') = st_distribution (cr_status cr)"
proof (cases healthy)
  case True
  with assms(2) have "checkConversionHealth K cm cr w = Some (res, True, cr', w')" by simp
  note pass = conversion_gate.passes [OF this]
  from assms(2) True have "\<exists>w0. pages K [] w0 w'"
    using conversion_loop_pages [of K cm "[]" 0 cr w "(res, healthy, cr', w')"]
    by (auto simp: checkConversionHealth_def)
  with pass True show ?thesis by simp
next
  case False
  with assms(2) have held: "checkConversionHealth K cm cr w = Some (res, False, cr', w')" by simp
  from False conversion_gate.holds [OF held] conversion_gate.held_not_ready [OF held assms(1)]
    conversion_gate.gate_frame(1) [OF held]
  show ?thesis by (simp add: defaultRequeueDelay_def)
qed

definition expiring_cluster :: cluster where
  "expiring_cluster = empty_cluster\<lparr>cl_faults := [(''list'', expired)]\<rparr>"

theorem conversion_check_verdict_witness:
  "\<exists>res cr' w'. checkConversionHealth simulated test_manager test_cr expiring_cluster = Some (res, False, cr', w') \<and>
     RequeueAfter res = 10 * Second \<and>
     status_is test_manager (GetConditions cr') ConditionTypeReady ConditionFalse"
proof -
  let ?run = "checkConversionHealth simulated test_manager test_cr expiring_cluster"
  have "map_option (\<lambda>out. fst (snd out)) ?run = Some False" by code_simp
  then obtain res cr' w' where run: "?run = Some (res, False, cr', w')" by auto
  from conversion_check_verdict [OF test_laws run] run show ?thesis by simp
qed

text \<open>
  The number of pages is not bounded by the check: against a server that hands out a continue
  token with every page it does not return, whatever the bound on restarts.
\<close>

theorem conversion_check_follows_endless_pages:
  assumes "endless_pages K"
  shows "checkConversionHealth K cm cr w = None"
proof (cases "checkConversionHealth K cm cr w")
  case (Some out)
  then have "\<not> endless_pages K" unfolding checkConversionHealth_def by (rule conversion_loop_diverges)
  with assms show ?thesis by simp
qed simp

theorem conversion_check_follows_endless_pages_witness:
  "checkConversionHealth (simulated\<lparr>k_List := \<lambda>g n token w. (Inr ([], ''next''), w)\<rparr>) test_manager test_cr
     empty_cluster = None"
  by (rule conversion_check_follows_endless_pages) (simp add: endless_pages_def)

inductive unwraps :: "gerror \<Rightarrow> gerror \<Rightarrow> bool" where
  itself: "unwraps e e"
| inner: "Unwrap e = Some e1 \<Longrightarrow> unwraps e1 e2 \<Longrightarrow> unwraps e e2"

text \<open>
  An error counts as a kind that is not registered exactly when some error of its chain of
  wrapped errors is one; the walk along the chain always ends.
\<close>

theorem not_registered_along_chain:
  shows "isNotRegisteredError K err \<longleftrightarrow> (\<exists>e. unwraps err e \<and> k_IsNotRegisteredError K e)"
proof (induction K err rule: isNotRegisteredError.induct)
  case (1 K err)
  show ?case
  proof (cases "k_IsNotRegisteredError K err")
    case True
    then show ?thesis by (subst isNotRegisteredError.simps) (auto intro: unwraps.itself)
  next
    case False
    have chain: "unwraps err e \<longleftrightarrow> e = err \<or> (\<exists>e1. Unwrap err = Some e1 \<and> unwraps e1 e)" for e
      by (subst unwraps.simps) auto
    show ?thesis
      using 1 [OF False] False
      by (subst isNotRegisteredError.simps) (auto simp: chain split: option.split)
  qed
qed

end
