(* ===== verification/Storage_Migration.thy ===== *)
theory Storage_Migration
  imports Kube_Client Cluster
begin

text \<open>
  internal/controller/storage_migration.go: driving the StorageVersionMigration of the stored
  MCPServer objects and mapping its outcome onto the MCPServerStorageMigrated condition. The
  conditions manager \<open>cm\<close> writes the conditions of the resource \<open>cr\<close>; the world \<open>w\<close> is
  threaded through the calls of the dynamic and discovery clients.
\<close>

definition storageMigrationName :: string where
  "storageMigrationName = ''mcpservers-v1beta1''"

definition reasonStorageMigrationPending :: string where
  "reasonStorageMigrationPending = ''StorageMigrationPending''"
definition reasonStorageMigrationRunning :: string where
  "reasonStorageMigrationRunning = ''StorageMigrationRunning''"
definition reasonStorageMigrationSucceeded :: string where
  "reasonStorageMigrationSucceeded = ''StorageMigrationSucceeded''"
definition reasonStorageMigrationFailed :: string where
  "reasonStorageMigrationFailed = ''StorageMigrationFailed''"

definition svmConditionSucceeded :: string where "svmConditionSucceeded = ''Succeeded''"
definition svmConditionFailed :: string where "svmConditionFailed = ''Failed''"

definition storageMigrationRequeueDelay :: int where
  "storageMigrationRequeueDelay = Minute"

definition storageMigrationPendingMessage :: string where
  "storageMigrationPendingMessage =
     ''The migration.k8s.io storage-version migrator API is not available yet; '' @
     ''install the storage-version migrator to migrate stored MCPServer objects to v1beta1''"

definition storageMigrationAttemptAnnotation :: string where
  "storageMigrationAttemptAnnotation = ''mcp.x-k8s.io/storage-migration-attempt''"

definition maxStorageMigrationRetries :: int where
  "maxStorageMigrationRetries = 5"

definition storageVersionMigrationGVR :: gvr where
  "storageVersionMigrationGVR = (''migration.k8s.io'', ''v1alpha1'', ''storageversionmigrations'')"

section \<open>Reading the migration object\<close>

fun firstCondition :: "string \<Rightarrow> gval list \<Rightarrow> gmap option" where
  "firstCondition condType [] = None"
| "firstCondition condType (raw # conds) =
     (case as_map raw of
        None \<Rightarrow> firstCondition condType conds
      | Some c \<Rightarrow>
          if map_of c ''type'' = Some (VStr condType) then Some c else firstCondition condType conds)"

definition findMigrationCondition :: "unstructured_api \<Rightarrow> gmap \<Rightarrow> string \<Rightarrow> gmap option" where
  "findMigrationCondition U obj condType =
     (case u_NestedSlice U obj [''status'', ''conditions''] of
        Inr (Some conds) \<Rightarrow> firstCondition condType conds
      | _ \<Rightarrow> None)"

definition migrationConditionTrue :: "unstructured_api \<Rightarrow> gmap \<Rightarrow> string \<Rightarrow> bool" where
  "migrationConditionTrue U obj condType =
     (case findMigrationCondition U obj condType of
        None \<Rightarrow> False
      | Some c \<Rightarrow> map_of c ''status'' = Some (VStr ConditionTrue))"

definition migrationConditionMessage :: "unstructured_api \<Rightarrow> gmap \<Rightarrow> string \<Rightarrow> string" where
  "migrationConditionMessage U obj condType =
     (let fallback = ''StorageVersionMigration reported '' @ condType in
      case findMigrationCondition U obj condType of
        None \<Rightarrow> fallback
      | Some c \<Rightarrow>
          (case map_of c ''message'' of
             Some (VStr msg) \<Rightarrow> if msg \<noteq> [] then msg else fallback
           | _ \<Rightarrow> fallback))"

text \<open>A missing annotation reads as the empty string, which is no number.\<close>

definition storageMigrationAttempt :: "unstructured_api \<Rightarrow> gmap \<Rightarrow> int" where
  "storageMigrationAttempt U obj =
     (case u_GetAnnotations U obj of
        None \<Rightarrow> 0
      | Some ann \<Rightarrow>
          (case Atoi (case map_of ann storageMigrationAttemptAnnotation of None \<Rightarrow> [] | Some s \<Rightarrow> s) of
             None \<Rightarrow> 0
           | Some n \<Rightarrow> n))"

section \<open>The signal of the resource\<close>

definition storageMigrationSucceeded :: "conditions_api \<Rightarrow> operator_cr \<Rightarrow> bool" where
  "storageMigrationSucceeded lib cr =
     (case lib_find lib (GetConditions cr) ConditionMCPServerStorageMigrated of
        None \<Rightarrow> False
      | Some c \<Rightarrow> cstatus c = ConditionTrue)"

definition storageMigrationSettled :: "conditions_api \<Rightarrow> operator_cr \<Rightarrow> bool" where
  "storageMigrationSettled lib cr = storageMigrationSucceeded lib cr"

section \<open>Driving the migration\<close>

definition storageMigrationAPIServed :: "'w kube \<Rightarrow> 'w \<Rightarrow> bool \<times> 'w" where
  "storageMigrationAPIServed K w =
     (case k_ServerResources K
             (gv_string (fst storageVersionMigrationGVR, fst (snd storageVersionMigrationGVR))) w of
        (Inl err, w) \<Rightarrow> (False, w)
      | (Inr names, w) \<Rightarrow> (list_ex (\<lambda>name. name = snd (snd storageVersionMigrationGVR)) names, w))"

definition migrationObject :: "operator_cr \<Rightarrow> int \<Rightarrow> gmap" where
  "migrationObject cr attempt =
     [(''apiVersion'', VStr (fst storageVersionMigrationGVR @ ''/'' @ fst (snd storageVersionMigrationGVR))),
      (''kind'', VStr ''StorageVersionMigration''),
      (''metadata'', VMap
         [(''name'', VStr storageMigrationName),
          (''annotations'', VMap [(storageMigrationAttemptAnnotation, VStr (Itoa attempt))]),
          (''labels'', VMap
             [(''app.kubernetes.io/name'', VStr ''mcp-lifecycle-operator''),
              (''app.kubernetes.io/component'', VStr ''storage-version-migration'')]),
          (''ownerReferences'', VList
             [VMap
                [(''apiVersion'', VStr (gv_string GroupVersion)),
                 (''kind'', VStr ''MCPLifecycleOperator''),
                 (''name'', VStr (cr_name cr)),
                 (''uid'', VStr (cr_uid cr)),
                 (''controller'', VBool True),
                 (''blockOwnerDeletion'', VBool True)]])]),
      (''spec'', VMap
         [(''resource'', VMap
             [(''group'', VStr ''mcp.x-k8s.io''),
              (''version'', VStr ''v1beta1''),
              (''resource'', VStr ''mcpservers'')])])]"

definition createStorageMigration ::
    "'w kube \<Rightarrow> conditions_manager \<Rightarrow> int \<Rightarrow> operator_cr \<Rightarrow> 'w \<Rightarrow> ctrl_result \<times> operator_cr \<times> 'w" where
  "createStorageMigration K cm attempt cr w =
     (case k_Create K storageVersionMigrationGVR (migrationObject cr attempt) w of
        (Some err, w) \<Rightarrow>
          (if k_IsAlreadyExists K err then
             (requeueIn storageMigrationRequeueDelay,
              onConditions (MarkFalse cm ConditionMCPServerStorageMigrated reasonStorageMigrationRunning
                ''StorageVersionMigration already exists; awaiting completion'') cr, w)
           else
             (requeueIn storageMigrationRequeueDelay,
              onConditions (MarkFalse cm ConditionMCPServerStorageMigrated reasonStorageMigrationFailed
                (Error err)) cr, w))
      | (None, w) \<Rightarrow>
          (requeueIn storageMigrationRequeueDelay,
           onConditions (MarkFalse cm ConditionMCPServerStorageMigrated reasonStorageMigrationRunning
             ''Created StorageVersionMigration; awaiting completion'') cr, w))"

definition deleteStorageMigration :: "'w kube \<Rightarrow> 'w \<Rightarrow> gerror option \<times> 'w" where
  "deleteStorageMigration K w = k_Delete K storageVersionMigrationGVR storageMigrationName w"

definition observeStorageMigration ::
    "'w kube \<Rightarrow> unstructured_api \<Rightarrow> conditions_manager \<Rightarrow> gmap \<Rightarrow> operator_cr \<Rightarrow> 'w
      \<Rightarrow> ctrl_result \<times> operator_cr \<times> 'w" where
  "observeStorageMigration K U cm obj cr w =
     (if migrationConditionTrue U obj svmConditionSucceeded then
        (emptyResult,
         onConditions (MarkTrueWithReason cm ConditionMCPServerStorageMigrated
           reasonStorageMigrationSucceeded) cr, w)
      else if migrationConditionTrue U obj svmConditionFailed then
        (let msg = migrationConditionMessage U obj svmConditionFailed;
             attempt = storageMigrationAttempt U obj
         in if attempt \<ge> maxStorageMigrationRetries then
              (emptyResult,
               onConditions (MarkFalse cm ConditionMCPServerStorageMigrated reasonStorageMigrationFailed
                 (msg @ ''; giving up after '' @ Itoa attempt @
                  '' attempts, manual intervention required'')) cr, w)
            else
              (case deleteStorageMigration K w of
                 (Some err, w) \<Rightarrow>
                   (if \<not> k_IsNotFound K err then
                      (requeueIn storageMigrationRequeueDelay,
                       onConditions (MarkFalse cm ConditionMCPServerStorageMigrated
                         reasonStorageMigrationFailed
                         (msg @ ''; failed to delete the migration to retry: '' @ Error err)) cr, w)
                    else createStorageMigration K cm (attempt + 1) cr w)
               | (None, w) \<Rightarrow> createStorageMigration K cm (attempt + 1) cr w))
      else
        (requeueIn storageMigrationRequeueDelay,
         onConditions (MarkFalse cm ConditionMCPServerStorageMigrated reasonStorageMigrationRunning
           ''StorageVersionMigration in progress; awaiting completion'') cr, w))"

definition reconcileStorageMigration ::
    "'w kube \<Rightarrow> unstructured_api \<Rightarrow> conditions_manager \<Rightarrow> operator_cr \<Rightarrow> 'w
      \<Rightarrow> ctrl_result \<times> operator_cr \<times> 'w" where
  "reconcileStorageMigration K U cm cr w =
     (if storageMigrationSettled (cm_lib cm) cr then (emptyResult, cr, w)
      else
        (case storageMigrationAPIServed K w of
           (served, w) \<Rightarrow>
             if \<not> served then
               (requeueIn storageMigrationRequeueDelay,
                onConditions (MarkFalse cm ConditionMCPServerStorageMigrated
                  reasonStorageMigrationPending storageMigrationPendingMessage) cr, w)
             else
               (case k_Get K storageVersionMigrationGVR [] storageMigrationName w of
                  (Inl err, w) \<Rightarrow>
                    (if k_IsNotFound K err then createStorageMigration K cm 1 cr w
                     else
                       (requeueIn storageMigrationRequeueDelay,
                        onConditions (MarkFalse cm ConditionMCPServerStorageMigrated
                          reasonStorageMigrationFailed (Error err)) cr, w))
                | (Inr obj, w) \<Rightarrow> observeStorageMigration K U cm obj cr w)))"

section \<open>The condition it writes\<close>

text \<open>A step either leaves the resource alone or marks the one condition it owns.\<close>

definition migration_marked :: "conditions_manager \<Rightarrow> operator_cr \<Rightarrow> operator_cr \<Rightarrow> bool" where
  "migration_marked cm cr cr' \<longleftrightarrow>
     (\<exists>r m. cr' = onConditions (MarkFalse cm ConditionMCPServerStorageMigrated r m) cr) \<or>
     cr' = onConditions (MarkTrueWithReason cm ConditionMCPServerStorageMigrated
             reasonStorageMigrationSucceeded) cr"

lemma create_marks:
  "createStorageMigration K cm attempt cr w = (res, cr', w') \<Longrightarrow>
     (\<exists>r m. cr' = onConditions (MarkFalse cm ConditionMCPServerStorageMigrated r m) cr) \<and>
     RequeueAfter res = storageMigrationRequeueDelay"
  by (auto simp: createStorageMigration_def split: prod.splits option.splits if_splits)

lemma observe_marks:
  assumes "observeStorageMigration K U cm obj cr w = (res, cr', w')"
  shows "migration_marked cm cr cr'"
  using assms create_marks
  by (fastforce simp: observeStorageMigration_def migration_marked_def Let_def
      split: prod.splits option.splits if_splits)

lemma observe_not_succeeded:
  assumes "observeStorageMigration K U cm obj cr w = (res, cr', w')"
    and "\<not> migrationConditionTrue U obj svmConditionSucceeded"
  shows "\<exists>r m. cr' = onConditions (MarkFalse cm ConditionMCPServerStorageMigrated r m) cr"
  using assms create_marks
  by (fastforce simp: observeStorageMigration_def Let_def split: prod.splits option.splits if_splits)

lemma reconcile_marks:
  assumes "reconcileStorageMigration K U cm cr w = (res, cr', w')"
    and "\<not> storageMigrationSettled (cm_lib cm) cr"
  shows "migration_marked cm cr cr'"
  using assms create_marks observe_marks
  by (fastforce simp: reconcileStorageMigration_def migration_marked_def
      split: prod.splits sum.splits if_splits)

text \<open>Which branch wrote the completion signal.\<close>

lemma reconcile_not_succeeded:
  assumes "reconcileStorageMigration K U cm cr w = (res, cr', w')"
    and "\<not> storageMigrationSettled (cm_lib cm) cr"
    and "\<And>w1 obj w2. storageMigrationAPIServed K w = (True, w1) \<Longrightarrow>
      k_Get K storageVersionMigrationGVR [] storageMigrationName w1 = (Inr obj, w2) \<Longrightarrow>
      \<not> migrationConditionTrue U obj svmConditionSucceeded"
  shows "\<exists>r m. cr' = onConditions (MarkFalse cm ConditionMCPServerStorageMigrated r m) cr"
  using assms(1,2) create_marks observe_not_succeeded [OF _ assms(3)]
  by (fastforce simp: reconcileStorageMigration_def split: prod.splits sum.splits if_splits)

context conditions_lib
begin

lemma marked_frame:
  assumes "migration_marked cm cr cr'" and "t \<noteq> ConditionMCPServerStorageMigrated"
  shows "observed cm (GetConditions cr') t = observed cm (GetConditions cr) t"
  using assms by (auto simp: migration_marked_def marks_observed)

lemma marked_one_per_type:
  "migration_marked cm cr cr' \<Longrightarrow> one_per_type (GetConditions cr) \<Longrightarrow> one_per_type (GetConditions cr')"
  by (auto simp: migration_marked_def marks_one_per_type)

lemma succeeded_status:
  "storageMigrationSucceeded (cm_lib cm) cr \<longleftrightarrow>
     status_is cm (GetConditions cr) ConditionMCPServerStorageMigrated ConditionTrue"
  by (auto simp: storageMigrationSucceeded_def status_is_def observed_def shown_def split: option.splits)

end

lemma marked_fields:
  assumes "migration_marked cm cr cr'"
  shows "cr_name cr' = cr_name cr" "cr_uid cr' = cr_uid cr" "cr_generation cr' = cr_generation cr"
    "cr_management_state cr' = cr_management_state cr"
    "st_distribution (cr_status cr') = st_distribution (cr_status cr)"
    "st_gateways (cr_status cr') = st_gateways (cr_status cr)"
    "st_releases (cr_status cr') = st_releases (cr_status cr)"
    "st_phase (cr_status cr') = st_phase (cr_status cr)"
    "st_observed_generation (cr_status cr') = st_observed_generation (cr_status cr)"
  using assms by (auto simp: migration_marked_def)

text \<open>A step keeps every field of the resource but its own condition.\<close>

lemma reconcile_same_or_marked:
  assumes "reconcileStorageMigration K U cm cr w = (res, cr', w')"
  shows "cr' = cr \<or> migration_marked cm cr cr'"
proof (cases "storageMigrationSettled (cm_lib cm) cr")
  case True
  with assms show ?thesis by (simp add: reconcileStorageMigration_def)
next
  case False
  with reconcile_marks [OF assms] show ?thesis by simp
qed

lemma reconcile_migration_fields:
  assumes "reconcileStorageMigration K U cm cr w = (res, cr', w')"
  shows "cr_name cr' = cr_name cr" "cr_uid cr' = cr_uid cr" "cr_generation cr' = cr_generation cr"
    "cr_management_state cr' = cr_management_state cr"
    "st_distribution (cr_status cr') = st_distribution (cr_status cr)"
    "st_gateways (cr_status cr') = st_gateways (cr_status cr)"
    "st_releases (cr_status cr') = st_releases (cr_status cr)"
  using reconcile_same_or_marked [OF assms] by (auto dest: marked_fields)

context conditions_lib
begin

lemma migration_frame:
  assumes "reconcileStorageMigration K U cm cr w = (res, cr', w')" and "t \<noteq> ConditionMCPServerStorageMigrated"
  shows "observed cm (GetConditions cr') t = observed cm (GetConditions cr) t"
  using assms marked_frame [OF reconcile_marks [OF assms(1)]]
  by (cases "storageMigrationSettled (cm_lib cm) cr") (auto simp: reconcileStorageMigration_def)

lemma migration_one_per_type:
  assumes "reconcileStorageMigration K U cm cr w = (res, cr', w')" and "one_per_type (GetConditions cr)"
  shows "one_per_type (GetConditions cr')"
  using assms marked_one_per_type [OF reconcile_marks [OF assms(1)]]
  by (cases "storageMigrationSettled (cm_lib cm) cr") (auto simp: reconcileStorageMigration_def)

end

section \<open>Properties\<close>

text \<open>
  Driving the storage migration writes one condition, MCPServerStorageMigrated, and nothing
  else: every other condition, so also Ready and Degraded, and every other field of the resource
  is the same afterwards, in every branch and whatever the cluster answers.
\<close>

theorem migration_writes_own_condition:
  assumes "conditions_laws (cm_lib cm)" and "reconcileStorageMigration K U cm cr w = (res, cr', w')"
  shows "(t \<noteq> ConditionMCPServerStorageMigrated \<longrightarrow>
      observed cm (GetConditions cr') t = observed cm (GetConditions cr) t) \<and>
    cr_generation cr' = cr_generation cr \<and>
    cr_management_state cr' = cr_management_state cr \<and>
    st_distribution (cr_status cr') = st_distribution (cr_status cr) \<and>
    st_releases (cr_status cr') = st_releases (cr_status cr) \<and>
    st_gateways (cr_status cr') = st_gateways (cr_status cr)"
  using conditions_lib.migration_frame [OF conditions_lib.intro [OF assms(1)] assms(2)]
    reconcile_migration_fields [OF assms(2)] by simp

definition plain_cr :: operator_cr where
  "plain_cr = \<lparr>cr_name = ''default'', cr_uid = ''u'', cr_generation = 1, cr_management_state = ''Managed'',
     cr_status = \<lparr>st_phase = [], st_observed_generation = 0, st_conditions = [], st_releases = [],
       st_distribution = \<lparr>dist_name = [], dist_version = []\<rparr>, st_gateways = []\<rparr>\<rparr>"

text \<open>A migration object as the migrator reports on it, stored in a cluster that serves its API.\<close>

definition reported :: "string \<Rightarrow> int \<Rightarrow> cluster" where
  "reported t n = empty_cluster\<lparr>
     cl_served := [(''migration.k8s.io/v1alpha1'', [''storageversionmigrations''])],
     cl_objects := [((storageVersionMigrationGVR, [], storageMigrationName),
       migrationObject plain_cr n @ [(''status'', VMap [(''conditions'', VList
         [VMap [(''type'', VStr t), (''status'', VStr ConditionTrue), (''message'', VStr ''m'')]])])])]\<rparr>"

definition plain_manager :: conditions_manager where
  "plain_manager = NewConditionsManager list_conditions 1"

lemma plain_laws [simp]: "conditions_laws (cm_lib plain_manager)"
  by (simp add: plain_manager_def NewConditionsManager_def list_conditions_laws)

definition reported_run :: "string \<Rightarrow> int \<Rightarrow> ctrl_result \<times> operator_cr \<times> cluster" where
  "reported_run t n =
     reconcileStorageMigration simulated json_unstructured plain_manager plain_cr (reported t n)"

theorem migration_writes_own_condition_witness:
  "\<exists>res cr' w'. reported_run svmConditionFailed 2 = (res, cr', w') \<and>
     observed plain_manager (GetConditions cr') ConditionTypeReady = None"
proof -
  obtain res cr' w' where run: "reported_run svmConditionFailed 2 = (res, cr', w')" by (metis prod_cases3)
  have "observed plain_manager (GetConditions plain_cr) ConditionTypeReady = None" by code_simp
  with migration_writes_own_condition [OF plain_laws run [unfolded reported_run_def], of ConditionTypeReady] run
  show ?thesis by simp
qed

text \<open>
  What the migrator has to write for a condition to count as reported: the first entry of the
  condition's type in status.conditions has the status True.
\<close>

definition reports :: "unstructured_api \<Rightarrow> gmap \<Rightarrow> string \<Rightarrow> bool" where
  "reports U obj t \<longleftrightarrow>
     (\<exists>earlier c later.
        u_NestedSlice U obj [''status'', ''conditions''] = Inr (Some (earlier @ VMap c # later)) \<and>
        (\<forall>m. VMap m \<in> set earlier \<longrightarrow> map_of m ''type'' \<noteq> Some (VStr t)) \<and>
        map_of c ''type'' = Some (VStr t) \<and> map_of c ''status'' = Some (VStr ''True''))"

lemma first_condition:
  assumes "firstCondition t conds = Some c"
  obtains earlier later where "conds = earlier @ VMap c # later" and "map_of c ''type'' = Some (VStr t)"
    and "\<forall>m. VMap m \<in> set earlier \<longrightarrow> map_of m ''type'' \<noteq> Some (VStr t)"
  using assms
proof (induction conds arbitrary: thesis)
  case (Cons raw conds)
  show ?case
  proof (cases "\<exists>m. raw = VMap m \<and> map_of m ''type'' = Some (VStr t)")
    case True
    with Cons.prems(2) show ?thesis by (intro Cons.prems(1) [of "[]"]) auto
  next
    case False
    with Cons.prems(2) have "firstCondition t conds = Some c" by (cases raw) auto
    from Cons.IH [OF _ this] obtain earlier later where "conds = earlier @ VMap c # later"
      "map_of c ''type'' = Some (VStr t)"
      "\<forall>m. VMap m \<in> set earlier \<longrightarrow> map_of m ''type'' \<noteq> Some (VStr t)" by blast
    with False show ?thesis by (intro Cons.prems(1) [of "raw # earlier"]) auto
  qed
qed simp

lemma condition_reports: "migrationConditionTrue U obj t \<Longrightarrow> reports U obj t"
  unfolding migrationConditionTrue_def findMigrationCondition_def reports_def ConditionTrue_def
  by (force split: option.splits sum.splits elim!: first_condition)

lemma served_by_discovery:
  assumes "storageMigrationAPIServed K w = (True, w1)"
  shows "\<exists>names. k_ServerResources K ''migration.k8s.io/v1alpha1'' w = (Inr names, w1) \<and>
    ''storageversionmigrations'' \<in> set names"
  using assms
  by (auto simp: storageMigrationAPIServed_def storageVersionMigrationGVR_def gv_string_def list_ex_iff
      split: prod.splits sum.splits)

text \<open>
  C19: The completion signal is never false: when a step makes MCPServerStorageMigrated True, the
  discovery named the migration API's resource and the step read the migration object, whose first
  status condition of the type Succeeded has the status True; the step then made no further call and
  asks for no requeue.
\<close>

theorem completion_only_when_succeeded:
  assumes "conditions_laws (cm_lib cm)" and "reconcileStorageMigration K U cm cr w = (res, cr', w')"
    and "\<not> status_is cm (GetConditions cr) ConditionMCPServerStorageMigrated ConditionTrue"
    and "status_is cm (GetConditions cr') ConditionMCPServerStorageMigrated ConditionTrue"
  shows "\<exists>names w1 obj. k_ServerResources K ''migration.k8s.io/v1alpha1'' w = (Inr names, w1) \<and>
    ''storageversionmigrations'' \<in> set names \<and>
    k_Get K (''migration.k8s.io'', ''v1alpha1'', ''storageversionmigrations'') []
      ''mcpservers-v1beta1'' w1 = (Inr obj, w') \<and>
    reports U obj ''Succeeded'' \<and> res = emptyResult"
proof (rule ccontr)
  assume no: "\<not> ?thesis"
  have lib: "conditions_lib cm" using assms(1) by (rule conditions_lib.intro)
  have unsettled: "\<not> storageMigrationSettled (cm_lib cm) cr"
    using assms(3) conditions_lib.succeeded_status [OF lib] by (simp add: storageMigrationSettled_def)
  have unreported: "\<not> migrationConditionTrue U obj svmConditionSucceeded"
    if "storageMigrationAPIServed K w = (True, w1)"
      and "k_Get K storageVersionMigrationGVR [] storageMigrationName w1 = (Inr obj, w2)" for w1 obj w2
  proof
    assume "migrationConditionTrue U obj svmConditionSucceeded"
    with that assms(2) unsettled have "w' = w2" and "res = emptyResult"
      by (simp_all add: reconcileStorageMigration_def observeStorageMigration_def)
    moreover have "reports U obj ''Succeeded''"
      using condition_reports [OF \<open>migrationConditionTrue _ _ _\<close>] by (simp add: svmConditionSucceeded_def)
    ultimately show False
      using that no served_by_discovery [OF that(1)]
      unfolding storageVersionMigrationGVR_def storageMigrationName_def by blast
  qed
  have "\<exists>r m. cr' = onConditions (MarkFalse cm ConditionMCPServerStorageMigrated r m) cr"
    by (rule reconcile_not_succeeded [OF assms(2) unsettled]) (rule unreported)
  with assms(4) show False
    by (auto simp: status_is_def conditions_lib.marks_observed [OF lib])
qed

theorem completion_only_when_succeeded_witness:
  "\<exists>res cr' w'. reported_run svmConditionSucceeded 2 = (res, cr', w') \<and> res = emptyResult \<and>
     status_is plain_manager (GetConditions cr') ConditionMCPServerStorageMigrated ConditionTrue"
proof -
  obtain res cr' w' where run: "reported_run svmConditionSucceeded 2 = (res, cr', w')" by (metis prod_cases3)
  have "\<not> status_is plain_manager (GetConditions plain_cr) ConditionMCPServerStorageMigrated ConditionTrue"
    by code_simp
  moreover have "status_is plain_manager (GetConditions (fst (snd (reported_run svmConditionSucceeded 2))))
      ConditionMCPServerStorageMigrated ConditionTrue"
    by code_simp
  ultimately show ?thesis
    using completion_only_when_succeeded [OF plain_laws run [unfolded reported_run_def]] run by auto
qed

definition gave_up :: "'w kube \<Rightarrow> unstructured_api \<Rightarrow> 'w \<Rightarrow> bool" where
  "gave_up K U w \<longleftrightarrow>
     (\<exists>w1 obj w2. storageMigrationAPIServed K w = (True, w1) \<and>
        k_Get K storageVersionMigrationGVR [] storageMigrationName w1 = (Inr obj, w2) \<and>
        \<not> migrationConditionTrue U obj svmConditionSucceeded \<and>
        migrationConditionTrue U obj svmConditionFailed \<and>
        maxStorageMigrationRetries \<le> storageMigrationAttempt U obj)"

lemma delay_nonzero [simp]: "storageMigrationRequeueDelay \<noteq> 0"
  by (simp add: storageMigrationRequeueDelay_def Minute_def Second_def)

context conditions_lib
begin

lemma marked_false_unsettled:
  "cr' = onConditions (MarkFalse cm ConditionMCPServerStorageMigrated r m) cr \<Longrightarrow>
     \<not> storageMigrationSucceeded (cm_lib cm) cr'"
  by (simp add: succeeded_status status_is_def marks_observed)

lemma create_requeues:
  "createStorageMigration K cm n cr w = (res, cr', w') \<Longrightarrow>
     res = requeueIn storageMigrationRequeueDelay \<and> \<not> storageMigrationSucceeded (cm_lib cm) cr'"
  using marked_false_unsettled
  by (fastforce simp: createStorageMigration_def split: prod.splits option.splits if_splits)

lemma observe_requeues:
  assumes "observeStorageMigration K U cm obj cr w = (res, cr', w')"
  shows "if migrationConditionTrue U obj svmConditionSucceeded
    then res = emptyResult \<and> storageMigrationSucceeded (cm_lib cm) cr'
    else \<not> storageMigrationSucceeded (cm_lib cm) cr' \<and>
      res = (if migrationConditionTrue U obj svmConditionFailed \<and>
                maxStorageMigrationRetries \<le> storageMigrationAttempt U obj
             then emptyResult else requeueIn storageMigrationRequeueDelay)"
proof (cases "migrationConditionTrue U obj svmConditionSucceeded")
  case True
  with assms show ?thesis
    by (auto simp: observeStorageMigration_def succeeded_status status_is_def marks_observed)
next
  case False
  from observe_not_succeeded [OF assms False] marked_false_unsettled
  have "\<not> storageMigrationSucceeded (cm_lib cm) cr'" by blast
  with assms False show ?thesis
    using create_requeues
    by (fastforce simp: observeStorageMigration_def Let_def split: prod.splits option.splits if_splits)
qed

lemma reconcile_requeues:
  assumes "reconcileStorageMigration K U cm cr w = (res, cr', w')"
  shows "res = (if storageMigrationSucceeded (cm_lib cm) cr' \<or> gave_up K U w then emptyResult
    else requeueIn storageMigrationRequeueDelay) \<or> storageMigrationSettled (cm_lib cm) cr"
proof -
  obtain b w1 where d: "storageMigrationAPIServed K w = (b, w1)" by fastforce
  obtain r w2 where g: "k_Get K storageVersionMigrationGVR [] storageMigrationName w1 = (r, w2)" by fastforce
  have gave: "gave_up K U w \<longleftrightarrow> b \<and> (\<exists>obj. r = Inr obj \<and>
      \<not> migrationConditionTrue U obj svmConditionSucceeded \<and> migrationConditionTrue U obj svmConditionFailed \<and>
      maxStorageMigrationRetries \<le> storageMigrationAttempt U obj)"
    using d g by (auto simp: gave_up_def)
  show ?thesis
    using assms d g marked_false_unsettled create_requeues observe_requeues
    by (fastforce simp: reconcileStorageMigration_def gave split: sum.splits if_splits)
qed

end

text \<open>
  C30: A step asks for no requeue exactly when the migration needs no further driving: the resource
  shows it as migrated, or the object it read has failed its last allowed attempt. Everything
  else, API errors and a lost race included, is retried after one minute.
\<close>

theorem requeue_while_driving:
  assumes "conditions_laws (cm_lib cm)" and "reconcileStorageMigration K U cm cr w = (res, cr', w')"
    and "\<not> storageMigrationSettled (cm_lib cm) cr"
  shows "RequeueAfter res =
    (if storageMigrationSucceeded (cm_lib cm) cr' \<or> gave_up K U w then 0 else 60 * Second)"
  using conditions_lib.reconcile_requeues [OF conditions_lib.intro [OF assms(1)] assms(2)] assms(3)
  by (simp add: storageMigrationRequeueDelay_def Minute_def)

theorem requeue_while_driving_witness:
  "\<exists>res cr' w'. reported_run svmConditionFailed 5 = (res, cr', w') \<and> RequeueAfter res = 0 \<and>
     gave_up simulated json_unstructured (reported svmConditionFailed 5)"
proof -
  obtain res cr' w' where run: "reported_run svmConditionFailed 5 = (res, cr', w')" by (metis prod_cases3)
  have 1: "\<not> storageMigrationSettled (cm_lib plain_manager) plain_cr" by code_simp
  have 2: "RequeueAfter (fst (reported_run svmConditionFailed 5)) = 0 \<and>
      \<not> storageMigrationSucceeded (cm_lib plain_manager) (fst (snd (reported_run svmConditionFailed 5)))"
    by code_simp
  from requeue_while_driving [OF plain_laws run [unfolded reported_run_def] 1] 2 run
  show ?thesis by (auto simp: Second_def split: if_splits)
qed

end
