(* ===== verification/Migration_Spec.thy ===== *)
theory Migration_Spec
  imports Storage_Migration
begin

text \<open>
  What the storage migration promises, as a machine over the one StorageVersionMigration object:
  absent, or at some attempt and running, failed or done. The reconciler's step refines it; the
  bound on recreated migrations is a property of its runs.
\<close>

section \<open>The machine\<close>

datatype migration = Absent | Running int | FailedAt int | DoneAt int

datatype move = Idle | Create | Retry | Lost | MigratorFails | MigratorSucceeds

inductive move_step :: "move \<Rightarrow> migration \<Rightarrow> migration \<Rightarrow> bool" where
  idle: "move_step Idle m m"
| create: "move_step Create Absent (Running 1)"
| retry: "n < maxStorageMigrationRetries \<Longrightarrow> move_step Retry (FailedAt n) (Running (n + 1))"
| lost: "n < maxStorageMigrationRetries \<Longrightarrow> move_step Lost (FailedAt n) Absent"
| fails: "move_step MigratorFails (Running n) (FailedAt n)"
| succeeds: "move_step MigratorSucceeds (Running n) (DoneAt n)"

inductive_cases step_from_done: "move_step mv (DoneAt n) m"
inductive_simps move_step_simps [simp]:
  "move_step Idle m m'" "move_step Create m m'" "move_step Retry m m'" "move_step Lost m m'"

inductive moves :: "migration \<Rightarrow> move list \<Rightarrow> migration \<Rightarrow> bool" where
  start: "moves m [] m"
| move: "moves m ls m' \<Longrightarrow> move_step mv m' m'' \<Longrightarrow> moves m (ls @ [mv]) m''"

definition operator_move :: "move \<Rightarrow> bool" where
  "operator_move mv \<longleftrightarrow> mv \<in> {Idle, Create, Retry, Lost}"

fun attempt_no :: "migration \<Rightarrow> int" where
  "attempt_no Absent = 0"
| "attempt_no (Running n) = n"
| "attempt_no (FailedAt n) = n"
| "attempt_no (DoneAt n) = n"

definition creations :: "move list \<Rightarrow> nat" where
  "creations ls = length (filter (\<lambda>mv. mv = Create \<or> mv = Retry) ls)"

definition losses :: "move list \<Rightarrow> nat" where
  "losses ls = length (filter (\<lambda>mv. mv = Lost) ls)"

text \<open>
  The attempt stamped on the object counts the creations since the object was last absent, and
  never exceeds the budget.
\<close>

lemma moves_budget:
  "moves m ls m' \<Longrightarrow> m = Absent \<Longrightarrow>
     0 \<le> attempt_no m' \<and> attempt_no m' \<le> maxStorageMigrationRetries \<and>
     int (creations ls) \<le> maxStorageMigrationRetries * int (losses ls) + attempt_no m'"
proof (induction rule: moves.induct)
  case (start m)
  then show ?case by (simp add: creations_def losses_def maxStorageMigrationRetries_def)
next
  case (move m ls m' mv m'')
  from move.hyps(2) move.IH [OF move.prems] show ?case
    by cases (auto simp: creations_def losses_def maxStorageMigrationRetries_def)
qed

lemma done_stays: "move_step mv (DoneAt n) m \<Longrightarrow> m = DoneAt n"
  by (auto elim: step_from_done)

section \<open>The object in the cluster\<close>

definition abs_migration :: "unstructured_api \<Rightarrow> gmap option \<Rightarrow> migration" where
  "abs_migration U svm =
     (case svm of
        None \<Rightarrow> Absent
      | Some obj \<Rightarrow>
          if migrationConditionTrue U obj svmConditionSucceeded then DoneAt (storageMigrationAttempt U obj)
          else if migrationConditionTrue U obj svmConditionFailed
            then FailedAt (storageMigrationAttempt U obj)
          else Running (storageMigrationAttempt U obj))"

text \<open>A new migration is stored with its attempt and without conditions.\<close>

definition stored_as :: "unstructured_api \<Rightarrow> gmap \<Rightarrow> gmap option \<Rightarrow> bool" where
  "stored_as U obj svm \<longleftrightarrow>
     (\<exists>obj'. svm = Some obj' \<and> storageMigrationAttempt U obj' = storageMigrationAttempt U obj \<and>
        (\<forall>t. \<not> migrationConditionTrue U obj' t))"

text \<open>
  The API server's contract for the object \<open>svm w\<close> of the world: reads return it and change
  nothing; a create that succeeds found it absent and stores it, a delete that succeeds removes
  it; a call that fails either had no effect or its whole effect (a lost response).
\<close>

definition migration_store :: "'w kube \<Rightarrow> unstructured_api \<Rightarrow> ('w \<Rightarrow> gmap option) \<Rightarrow> bool" where
  "migration_store K U svm \<longleftrightarrow>
     (\<forall>gv w. svm (snd (k_ServerResources K gv w)) = svm w) \<and>
     (\<forall>w r w'. k_Get K storageVersionMigrationGVR [] storageMigrationName w = (r, w') \<longrightarrow>
        svm w' = svm w \<and>
        (case r of Inr obj \<Rightarrow> svm w = Some obj | Inl e \<Rightarrow> k_IsNotFound K e \<longrightarrow> svm w = None)) \<and>
     (\<forall>obj w r w'. str_field obj [''metadata'', ''namespace''] = [] \<longrightarrow>
        str_field obj [''metadata'', ''name''] = storageMigrationName \<longrightarrow>
        k_Create K storageVersionMigrationGVR obj w = (r, w') \<longrightarrow>
        (if r = None then svm w = None \<and> stored_as U obj (svm w')
         else svm w' = svm w \<or> svm w = None \<and> stored_as U obj (svm w'))) \<and>
     (\<forall>w r w'. k_Delete K storageVersionMigrationGVR storageMigrationName w = (r, w') \<longrightarrow>
        (case r of
           None \<Rightarrow> svm w' = None
         | Some e \<Rightarrow> (svm w' = svm w \<or> svm w' = None) \<and> (k_IsNotFound K e \<longrightarrow> svm w = None)))"

locale migration_cluster = unstructured_lib U for U +
  fixes K :: "'w kube" and svm :: "'w \<Rightarrow> gmap option"
  assumes store: "migration_store K U svm"
begin

lemma svm_discover: "storageMigrationAPIServed K w = (b, w') \<Longrightarrow> svm w' = svm w"
  using store unfolding migration_store_def storageMigrationAPIServed_def
  by (auto split: prod.splits sum.splits) (metis snd_conv)+

lemma svm_get:
  "k_Get K storageVersionMigrationGVR [] storageMigrationName w = (r, w') \<Longrightarrow> svm w' = svm w"
  "k_Get K storageVersionMigrationGVR [] storageMigrationName w = (Inr obj, w') \<Longrightarrow> svm w = Some obj"
  "k_Get K storageVersionMigrationGVR [] storageMigrationName w = (Inl e, w') \<Longrightarrow>
     k_IsNotFound K e \<Longrightarrow> svm w = None"
  using store unfolding migration_store_def by (fastforce split: sum.splits)+

lemma svm_delete:
  "deleteStorageMigration K w = (None, w') \<Longrightarrow> svm w' = None"
  "deleteStorageMigration K w = (Some e, w') \<Longrightarrow> svm w' = svm w \<or> svm w' = None"
  "deleteStorageMigration K w = (Some e, w') \<Longrightarrow> k_IsNotFound K e \<Longrightarrow> svm w = None"
  using store unfolding migration_store_def deleteStorageMigration_def by (fastforce split: option.splits)+

lemma attempt_stamped: "in_int64 n \<Longrightarrow> storageMigrationAttempt U (migrationObject cr n) = n"
proof -
  assume n: "in_int64 n"
  have "field (VMap (migrationObject cr n)) [''metadata'', ''annotations''] =
      Some (VMap (map (\<lambda>(k, s). (k, VStr s)) [(storageMigrationAttemptAnnotation, Itoa n)]))"
    by (simp add: migrationObject_def)
  from annotations_read [OF this] obtain b where "u_GetAnnotations U (migrationObject cr n) = Some b"
    and "map_of b = map_of [(storageMigrationAttemptAnnotation, Itoa n)]" by blast
  then show ?thesis using n by (simp add: storageMigrationAttempt_def)
qed

lemma attempt_range: "in_int64 (storageMigrationAttempt U obj)"
  by (auto simp: storageMigrationAttempt_def Atoi_def in_int64_def split: option.splits if_splits)

lemma object_names:
  "str_field (migrationObject cr n) [''metadata'', ''namespace''] = []"
  "str_field (migrationObject cr n) [''metadata'', ''name''] = storageMigrationName"
  by (simp_all add: str_field_def migrationObject_def)

lemma abs_stored:
  "stored_as U (migrationObject cr n) s \<Longrightarrow> in_int64 n \<Longrightarrow> abs_migration U s = Running n"
  by (auto simp: stored_as_def abs_migration_def attempt_stamped)

lemma create_abs:
  assumes "createStorageMigration K cm n cr w = (res, cr', w')" and "in_int64 n" and "svm w = None"
  shows "abs_migration U (svm w') = Running n \<or> abs_migration U (svm w') = Absent"
proof -
  obtain r w1 where c: "k_Create K storageVersionMigrationGVR (migrationObject cr n) w = (r, w1)"
    by fastforce
  with assms(1) have "w' = w1"
    by (auto simp: createStorageMigration_def split: option.splits if_splits)
  moreover have "svm w1 = svm w \<or> stored_as U (migrationObject cr n) (svm w1)"
    using store c object_names unfolding migration_store_def by metis
  ultimately show ?thesis
    using abs_stored [OF _ assms(2)] assms(3) by (auto simp: abs_migration_def)
qed

lemma operator_moves:
  "m = Absent \<Longrightarrow> m' = Running 1 \<or> m' = Absent \<Longrightarrow> \<exists>mv. operator_move mv \<and> move_step mv m m'"
  "m = FailedAt n \<Longrightarrow> n < maxStorageMigrationRetries \<Longrightarrow>
     m' = Running (n + 1) \<or> m' = Absent \<or> m' = m \<Longrightarrow> \<exists>mv. operator_move mv \<and> move_step mv m m'"
  unfolding operator_move_def by (blast intro: move_step.intros)+

lemma absent_create:
  assumes "svm w = None" and "createStorageMigration K cm 1 cr w = (res, cr', w')"
  shows "\<exists>mv. operator_move mv \<and> move_step mv (abs_migration U (svm w)) (abs_migration U (svm w'))"
proof -
  have "abs_migration U (svm w') = Running 1 \<or> abs_migration U (svm w') = Absent"
    using assms by (intro create_abs) (auto simp: in_int64_def)
  moreover have "abs_migration U (svm w) = Absent"
    using assms(1) by (simp add: abs_migration_def)
  ultimately show ?thesis by (rule operator_moves(1) [rotated])
qed

lemma retry_create:
  assumes "createStorageMigration K cm (n + 1) cr w = (res, cr', w')" and "svm w = None"
    and "in_int64 n" and "n < maxStorageMigrationRetries"
  shows "\<exists>mv. operator_move mv \<and> move_step mv (FailedAt n) (abs_migration U (svm w'))"
proof -
  have "in_int64 (n + 1)" using assms(3,4) by (auto simp: in_int64_def maxStorageMigrationRetries_def)
  from create_abs [OF assms(1) this assms(2)] assms(4) show ?thesis
    by (intro operator_moves(2)) auto
qed

lemma idle_move: "\<exists>mv. operator_move mv \<and> move_step mv m m"
  by (rule exI [of _ Idle]) (simp add: operator_move_def)

lemma observe_refines:
  assumes "observeStorageMigration K U cm obj cr w = (res, cr', w')" and obj: "svm w = Some obj"
  shows "\<exists>mv. operator_move mv \<and> move_step mv (abs_migration U (svm w)) (abs_migration U (svm w'))"
proof (cases "migrationConditionTrue U obj svmConditionSucceeded \<or>
    \<not> migrationConditionTrue U obj svmConditionFailed \<or>
    maxStorageMigrationRetries \<le> storageMigrationAttempt U obj")
  case True
  with assms(1) have "w' = w" by (auto simp: observeStorageMigration_def Let_def split: if_splits)
  then show ?thesis using idle_move by simp
next
  case False
  define n where "n = storageMigrationAttempt U obj"
  have abs: "abs_migration U (svm w) = FailedAt n" and n: "n < maxStorageMigrationRetries"
    using False obj by (auto simp: abs_migration_def n_def)
  obtain r w1 where d: "deleteStorageMigration K w = (r, w1)" by fastforce
  show ?thesis
  proof (cases "r = None")
    case True
    with assms(1) False d have "createStorageMigration K cm (n + 1) cr w1 = (res, cr', w')"
      by (auto simp: observeStorageMigration_def Let_def n_def)
    moreover have "svm w1 = None" using svm_delete(1) d True by blast
    ultimately show ?thesis using retry_create attempt_range n abs n_def by metis
  next
    case False
    then obtain e where r: "r = Some e" by blast
    have "\<not> k_IsNotFound K e" using svm_delete(3) [of w e w1] d r obj by auto
    with assms(1) d r \<open>\<not> (_ \<or> _ \<or> _)\<close> have "w' = w1"
      by (auto simp: observeStorageMigration_def Let_def)
    moreover have "svm w1 = svm w \<or> svm w1 = None" using svm_delete(2) [of w e w1] d r by simp
    ultimately have "abs_migration U (svm w') = Absent \<or> abs_migration U (svm w') = FailedAt n"
      using abs by (auto simp: abs_migration_def)
    then show ?thesis using abs n by (intro operator_moves(2)) auto
  qed
qed

lemma reconcile_refines:
  assumes "reconcileStorageMigration K U cm cr w = (res, cr', w')"
  shows "\<exists>mv. operator_move mv \<and> move_step mv (abs_migration U (svm w)) (abs_migration U (svm w'))"
proof (cases "storageMigrationSettled (cm_lib cm) cr")
  case True
  with assms show ?thesis using idle_move by (simp add: reconcileStorageMigration_def)
next
  case False
  obtain b w1 where d: "storageMigrationAPIServed K w = (b, w1)" by fastforce
  obtain r w2 where g: "k_Get K storageVersionMigrationGVR [] storageMigrationName w1 = (r, w2)" by fastforce
  have s1: "svm w1 = svm w" using svm_discover d by blast
  have s2: "svm w2 = svm w" using svm_get(1) g s1 by simp
  show ?thesis
  proof (cases b)
    case False
    with assms d \<open>\<not> storageMigrationSettled (cm_lib cm) cr\<close> have "w' = w1"
      by (simp add: reconcileStorageMigration_def)
    then show ?thesis using s1 idle_move by simp
  next
    case True
    show ?thesis
    proof (cases r)
      case (Inl e)
      show ?thesis
      proof (cases "k_IsNotFound K e")
        case True
        with assms d g Inl \<open>b\<close> False have "createStorageMigration K cm 1 cr w2 = (res, cr', w')"
          by (simp add: reconcileStorageMigration_def)
        moreover have "svm w2 = None" using svm_get(3) g Inl True s1 s2 by metis
        ultimately show ?thesis using absent_create s2 by metis
      next
        case nf: False
        with assms d g Inl \<open>b\<close> False have "w' = w2" by (simp add: reconcileStorageMigration_def)
        then show ?thesis using s2 idle_move by simp
      qed
    next
      case (Inr obj)
      with assms d g \<open>b\<close> False have "observeStorageMigration K U cm obj cr w2 = (res, cr', w')"
        by (simp add: reconcileStorageMigration_def)
      moreover have "svm w2 = Some obj" using svm_get(2) g Inr s1 s2 by metis
      ultimately show ?thesis using observe_refines s2 by metis
    qed
  qed
qed

end

section \<open>Runs of the reconciler and the migrator\<close>

text \<open>
  A run alternates reconciler steps, on any resource and generation, with moves of the migrator,
  which may also change anything else in the world. It counts the migrations the reconciler made
  (a running one where none was running) and the objects it lost.
\<close>

fun is_running :: "migration \<Rightarrow> bool" where
  "is_running (Running n) = True"
| "is_running _ = False"

definition newly_created :: "migration \<Rightarrow> migration \<Rightarrow> nat" where
  "newly_created m m' = (if \<not> is_running m \<and> is_running m' then 1 else 0)"

definition newly_lost :: "migration \<Rightarrow> migration \<Rightarrow> nat" where
  "newly_lost m m' = (if m \<noteq> Absent \<and> m' = Absent then 1 else 0)"

inductive driven ::
    "'w kube \<Rightarrow> unstructured_api \<Rightarrow> ('w \<Rightarrow> gmap option) \<Rightarrow> 'w \<Rightarrow> nat \<Rightarrow> nat \<Rightarrow> 'w \<Rightarrow> bool"
  for K U svm w where
  begin_run: "driven K U svm w 0 0 w"
| reconciler_step: "driven K U svm w c l w1 \<Longrightarrow>
    reconcileStorageMigration K U cm cr w1 = (res, cr', w2) \<Longrightarrow>
    driven K U svm w
      (c + newly_created (abs_migration U (svm w1)) (abs_migration U (svm w2)))
      (l + newly_lost (abs_migration U (svm w1)) (abs_migration U (svm w2))) w2"
| migrator_step: "driven K U svm w c l w1 \<Longrightarrow> mv \<in> {Idle, MigratorFails, MigratorSucceeds} \<Longrightarrow>
    move_step mv (abs_migration U (svm w1)) (abs_migration U (svm w2)) \<Longrightarrow>
    driven K U svm w c l w2"

lemma step_counts:
  "move_step mv m m' \<Longrightarrow> operator_move mv \<Longrightarrow>
     creations (ls @ [mv]) = creations ls + newly_created m m' \<and> losses (ls @ [mv]) = losses ls + newly_lost m m'"
  by (cases rule: move_step.cases)
    (auto simp: creations_def losses_def newly_created_def newly_lost_def operator_move_def split: migration.splits)

lemma migrator_counts:
  "mv \<in> {Idle, MigratorFails, MigratorSucceeds} \<Longrightarrow>
     creations (ls @ [mv]) = creations ls \<and> losses (ls @ [mv]) = losses ls"
  by (auto simp: creations_def losses_def)

text \<open>By refinement a run of the reconciler is a run of the machine, with the same counts.\<close>

lemma driven_moves:
  assumes "migration_cluster U K svm" and "driven K U svm w c l w'"
  shows "\<exists>ls. moves (abs_migration U (svm w)) ls (abs_migration U (svm w')) \<and> creations ls = c \<and> losses ls = l"
  using assms(2)
proof (induction rule: driven.induct)
  case begin_run
  have "creations [] = 0 \<and> losses [] = 0" by (simp add: creations_def losses_def)
  then show ?case using moves.start by blast
next
  case (reconciler_step c l w1 cm cr res cr' w2)
  from migration_cluster.reconcile_refines [OF assms(1) reconciler_step.hyps(2)] obtain mv
    where "operator_move mv" and "move_step mv (abs_migration U (svm w1)) (abs_migration U (svm w2))" by blast
  with reconciler_step.IH moves.move step_counts show ?case by metis
next
  case (migrator_step c l w1 mv w2)
  with moves.move migrator_counts show ?case by metis
qed

section \<open>The contract on the evaluating cluster\<close>

definition cluster_svm :: "cluster \<Rightarrow> gmap option" where
  "cluster_svm w = map_of (cl_objects w) (storageVersionMigrationGVR, [], storageMigrationName)"

lemma called_objects [simp]: "cl_objects (called v w) = cl_objects w"
  by (simp add: called_def)

lemma fault_code: "fault v w = Some e \<Longrightarrow> code_of e \<noteq> 404"
  by (auto simp: fault_def split: option.splits if_splits)

lemma no_status: "\<not> migrationConditionTrue json_unstructured (AList.delete ''status'' obj) t"
  by (auto simp: migrationConditionTrue_def findMigrationCondition_def json_unstructured_def
      ref_nested_def split: option.splits sum.splits if_splits)

lemma attempt_no_status:
  "storageMigrationAttempt json_unstructured (AList.delete ''status'' obj) =
   storageMigrationAttempt json_unstructured obj"
proof -
  have "field (VMap (AList.delete ''status'' obj)) [''metadata'', ''annotations''] =
      field (VMap obj) [''metadata'', ''annotations'']"
    by simp
  from json.annotations_cong [OF this] show ?thesis by (simp add: storageMigrationAttempt_def)
qed

lemma simulated_create:
  assumes "cluster_create storageVersionMigrationGVR obj w = (r, w')"
    and "str_field obj [''metadata'', ''namespace''] = []"
    and "str_field obj [''metadata'', ''name''] = storageMigrationName"
  shows "if r = None then cluster_svm w = None \<and> stored_as json_unstructured obj (cluster_svm w')
    else cluster_svm w' = cluster_svm w"
  using assms
  by (auto simp: cluster_create_def cluster_svm_def stored_as_def no_status attempt_no_status Let_def
      split: option.splits if_splits)

lemma simulated_delete:
  assumes "cluster_delete storageVersionMigrationGVR storageMigrationName w = (r, w')"
  shows "case r of None \<Rightarrow> cluster_svm w' = None
    | Some e \<Rightarrow> cluster_svm w' = cluster_svm w \<and> (code_of e = 404 \<longrightarrow> cluster_svm w = None)"
  using assms
  by (auto simp: cluster_delete_def cluster_svm_def delete_conv' dest: fault_code
      split: option.splits if_splits)

lemma simulated_get:
  assumes "reading ''get'' (\<lambda>w. lookup_in (cl_objects w) (storageVersionMigrationGVR, [], storageMigrationName)) w
    = (r, w')"
  shows "cluster_svm w' = cluster_svm w \<and>
    (case r of Inr obj \<Rightarrow> cluster_svm w = Some obj | Inl e \<Rightarrow> code_of e = 404 \<longrightarrow> cluster_svm w = None)"
  using assms
  by (auto simp: reading_def lookup_in_def cluster_svm_def dest: fault_code split: option.splits sum.splits)

lemma simulated_store: "migration_store simulated json_unstructured cluster_svm"
proof -
  have discover: "cluster_svm (snd (k_ServerResources simulated gv w)) = cluster_svm w" for gv w
    by (simp add: simulated_def reading_def cluster_svm_def)
  have get: "k_Get simulated storageVersionMigrationGVR [] storageMigrationName =
      reading ''get'' (\<lambda>w. lookup_in (cl_objects w) (storageVersionMigrationGVR, [], storageMigrationName))"
    and nf: "k_IsNotFound simulated e \<longleftrightarrow> code_of e = 404"
    and create: "k_Create simulated = cluster_create"
    and delete: "k_Delete simulated = cluster_delete" for e
    by (simp_all add: simulated_def)
  show ?thesis
    unfolding migration_store_def get nf create delete
  proof (intro conjI allI impI, goal_cases)
    case (4 obj w r w')
    from simulated_create [OF 4(3,1,2)] show ?case by (simp split: if_splits)
  next
    case (5 w r w')
    from simulated_delete [OF 5] show ?case by (simp split: option.splits)
  qed (use discover simulated_get in \<open>blast+\<close>)
qed

interpretation simulated_migration: migration_cluster json_unstructured simulated cluster_svm
  by unfold_locales (rule simulated_store)

section \<open>Properties\<close>

text \<open>
  C7: Against any API server that keeps its contract for the migration object, one step of the
  reconciler is one move of the machine: it creates attempt 1 when the object is absent, replaces
  a failed attempt by the next one below the limit, loses a failed object if the recreation fails,
  and otherwise leaves it alone. It never touches a running or a completed migration.
\<close>

theorem storage_migration_refines_machine:
  assumes "unstructured_laws U" and "migration_store K U svm"
    and "reconcileStorageMigration K U cm cr w = (res, cr', w')"
  shows "\<exists>mv. operator_move mv \<and> move_step mv (abs_migration U (svm w)) (abs_migration U (svm w'))"
  using migration_cluster.reconcile_refines [OF migration_cluster.intro [OF unstructured_lib.intro [OF assms(1)]
      migration_cluster_axioms.intro [OF assms(2)]] assms(3)] .

theorem storage_migration_refines_machine_witness:
  "\<exists>res cr' w' mv. reported_run svmConditionFailed 2 = (res, cr', w') \<and>
     move_step mv (FailedAt 2) (abs_migration json_unstructured (cluster_svm w')) \<and> operator_move mv"
proof -
  obtain res cr' w' where run: "reported_run svmConditionFailed 2 = (res, cr', w')" by (metis prod_cases3)
  have "abs_migration json_unstructured (cluster_svm (reported svmConditionFailed 2)) = FailedAt 2"
    by code_simp
  with storage_migration_refines_machine [OF json_unstructured_laws simulated_store run [unfolded reported_run_def]] run
  show ?thesis by auto
qed

text \<open>
  C11: Retries are bounded. In any run that starts without the object and interleaves reconciler
  steps, on whatever resources and generations, with moves of the migrator, the attempt on the
  object never exceeds five, and the migrations created number at most five for each time the
  object was lost, and five more.
\<close>

theorem migrations_created_bounded:
  assumes "unstructured_laws U" and "migration_store K U svm"
    and "driven K U svm w created lost w'" and "svm w = None"
  shows "attempt_no (abs_migration U (svm w')) \<le> 5 \<and> created \<le> 5 * (1 + lost)"
proof -
  have "migration_cluster U K svm"
    using assms(1,2) by (intro migration_cluster.intro unstructured_lib.intro migration_cluster_axioms.intro)
  from driven_moves [OF this assms(3)] obtain ls
    where "moves (abs_migration U (svm w)) ls (abs_migration U (svm w'))" "creations ls = created" "losses ls = lost"
    by blast
  moreover have "abs_migration U (svm w) = Absent" using assms(4) by (simp add: abs_migration_def)
  ultimately have "attempt_no (abs_migration U (svm w')) \<le> 5 \<and>
      int created \<le> 5 * int lost + attempt_no (abs_migration U (svm w'))"
    using moves_budget by (metis maxStorageMigrationRetries_def)
  then show ?thesis by auto
qed

definition served_cluster :: cluster where
  "served_cluster = empty_cluster\<lparr>
     cl_served := [(''migration.k8s.io/v1alpha1'', [''storageversionmigrations''])]\<rparr>"

theorem migrations_created_bounded_witness:
  "\<exists>w'. driven simulated json_unstructured cluster_svm served_cluster 1 0 w' \<and>
     attempt_no (abs_migration json_unstructured (cluster_svm w')) \<le> 5"
proof -
  obtain res cr' w' where run: "reconcileStorageMigration simulated json_unstructured plain_manager plain_cr
      served_cluster = (res, cr', w')" by (metis prod_cases3)
  have "abs_migration json_unstructured (cluster_svm served_cluster) = Absent" by code_simp
  moreover have "abs_migration json_unstructured (cluster_svm (snd (snd
      (reconcileStorageMigration simulated json_unstructured plain_manager plain_cr served_cluster)))) = Running 1"
    by code_simp
  ultimately have "driven simulated json_unstructured cluster_svm served_cluster 1 0 w'"
    using reconciler_step [OF begin_run run, of cluster_svm] run by (simp add: newly_created_def newly_lost_def)
  moreover have "cluster_svm served_cluster = None" by code_simp
  ultimately show ?thesis
    using migrations_created_bounded [OF json_unstructured_laws simulated_store] by blast
qed

text \<open>
  The attempt counter survives being stored: the attempt stamped on a migration object is read
  back, for every machine integer.
\<close>

theorem attempt_round_trip:
  assumes "unstructured_laws U" and "in_int64 n"
  shows "storageMigrationAttempt U (migrationObject cr n) = n"
proof -
  have "field (VMap (migrationObject cr n)) [''metadata'', ''annotations''] =
      Some (VMap (map (\<lambda>(k, s). (k, VStr s)) [(storageMigrationAttemptAnnotation, Itoa n)]))"
    by (simp add: migrationObject_def)
  from unstructured_lib.annotations_read [OF unstructured_lib.intro [OF assms(1)] this] obtain b
    where "u_GetAnnotations U (migrationObject cr n) = Some b"
      and "map_of b = map_of [(storageMigrationAttemptAnnotation, Itoa n)]" by blast
  then show ?thesis using assms(2) by (simp add: storageMigrationAttempt_def)
qed

theorem attempt_round_trip_witness:
  "storageMigrationAttempt json_unstructured (migrationObject plain_cr (- 12)) = - 12"
  by (rule attempt_round_trip) (simp_all add: json_unstructured_laws in_int64_def)

section \<open>The lost recreation\<close>

context migration_cluster
begin

text \<open>A step that changes the object read it first, or read that there is none.\<close>

lemma changing_step:
  assumes "reconcileStorageMigration K U cm cr w = (res, cr', w')" and "svm w' \<noteq> svm w"
  obtains (create) w2 where "svm w2 = svm w" and "svm w = None"
      and "createStorageMigration K cm 1 cr w2 = (res, cr', w')"
    | (observe) w2 obj where "svm w2 = svm w" and "svm w = Some obj"
      and "observeStorageMigration K U cm obj cr w2 = (res, cr', w')"
proof -
  obtain b w1 where 1: "storageMigrationAPIServed K w = (b, w1)" by fastforce
  obtain r w2 where 2: "k_Get K storageVersionMigrationGVR [] storageMigrationName w1 = (r, w2)" by fastforce
  have same: "svm w1 = svm w" "svm w2 = svm w" using svm_discover [OF 1] svm_get(1) [OF 2] by simp_all
  have unsettled: "\<not> storageMigrationSettled (cm_lib cm) cr" and b
    using assms same 1 by (auto simp: reconcileStorageMigration_def split: if_splits)
  show thesis
  proof (cases r)
    case (Inl e)
    with assms same 1 2 unsettled \<open>b\<close> have nf: "k_IsNotFound K e"
      and c: "createStorageMigration K cm 1 cr w2 = (res, cr', w')"
      by (auto simp: reconcileStorageMigration_def split: if_splits)
    from svm_get(3) [OF 2 [unfolded Inl] nf] same create c show thesis by simp
  next
    case (Inr obj)
    with assms(1) 1 2 unsettled \<open>b\<close> have "observeStorageMigration K U cm obj cr w2 = (res, cr', w')"
      by (simp add: reconcileStorageMigration_def)
    with svm_get(2) [OF 2 [unfolded Inr]] same observe show thesis by simp
  qed
qed

text \<open>
  A failed attempt whose object is gone after the step: it was deleted, and its recreation was
  refused, or not tried because the response to the delete was lost.
\<close>

lemma losing_step:
  assumes "reconcileStorageMigration K U cm cr w = (res, cr', w')"
    and failed: "abs_migration U (svm w) = FailedAt n" and "svm w' = None"
  shows "n < 5 \<and> RequeueAfter res = storageMigrationRequeueDelay \<and>
    (\<exists>w2. svm w2 = svm w \<and>
      ((\<exists>w3 e. k_Delete K storageVersionMigrationGVR storageMigrationName w2 = (None, w3) \<and>
         k_Create K storageVersionMigrationGVR (migrationObject cr (n + 1)) w3 = (Some e, w')) \<or>
       (\<exists>e. k_Delete K storageVersionMigrationGVR storageMigrationName w2 = (Some e, w'))))"
proof -
  from failed have there: "svm w \<noteq> None" by (cases "svm w") (simp_all add: abs_migration_def)
  then have "svm w' \<noteq> svm w" using assms(3) by metis
  from assms(1) this show ?thesis
  proof (cases rule: changing_step)
    case (create w2)
    with there show ?thesis by simp
  next
    case (observe w2 obj)
    with failed have state: "\<not> migrationConditionTrue U obj svmConditionSucceeded"
      "migrationConditionTrue U obj svmConditionFailed" "storageMigrationAttempt U obj = n"
      by (auto simp: abs_migration_def split: if_splits)
    obtain r w3 where d: "deleteStorageMigration K w2 = (r, w3)" by fastforce
    note run = observe(3) [unfolded observeStorageMigration_def Let_def state(3), simplified state(1,2)]
    from run observe(1) there assms(3) have n: "n < maxStorageMigrationRetries" by (auto split: if_splits)
    show ?thesis
    proof (cases r)
      case None
      obtain c w4 where c: "k_Create K storageVersionMigrationGVR (migrationObject cr (n + 1)) w3 = (c, w4)"
        by fastforce
      from run n d None have create: "createStorageMigration K cm (n + 1) cr w3 = (res, cr', w')" by simp
      then have w4: "w4 = w'" and res: "RequeueAfter res = storageMigrationRequeueDelay"
        using c by (auto simp: createStorageMigration_def requeueIn_def split: option.splits if_splits)
      have "c \<noteq> None"
      proof
        assume "c = None"
        then have "stored_as U (migrationObject cr (n + 1)) (svm w')"
          using store c object_names unfolding migration_store_def w4 by metis
        with assms(3) show False by (simp add: stored_as_def)
      qed
      with c w4 d None n res observe(1) show ?thesis
        by (auto simp: deleteStorageMigration_def maxStorageMigrationRetries_def)
    next
      case (Some e)
      have "\<not> k_IsNotFound K e" using svm_delete(3) [OF d [unfolded Some]] observe(1) there by auto
      with run n d Some have "w' = w3" and "RequeueAfter res = storageMigrationRequeueDelay"
        by (auto simp: requeueIn_def)
      with d Some n observe(1) show ?thesis
        by (auto simp: deleteStorageMigration_def maxStorageMigrationRetries_def)
    qed
  qed
qed

lemma restarting_step:
  assumes "reconcileStorageMigration K U cm cr w = (res, cr', w')" and "svm w = None" and "svm w' \<noteq> None"
  shows "abs_migration U (svm w') = Running 1"
proof -
  from assms(2,3) have "svm w' \<noteq> svm w" by simp
  from assms(1) this show ?thesis
  proof (cases rule: changing_step)
    case (create w2)
    then have "abs_migration U (svm w') = Running 1 \<or> abs_migration U (svm w') = Absent"
      by (intro create_abs [OF create(3)]) (simp_all add: in_int64_def)
    with assms(3) show ?thesis by (auto simp: abs_migration_def split: if_splits)
  next
    case (observe w2 obj)
    with assms(2) show ?thesis by simp
  qed
qed

end

text \<open>
  C39: The budget is lost with the object. When a step finds a failed attempt and leaves no object
  behind, it deleted the failed one, within the budget, and the create of the next attempt was
  refused, or was not tried after an error of the delete; it asks for another step, and as long as
  the object is missing, the step that brings it back starts over at attempt 1, whatever attempt had
  failed.
\<close>

theorem lost_object_restarts_budget:
  assumes "unstructured_laws U" and "migration_store K U svm"
    and "abs_migration U (svm w) = FailedAt n"
    and "reconcileStorageMigration K U cm cr w = (res, cr1, w')" and "svm w' = None"
    and "svm v = None" and "reconcileStorageMigration K U cm' cr' v = (res', cr2, v')" and "svm v' \<noteq> None"
  shows "n < 5 \<and> RequeueAfter res \<noteq> 0 \<and>
    (\<exists>w2. svm w2 = svm w \<and>
      ((\<exists>w3 e. k_Delete K storageVersionMigrationGVR storageMigrationName w2 = (None, w3) \<and>
         k_Create K storageVersionMigrationGVR (migrationObject cr (n + 1)) w3 = (Some e, w')) \<or>
       (\<exists>e. k_Delete K storageVersionMigrationGVR storageMigrationName w2 = (Some e, w')))) \<and>
    abs_migration U (svm v') = Running 1"
proof -
  have loc: "migration_cluster U K svm"
    using assms(1,2) by (intro migration_cluster.intro unstructured_lib.intro migration_cluster_axioms.intro)
  from migration_cluster.losing_step [OF loc assms(4,3,5)] migration_cluster.restarting_step [OF loc assms(7,6,8)]
  show ?thesis by simp
qed

text \<open>The run of the witness: attempt 4 fails, its retry is deleted but not recreated, then created.\<close>

definition refusing_cluster :: cluster where
  "refusing_cluster = (reported svmConditionFailed 4)\<lparr>cl_faults := [(''create'', Message ''timeout'')]\<rparr>"

definition lost_cluster :: cluster where
  "lost_cluster = snd (snd
     (reconcileStorageMigration simulated json_unstructured plain_manager plain_cr refusing_cluster))"

definition answering_cluster :: cluster where
  "answering_cluster = lost_cluster\<lparr>cl_faults := []\<rparr>"

theorem lost_object_restarts_budget_witness:
  "abs_migration json_unstructured (cluster_svm refusing_cluster) = FailedAt 4 \<and>
   cluster_svm lost_cluster = None \<and>
   abs_migration json_unstructured (cluster_svm (snd (snd
     (reconcileStorageMigration simulated json_unstructured plain_manager plain_cr answering_cluster)))) = Running 1"
proof -
  obtain res cr1 w' where 1: "reconcileStorageMigration simulated json_unstructured plain_manager plain_cr
      refusing_cluster = (res, cr1, w')" by (metis prod_cases3)
  obtain res' cr2 v' where 2: "reconcileStorageMigration simulated json_unstructured plain_manager plain_cr
      answering_cluster = (res', cr2, v')" by (metis prod_cases3)
  have failed: "abs_migration json_unstructured (cluster_svm refusing_cluster) = FailedAt 4" by code_simp
  have lost: "cluster_svm lost_cluster = None" by code_simp
  moreover have "w' = lost_cluster" by (simp add: lost_cluster_def 1)
  ultimately have gone: "cluster_svm w' = None" by simp
  have still: "cluster_svm answering_cluster = None"
    using lost by (simp add: answering_cluster_def cluster_svm_def)
  have "cluster_svm (snd (snd (reconcileStorageMigration simulated json_unstructured plain_manager plain_cr
      answering_cluster))) \<noteq> None" by code_simp
  then have "cluster_svm v' \<noteq> None" by (simp add: 2)
  from lost_object_restarts_budget [OF json_unstructured_laws simulated_store failed 1 gone still 2 this]
    failed lost 2
  show ?thesis by simp
qed

end
