(* ===== verification/Go_JSON.thy ===== *)
theory Go_JSON
  imports Go_Prelude
begin

text \<open>
  How encoding/json fills a Go value from the syntax tree of a document: structs by field names,
  strings, integers, slices and maps of strings. The tree itself is what a parser of JSON yields,
  with the keys of an object in their order.
\<close>

text \<open>
  A JSON key selects the struct field whose name it equals up to case folding; besides the ASCII
  letters, the long s (bytes C5 BF) folds to s and the Kelvin sign (E2 84 AA) to k.
\<close>

definition fold_ascii :: "char \<Rightarrow> char" where
  "fold_ascii c = (let n = (of_char c :: nat) in if 65 \<le> n \<and> n \<le> 90 then char_of (n + 32) else c)"

fun fold_name :: "string \<Rightarrow> string" where
  "fold_name [] = []"
| "fold_name (c # cs) =
     (if HasPrefix (c # cs) [CHR 0xC5, CHR 0xBF] then CHR ''s'' # fold_name (drop 1 cs)
      else if HasPrefix (c # cs) [CHR 0xE2, CHR 0x84, CHR 0xAA] then CHR ''k'' # fold_name (drop 2 cs)
      else fold_ascii c # fold_name cs)"

definition json_key :: "string \<Rightarrow> string \<Rightarrow> bool" where
  "json_key k name \<longleftrightarrow> fold_name k = fold_name name"

definition json_mismatch :: gerror where
  "json_mismatch = Message ''json: cannot unmarshal value into Go struct field''"

text \<open>
  A null leaves what it is decoded into alone, an unknown key is ignored, and a value of the
  wrong kind makes the whole decoding fail.
\<close>

fun decode_fields :: "(string \<Rightarrow> gval \<Rightarrow> 'a \<Rightarrow> 'a result) \<Rightarrow> gmap \<Rightarrow> 'a \<Rightarrow> 'a result" where
  "decode_fields f [] acc = Inr acc"
| "decode_fields f ((k, v) # kvs) acc =
     (case f k v acc of Inl e \<Rightarrow> Inl e | Inr acc' \<Rightarrow> decode_fields f kvs acc')"

fun decode_struct :: "(string \<Rightarrow> gval \<Rightarrow> 'a \<Rightarrow> 'a result) \<Rightarrow> gval \<Rightarrow> 'a \<Rightarrow> 'a result" where
  "decode_struct f (VMap m) acc = decode_fields f m acc"
| "decode_struct f VNil acc = Inr acc"
| "decode_struct f _ acc = Inl json_mismatch"

fun decode_string :: "gval \<Rightarrow> string \<Rightarrow> string result" where
  "decode_string (VStr s) cur = Inr s"
| "decode_string VNil cur = Inr cur"
| "decode_string _ cur = Inl json_mismatch"

definition into :: "'b result \<Rightarrow> ('b \<Rightarrow> 'a) \<Rightarrow> 'a result" where
  "into r put = (case r of Inl e \<Rightarrow> Inl e | Inr b \<Rightarrow> Inr (put b))"

text \<open>An \<open>int\<close> takes a number of the machine's range.\<close>

definition decode_int :: "gval \<Rightarrow> int \<Rightarrow> int result" where
  "decode_int v cur =
     (case v of
        VInt n \<Rightarrow> if in_int64 n then Inr n else Inl json_mismatch
      | VNil \<Rightarrow> Inr cur
      | _ \<Rightarrow> Inl json_mismatch)"

text \<open>
  A slice takes as many elements as the array has. An element is decoded into the one the slice
  already has at that place, if a repeated key gave it one, else into the zero value.
\<close>

fun decode_elements :: "(gval \<Rightarrow> 'a \<Rightarrow> 'a result) \<Rightarrow> 'a \<Rightarrow> gval list \<Rightarrow> 'a list \<Rightarrow> 'a list result" where
  "decode_elements f zero [] cur = Inr []"
| "decode_elements f zero (v # vs) cur =
     (case f v (case cur of [] \<Rightarrow> zero | x # xs \<Rightarrow> x) of
        Inl e \<Rightarrow> Inl e
      | Inr y \<Rightarrow>
          (case decode_elements f zero vs (drop 1 cur) of Inl e \<Rightarrow> Inl e | Inr ys \<Rightarrow> Inr (y # ys)))"

definition decode_slice :: "(gval \<Rightarrow> 'a \<Rightarrow> 'a result) \<Rightarrow> 'a \<Rightarrow> gval \<Rightarrow> 'a list \<Rightarrow> 'a list result" where
  "decode_slice f zero v cur =
     (case v of
        VList vs \<Rightarrow> decode_elements f zero vs cur
      | VNil \<Rightarrow> Inr []
      | _ \<Rightarrow> Inl json_mismatch)"

text \<open>A \<open>map[string]string\<close> keeps the entries it has; a null value is stored as the empty string.\<close>

fun decode_entries :: "gmap \<Rightarrow> string go_map \<Rightarrow> string go_map result" where
  "decode_entries [] m = Inr m"
| "decode_entries ((k, v) # kvs) m =
     (case decode_string v [] of Inl e \<Rightarrow> Inl e | Inr s \<Rightarrow> decode_entries kvs (AList.update k s m))"

definition decode_string_map :: "gval \<Rightarrow> string go_map \<Rightarrow> string go_map result" where
  "decode_string_map v m =
     (case v of
        VMap kvs \<Rightarrow> decode_entries kvs m
      | VNil \<Rightarrow> Inr []
      | _ \<Rightarrow> Inl json_mismatch)"

end
