(* ===== verification/Gateway_Discovery.thy ===== *)
theory Gateway_Discovery
  imports Kube_Client Cluster Go_JSON
begin

text \<open>
  internal/controller/gateway_discovery.go: listing the MCPGatewayExtensions, resolving the
  listeners of the Gateway each one targets, and registering the two optional watches once their
  CRDs exist. The JSON text an object marshals to, its syntax tree and the decoding of the two
  Kubernetes types (\<open>metav1.Condition\<close>, \<open>gatewayv1.Gateway\<close>) are the parameter \<open>json_api\<close>; how
  encoding/json fills the structs of the sources from a syntax tree is written out.
\<close>

definition mcpGatewayExtensionCRDName :: string where
  "mcpGatewayExtensionCRDName = ''mcpgatewayextensions.mcp.kuadrant.io''"

definition gatewayCRDName :: string where
  "gatewayCRDName = ''gateways.gateway.networking.k8s.io''"

definition mcpGatewayExtensionGVR :: gvr where
  "mcpGatewayExtensionGVR = (''mcp.kuadrant.io'', ''v1'', ''mcpgatewayextensions'')"

definition gatewayGVR :: gvr where
  "gatewayGVR = (''gateway.networking.k8s.io'', ''v1'', ''gateways'')"

definition HTTPProtocolType :: string where "HTTPProtocolType = ''HTTP''"

section \<open>The decoded objects\<close>

record mcpGatewayExtensionTargetRef =
  tr_Name :: string
  tr_Namespace :: string
  tr_SectionName :: string

record mcpGatewayExtensionSpec =
  es_TargetRef :: mcpGatewayExtensionTargetRef

text \<open>Of a \<open>metav1.Condition\<close> the sources read the type and the status.\<close>

record mcpGatewayExtensionStatus =
  et_Conditions :: "(string \<times> string) list"

record mcpGatewayExtension =
  ext_Spec :: mcpGatewayExtensionSpec
  ext_Status :: mcpGatewayExtensionStatus

record gateway_listener =
  gl_name :: string
  gl_hostname :: "string option"
  gl_protocol :: string

record json_api =
  j_Marshal :: "gmap \<Rightarrow> go_bytes result"
  j_Parse :: "go_bytes \<Rightarrow> gval result"
  j_Conditions :: "gval \<Rightarrow> (string \<times> string) list result"
  j_Gateway :: "go_bytes \<Rightarrow> gateway_listener list result"

definition decode_targetRef ::
    "string \<Rightarrow> gval \<Rightarrow> mcpGatewayExtensionTargetRef \<Rightarrow> mcpGatewayExtensionTargetRef result" where
  "decode_targetRef k v t =
     (if json_key k ''name'' then into (decode_string v (tr_Name t)) (\<lambda>s. t\<lparr>tr_Name := s\<rparr>)
      else if json_key k ''namespace'' then into (decode_string v (tr_Namespace t)) (\<lambda>s. t\<lparr>tr_Namespace := s\<rparr>)
      else if json_key k ''sectionName''
        then into (decode_string v (tr_SectionName t)) (\<lambda>s. t\<lparr>tr_SectionName := s\<rparr>)
      else Inr t)"

definition decode_spec ::
    "string \<Rightarrow> gval \<Rightarrow> mcpGatewayExtensionSpec \<Rightarrow> mcpGatewayExtensionSpec result" where
  "decode_spec k v s =
     (if json_key k ''targetRef''
      then into (decode_struct decode_targetRef v (es_TargetRef s)) (\<lambda>t. s\<lparr>es_TargetRef := t\<rparr>)
      else Inr s)"

definition decode_status ::
    "json_api \<Rightarrow> string \<Rightarrow> gval \<Rightarrow> mcpGatewayExtensionStatus \<Rightarrow> mcpGatewayExtensionStatus result" where
  "decode_status J k v s =
     (if json_key k ''conditions'' then into (j_Conditions J v) (\<lambda>cs. s\<lparr>et_Conditions := cs\<rparr>)
      else Inr s)"

definition decode_ext ::
    "json_api \<Rightarrow> string \<Rightarrow> gval \<Rightarrow> mcpGatewayExtension \<Rightarrow> mcpGatewayExtension result" where
  "decode_ext J k v x =
     (if json_key k ''spec''
        then into (decode_struct decode_spec v (ext_Spec x)) (\<lambda>s. x\<lparr>ext_Spec := s\<rparr>)
      else if json_key k ''status''
        then into (decode_struct (decode_status J) v (ext_Status x)) (\<lambda>s. x\<lparr>ext_Status := s\<rparr>)
      else Inr x)"

definition zero_ext :: mcpGatewayExtension where
  "zero_ext = \<lparr>ext_Spec = \<lparr>es_TargetRef = \<lparr>tr_Name = [], tr_Namespace = [], tr_SectionName = []\<rparr>\<rparr>,
     ext_Status = \<lparr>et_Conditions = []\<rparr>\<rparr>"

definition unmarshalExtension :: "json_api \<Rightarrow> go_bytes \<Rightarrow> mcpGatewayExtension result" where
  "unmarshalExtension J raw =
     (case j_Parse J raw of Inl e \<Rightarrow> Inl e | Inr v \<Rightarrow> decode_struct (decode_ext J) v zero_ext)"

section \<open>Discovery\<close>

definition crdAvailable :: "'w kube \<Rightarrow> string \<Rightarrow> 'w \<Rightarrow> bool result \<times> 'w" where
  "crdAvailable K name w =
     (case k_GetCRD K name w of
        (Some err, w) \<Rightarrow> (if k_IsNotFound K err then (Inr False, w) else (Inl err, w))
      | (None, w) \<Rightarrow> (Inr True, w))"

fun isConditionTrue :: "(string \<times> string) list \<Rightarrow> string \<Rightarrow> bool" where
  "isConditionTrue [] condType = False"
| "isConditionTrue ((t, s) # cs) condType =
     (if t = condType then s = ConditionTrue else isConditionTrue cs condType)"

fun selectListeners :: "gateway_listener list \<Rightarrow> listener_ref list" where
  "selectListeners [] = []"
| "selectListeners (l # ls) =
     (case gl_hostname l of
        None \<Rightarrow> selectListeners ls
      | Some hostname \<Rightarrow>
          if HasPrefix hostname ''*.'' \<or> gl_protocol l = HTTPProtocolType \<and> hostname \<noteq> []
          then \<lparr>lr_name = gl_name l, lr_hostname = hostname\<rparr> # selectListeners ls
          else selectListeners ls)"

definition resolveGatewayListeners ::
    "'w kube \<Rightarrow> json_api \<Rightarrow> string \<Rightarrow> string \<Rightarrow> 'w \<Rightarrow> listener_ref list result \<times> 'w" where
  "resolveGatewayListeners K J namespace name w =
     (case k_Get K gatewayGVR namespace name w of
        (Inl err, w) \<Rightarrow>
          (if k_IsNotFound K err then (Inr [], w)
           else (Inl (Wrapped (''getting Gateway '' @ namespace @ ''/'' @ name) err), w))
      | (Inr obj, w) \<Rightarrow>
          (case j_Marshal J obj of
             Inl err \<Rightarrow> (Inl (Wrapped (''marshalling Gateway '' @ namespace @ ''/'' @ name) err), w)
           | Inr raw \<Rightarrow>
               (case j_Gateway J raw of
                  Inl err \<Rightarrow> (Inl (Wrapped (''unmarshalling Gateway '' @ namespace @ ''/'' @ name) err), w)
                | Inr ls \<Rightarrow> (Inr (selectListeners ls), w))))"

text \<open>\<open>decodeItem\<close> is \<open>None\<close> where the loop logs the error and continues with the next item.\<close>

definition decodeItem :: "json_api \<Rightarrow> gmap \<Rightarrow> mcpGatewayExtension option" where
  "decodeItem J item =
     (case j_Marshal J item of
        Inl err \<Rightarrow> None
      | Inr raw \<Rightarrow> (case unmarshalExtension J raw of Inl err \<Rightarrow> None | Inr ext \<Rightarrow> Some ext))"

definition targetNamespace :: "unstructured_api \<Rightarrow> gmap \<Rightarrow> mcpGatewayExtension \<Rightarrow> string" where
  "targetNamespace U item ext =
     (let gwNamespace = tr_Namespace (es_TargetRef (ext_Spec ext))
      in if gwNamespace = [] then u_GetNamespace U item else gwNamespace)"

definition gatewayInfo ::
    "unstructured_api \<Rightarrow> gmap \<Rightarrow> mcpGatewayExtension \<Rightarrow> listener_ref list \<Rightarrow> mcp_gateway_info" where
  "gatewayInfo U item ext listeners =
     \<lparr>gi_name = u_GetName U item,
      gi_namespace = u_GetNamespace U item,
      gi_ready = isConditionTrue (et_Conditions (ext_Status ext)) ''Ready'',
      gi_gateway = \<lparr>gr_name = tr_Name (es_TargetRef (ext_Spec ext)),
        gr_namespace = targetNamespace U item ext, gr_listeners = listeners\<rparr>\<rparr>"

fun discoverItems ::
    "'w kube \<Rightarrow> unstructured_api \<Rightarrow> json_api \<Rightarrow> gmap list \<Rightarrow> 'w \<Rightarrow> mcp_gateway_info list result \<times> 'w" where
  "discoverItems K U J [] w = (Inr [], w)"
| "discoverItems K U J (item # items) w =
     (case decodeItem J item of
        None \<Rightarrow> discoverItems K U J items w
      | Some ext \<Rightarrow>
          (case resolveGatewayListeners K J (targetNamespace U item ext)
                  (tr_Name (es_TargetRef (ext_Spec ext))) w of
             (Inl err, w) \<Rightarrow> (Inl err, w)
           | (Inr listeners, w) \<Rightarrow>
               (case discoverItems K U J items w of
                  (Inl err, w) \<Rightarrow> (Inl err, w)
                | (Inr infos, w) \<Rightarrow> (Inr (gatewayInfo U item ext listeners # infos), w))))"

definition discoverMCPGateways ::
    "'w kube \<Rightarrow> unstructured_api \<Rightarrow> json_api \<Rightarrow> 'w \<Rightarrow> mcp_gateway_info list result \<times> 'w" where
  "discoverMCPGateways K U J w =
     (case crdAvailable K mcpGatewayExtensionCRDName w of
        (Inl err, w) \<Rightarrow> (Inl (Wrapped ''checking MCPGatewayExtension CRD availability'' err), w)
      | (Inr available, w) \<Rightarrow>
          if \<not> available then (Inr [], w)
          else
            (case k_List K mcpGatewayExtensionGVR 0 [] w of
               (Inl err, w) \<Rightarrow> (Inl (Wrapped ''listing MCPGatewayExtensions'' err), w)
             | (Inr (items, token), w) \<Rightarrow> discoverItems K U J items w))"

section \<open>The optional watches\<close>

text \<open>
  The two \<open>sync.Once\<close> fields of the reconciler, and whether its controller and informer factory
  are set. A \<open>Once\<close> is spent by its first call, whatever the registration returned.
\<close>

record gateway_watches =
  gw_controller :: bool
  gw_informers :: bool
  gw_extension_once :: bool
  gw_gateway_once :: bool

definition registerWatch :: "'w kube \<Rightarrow> gvr \<Rightarrow> 'w \<Rightarrow> 'w" where
  "registerWatch K g w = (let w = k_Informer K g w; w = k_Start K w in snd (k_Watch K g w))"

definition tryRegisterGatewayWatches :: "'w kube \<Rightarrow> gateway_watches \<Rightarrow> 'w \<Rightarrow> gateway_watches \<times> 'w" where
  "tryRegisterGatewayWatches K r w =
     (if \<not> gw_controller r \<or> \<not> gw_informers r then (r, w)
      else
        (let (available, w) = crdAvailable K mcpGatewayExtensionCRDName w;
             (r, w) = (if available = Inr True \<and> \<not> gw_extension_once r
                       then (r\<lparr>gw_extension_once := True\<rparr>, registerWatch K mcpGatewayExtensionGVR w)
                       else (r, w));
             (available, w) = crdAvailable K gatewayCRDName w
         in (if available = Inr True \<and> \<not> gw_gateway_once r
             then (r\<lparr>gw_gateway_once := True\<rparr>, registerWatch K gatewayGVR w)
             else (r, w))))"

section \<open>Lemmas\<close>

text \<open>
  The listeners a route can use: a hostname that begins with a wildcard label, or any hostname with
  the protocol HTTP.
\<close>

definition usable_listener :: "gateway_listener \<Rightarrow> bool" where
  "usable_listener l \<longleftrightarrow>
     (case gl_hostname l of
        None \<Rightarrow> False
      | Some h \<Rightarrow> take 2 h = ''*.'' \<or> gl_protocol l = ''HTTP'' \<and> h \<noteq> [])"

definition listener_of :: "gateway_listener \<Rightarrow> listener_ref" where
  "listener_of l = \<lparr>lr_name = gl_name l, lr_hostname = the (gl_hostname l)\<rparr>"

lemma select_filter: "selectListeners ls = map listener_of (filter usable_listener ls)"
  by (induction ls) (auto simp: usable_listener_def listener_of_def HasPrefix_def HTTPProtocolType_def
      numeral_2_eq_2 split: option.splits)

text \<open>
  The listeners read for a target: those a route can use of the Gateway it names, none where there
  is no such Gateway.
\<close>

definition target_listeners ::
    "'w kube \<Rightarrow> json_api \<Rightarrow> string \<Rightarrow> string \<Rightarrow> listener_ref list \<Rightarrow> 'w \<Rightarrow> 'w \<Rightarrow> bool" where
  "target_listeners K J ns n refs w w' \<longleftrightarrow>
     (case k_Get K (''gateway.networking.k8s.io'', ''v1'', ''gateways'') ns n w of (answer, w1) \<Rightarrow>
        w' = w1 \<and>
        (case answer of
           Inl err \<Rightarrow> k_IsNotFound K err \<and> refs = []
         | Inr obj \<Rightarrow> \<exists>raw all. j_Marshal J obj = Inr raw \<and> j_Gateway J raw = Inr all \<and>
             refs = map listener_of (filter usable_listener all)))"

lemma resolved_listeners:
  assumes "resolveGatewayListeners K J ns n w = (Inr refs, w')"
  shows "target_listeners K J ns n refs w w'"
  using assms unfolding resolveGatewayListeners_def target_listeners_def gatewayGVR_def
  by (auto simp: select_filter split: prod.splits sum.splits if_splits)

text \<open>The entry of an extension, field by field; its first condition Ready decides whether it is ready.\<close>

definition describes :: "unstructured_api \<Rightarrow> gmap \<Rightarrow> mcpGatewayExtension \<Rightarrow> mcp_gateway_info \<Rightarrow> bool" where
  "describes U item ext info \<longleftrightarrow>
     gi_name info = u_GetName U item \<and> gi_namespace info = u_GetNamespace U item \<and>
     (gi_ready info \<longleftrightarrow> map_of (et_Conditions (ext_Status ext)) ''Ready'' = Some ''True'') \<and>
     gr_name (gi_gateway info) = tr_Name (es_TargetRef (ext_Spec ext)) \<and>
     (tr_Namespace (es_TargetRef (ext_Spec ext)) \<noteq> [] \<longrightarrow>
        gr_namespace (gi_gateway info) = tr_Namespace (es_TargetRef (ext_Spec ext))) \<and>
     (tr_Namespace (es_TargetRef (ext_Spec ext)) = [] \<longrightarrow>
        gr_namespace (gi_gateway info) = u_GetNamespace U item)"

lemma condition_true_map: "isConditionTrue cs t \<longleftrightarrow> map_of cs t = Some ''True''"
  by (induction cs t rule: isConditionTrue.induct) (auto simp: ConditionTrue_def)

lemma info_describes: "describes U item ext (gatewayInfo U item ext refs)"
  by (simp add: describes_def gatewayInfo_def targetNamespace_def Let_def condition_true_map)

text \<open>
  The extensions one after the other: one that does not marshal or decode is left out, every other
  one has an entry with the listeners read for the Gateway of that entry.
\<close>

inductive discovered ::
    "'w kube \<Rightarrow> unstructured_api \<Rightarrow> json_api \<Rightarrow> gmap list \<Rightarrow> mcp_gateway_info list \<Rightarrow> 'w \<Rightarrow> 'w \<Rightarrow> bool"
  for K U J where
  none: "discovered K U J [] [] w w"
| unreadable: "(\<And>raw ext. j_Marshal J item = Inr raw \<Longrightarrow> unmarshalExtension J raw \<noteq> Inr ext) \<Longrightarrow>
    discovered K U J items infos w w' \<Longrightarrow> discovered K U J (item # items) infos w w'"
| entry: "j_Marshal J item = Inr raw \<Longrightarrow> unmarshalExtension J raw = Inr ext \<Longrightarrow>
    describes U item ext info \<Longrightarrow>
    target_listeners K J (gr_namespace (gi_gateway info)) (gr_name (gi_gateway info))
      (gr_listeners (gi_gateway info)) w w1 \<Longrightarrow>
    discovered K U J items infos w1 w' \<Longrightarrow> discovered K U J (item # items) (info # infos) w w'"

lemma discover_items:
  "discoverItems K U J items w = (Inr infos, w') \<Longrightarrow> discovered K U J items infos w w'"
proof (induction items arbitrary: w infos)
  case Nil
  then show ?case by (simp add: none)
next
  case (Cons item items)
  show ?case
  proof (cases "decodeItem J item")
    case None
    then have "unmarshalExtension J raw \<noteq> Inr ext" if "j_Marshal J item = Inr raw" for raw ext
      using that by (simp add: decodeItem_def split: sum.splits)
    with Cons None show ?thesis by (auto intro: unreadable)
  next
    case (Some ext)
    with Cons.prems obtain refs w1 infos' where d: "discoverItems K U J items w1 = (Inr infos', w')"
      and i: "infos = gatewayInfo U item ext refs # infos'"
      and r: "resolveGatewayListeners K J (targetNamespace U item ext)
        (tr_Name (es_TargetRef (ext_Spec ext))) w = (Inr refs, w1)"
      by (auto split: prod.splits sum.splits)
    from Some obtain raw where "j_Marshal J item = Inr raw" "unmarshalExtension J raw = Inr ext"
      by (auto simp: decodeItem_def split: sum.splits)
    moreover have "target_listeners K J (gr_namespace (gi_gateway (gatewayInfo U item ext refs)))
        (gr_name (gi_gateway (gatewayInfo U item ext refs)))
        (gr_listeners (gi_gateway (gatewayInfo U item ext refs))) w w1"
      using resolved_listeners [OF r] by (simp add: gatewayInfo_def)
    ultimately show ?thesis unfolding i using info_describes Cons.IH [OF d] by (intro entry)
  qed
qed

section \<open>A JSON reading\<close>

text \<open>For evaluation: an object's text is looked up in a table of texts and their trees.\<close>

fun ref_conditions :: "gval list \<Rightarrow> (string \<times> string) list result" where
  "ref_conditions [] = Inr []"
| "ref_conditions (VMap c # vs) =
     (case ref_conditions vs of
        Inl e \<Rightarrow> Inl e
      | Inr cs \<Rightarrow> Inr ((str_field c [''type''], str_field c [''status'']) # cs))"
| "ref_conditions (v # vs) = Inl json_mismatch"

definition table_json :: "(gmap \<times> go_bytes) list \<Rightarrow> (go_bytes \<times> gateway_listener list) list \<Rightarrow> json_api" where
  "table_json texts gateways = \<lparr>
     j_Marshal = (\<lambda>obj. case map_of texts obj of None \<Rightarrow> Inl (Message ''marshal'') | Some t \<Rightarrow> Inr t),
     j_Parse = (\<lambda>t. case find (\<lambda>p. snd p = t) texts of None \<Rightarrow> Inl (Message ''syntax'')
                     | Some p \<Rightarrow> Inr (VMap (fst p))),
     j_Conditions = (\<lambda>v. case v of VList vs \<Rightarrow> ref_conditions vs | VNil \<Rightarrow> Inr [] | _ \<Rightarrow> Inl json_mismatch),
     j_Gateway = (\<lambda>t. case map_of gateways t of None \<Rightarrow> Inl (Message ''gateway'') | Some ls \<Rightarrow> Inr ls)\<rparr>"

section \<open>Properties\<close>

text \<open>
  C33: What discovery publishes: nothing where the CRD of the MCPGatewayExtensions does not exist;
  otherwise, for one list of all of them, one entry per extension that could be decoded, in the
  order of the list: its own name and namespace, whether its condition Ready is True, and its target
  Gateway, in the extension's own namespace if the target names none, with exactly the listeners of
  that Gateway a route can use: a wildcard hostname with any protocol, another one only with HTTP.
\<close>

theorem discovery_describes_extensions:
  assumes "discoverMCPGateways K U J w = (Inr infos, w')"
  shows "(\<exists>err. k_GetCRD K ''mcpgatewayextensions.mcp.kuadrant.io'' w = (Some err, w') \<and>
      k_IsNotFound K err \<and> infos = []) \<or>
    (\<exists>w1 items token w2. k_GetCRD K ''mcpgatewayextensions.mcp.kuadrant.io'' w = (None, w1) \<and>
      k_List K (''mcp.kuadrant.io'', ''v1'', ''mcpgatewayextensions'') 0 [] w1 = (Inr (items, token), w2) \<and>
      discovered K U J items infos w2 w')"
  using assms discover_items [of K U J]
  unfolding discoverMCPGateways_def crdAvailable_def mcpGatewayExtensionCRDName_def mcpGatewayExtensionGVR_def
  by (auto split: prod.splits sum.splits option.splits if_splits)

definition sample_extension :: gmap where
  "sample_extension =
     [(''kind'', VStr ''MCPGatewayExtension''),
      (''metadata'', VMap [(''name'', VStr ''ext''), (''namespace'', VStr ''team'')]),
      (''spec'', VMap [(''targetRef'', VMap [(''name'', VStr ''gw''), (''sectionName'', VStr ''mcp'')])]),
      (''status'', VMap [(''conditions'', VList [VMap [(''type'', VStr ''Ready''), (''status'', VStr ''True'')]])])]"

definition sample_gateway :: gmap where
  "sample_gateway = [(''metadata'', VMap [(''name'', VStr ''gw''), (''namespace'', VStr ''team'')])]"

definition gateway_cluster :: cluster where
  "gateway_cluster = empty_cluster\<lparr>cl_crds := [mcpGatewayExtensionCRDName, gatewayCRDName],
     cl_objects := [((mcpGatewayExtensionGVR, ''team'', ''ext''), sample_extension),
       ((gatewayGVR, ''team'', ''gw''), sample_gateway)]\<rparr>"

definition sample_json :: json_api where
  "sample_json = table_json [(sample_extension, ''ext''), (sample_gateway, ''gw'')]
     [(''gw'', [\<lparr>gl_name = ''a'', gl_hostname = Some ''*.mcp.local'', gl_protocol = ''HTTPS''\<rparr>,
        \<lparr>gl_name = ''b'', gl_hostname = Some ''mcp.local'', gl_protocol = ''HTTPS''\<rparr>,
        \<lparr>gl_name = ''c'', gl_hostname = None, gl_protocol = ''HTTP''\<rparr>])]"

lemma discovered_found:
  "discovered K U J items infos w w' \<Longrightarrow> infos \<noteq> [] \<Longrightarrow>
     \<exists>item \<in> set items. \<exists>raw ext. j_Marshal J item = Inr raw \<and> unmarshalExtension J raw = Inr ext \<and>
       describes U item ext (hd infos)"
  by (induction rule: discovered.induct) auto

theorem discovery_describes_extensions_witness:
  "\<exists>info w' item raw ext.
     discoverMCPGateways simulated json_unstructured sample_json gateway_cluster = (Inr [info], w') \<and>
     j_Marshal sample_json item = Inr raw \<and> unmarshalExtension sample_json raw = Inr ext \<and>
     describes json_unstructured item ext info"
proof -
  let ?run = "discoverMCPGateways simulated json_unstructured sample_json gateway_cluster"
  have ok: "case ?run of (Inr [info], w) \<Rightarrow> True | _ \<Rightarrow> False" by code_simp
  obtain info w' where run: "?run = (Inr [info], w')"
    using ok by (cases ?run) (auto split: sum.splits list.splits)
  from discovery_describes_extensions [OF run] obtain items w2
    where "discovered simulated json_unstructured sample_json items [info] w2 w'" by blast
  from discovered_found [OF this] run show ?thesis by auto
qed

text \<open>
  Of a Gateway exactly the listeners a route can use are published, in their order: a wildcard
  hostname with any protocol, another hostname only with HTTP, none without a hostname. A Gateway
  that does not exist has no listeners; any other read or decoding error is an error.
\<close>

theorem gateway_listeners_selected:
  assumes "k_Get K gatewayGVR ns n w = (r, w1)"
  shows "(\<exists>ls. resolveGatewayListeners K J ns n w = (Inr ls, w1) \<and>
      (case r of
         Inl e \<Rightarrow> k_IsNotFound K e \<and> ls = []
       | Inr obj \<Rightarrow> \<exists>raw all. j_Marshal J obj = Inr raw \<and> j_Gateway J raw = Inr all \<and>
           ls = map listener_of (filter usable_listener all))) \<or>
    (\<exists>p e. resolveGatewayListeners K J ns n w = (Inl (Wrapped p e), w1) \<and>
      (case r of
         Inl e' \<Rightarrow> e = e' \<and> \<not> k_IsNotFound K e'
       | Inr obj \<Rightarrow> j_Marshal J obj = Inl e \<or> (\<exists>raw. j_Marshal J obj = Inr raw \<and> j_Gateway J raw = Inl e)))"
proof (cases r)
  case (Inl e)
  with assms show ?thesis by (auto simp: resolveGatewayListeners_def)
next
  case (Inr obj)
  show ?thesis
  proof (cases "j_Marshal J obj")
    case (Inl e)
    with assms Inr show ?thesis by (simp add: resolveGatewayListeners_def)
  next
    case m: (Inr raw)
    with assms Inr show ?thesis
      by (cases "j_Gateway J raw") (simp_all add: resolveGatewayListeners_def select_filter)
  qed
qed

theorem gateway_listeners_selected_witness:
  "\<exists>w'. resolveGatewayListeners simulated sample_json ''team'' ''gw'' gateway_cluster =
     (Inr [\<lparr>lr_name = ''a'', lr_hostname = ''*.mcp.local''\<rparr>], w')"
proof -
  have 1: "k_Get simulated gatewayGVR ''team'' ''gw'' gateway_cluster =
      (Inr sample_gateway, called ''get'' gateway_cluster)"
    by (simp add: simulated_def reading_def fault_def lookup_in_def gateway_cluster_def empty_cluster_def
        mcpGatewayExtensionGVR_def gatewayGVR_def)
  have m: "j_Marshal sample_json sample_gateway = Inr ''gw''"
    by (simp add: sample_json_def table_json_def sample_extension_def sample_gateway_def)
  have g: "j_Gateway sample_json ''gw'' = Inr [\<lparr>gl_name = ''a'', gl_hostname = Some ''*.mcp.local'', gl_protocol = ''HTTPS''\<rparr>,
        \<lparr>gl_name = ''b'', gl_hostname = Some ''mcp.local'', gl_protocol = ''HTTPS''\<rparr>,
        \<lparr>gl_name = ''c'', gl_hostname = None, gl_protocol = ''HTTP''\<rparr>]"
    by (simp add: sample_json_def table_json_def)
  from gateway_listeners_selected [OF 1, of sample_json] show ?thesis
    by (auto simp: m g listener_of_def usable_listener_def)
qed

section \<open>The history of the watches\<close>

text \<open>
  A client that records what the registration is about: every CRD that was found, and every resource
  a watch was asked for, whatever the answer; the last event is the head of the history.
\<close>

datatype watch_event = Found string | Watched gvr

definition unrecorded :: "('w \<Rightarrow> 'a \<times> 'w) \<Rightarrow> 'w \<times> watch_event list \<Rightarrow> 'a \<times> 'w \<times> watch_event list" where
  "unrecorded f = (\<lambda>(w, h). case f w of (a, w) \<Rightarrow> (a, w, h))"

definition recording :: "'w kube \<Rightarrow> ('w \<times> watch_event list) kube" where
  "recording K = \<lparr>
     k_GetOperator = (\<lambda>n. unrecorded (k_GetOperator K n)),
     k_GetConfigMap = (\<lambda>n. unrecorded (k_GetConfigMap K n)),
     k_GetCRD = (\<lambda>n (w, h). case k_GetCRD K n w of
        (None, w) \<Rightarrow> (None, w, Found n # h) | (Some err, w) \<Rightarrow> (Some err, w, h)),
     k_GetDeployment = (\<lambda>n. unrecorded (k_GetDeployment K n)),
     k_PatchStatus = (\<lambda>cr base. unrecorded (k_PatchStatus K cr base)),
     k_List = (\<lambda>g n token. unrecorded (k_List K g n token)),
     k_Get = (\<lambda>g ns n. unrecorded (k_Get K g ns n)),
     k_Create = (\<lambda>g obj. unrecorded (k_Create K g obj)),
     k_Delete = (\<lambda>g n. unrecorded (k_Delete K g n)),
     k_ServerResources = (\<lambda>gv. unrecorded (k_ServerResources K gv)),
     k_Deploy = (\<lambda>inp. unrecorded (k_Deploy K inp)),
     k_Collect = (\<lambda>cr cfg. unrecorded (k_Collect K cr cfg)),
     k_Informer = (\<lambda>g (w, h). (k_Informer K g w, h)),
     k_Start = (\<lambda>(w, h). (k_Start K w, h)),
     k_Watch = (\<lambda>g (w, h). case k_Watch K g w of (err, w) \<Rightarrow> (err, w, Watched g # h)),
     k_IsNotFound = k_IsNotFound K, k_IsAlreadyExists = k_IsAlreadyExists K,
     k_IsResourceExpired = k_IsResourceExpired K, k_IsNoMatchError = k_IsNoMatchError K,
     k_IsNotRegisteredError = k_IsNotRegisteredError K\<rparr>"

text \<open>
  The life of a reconciler: it starts with both registrations open, attempts them any number of
  times, and between two attempts anything may happen in the cluster.
\<close>

inductive watch_life :: "'w kube \<Rightarrow> gateway_watches \<Rightarrow> 'w \<Rightarrow> watch_event list \<Rightarrow> bool" for K where
  start: "\<not> gw_extension_once r \<Longrightarrow> \<not> gw_gateway_once r \<Longrightarrow> watch_life K r w []"
| attempt: "watch_life K r w h \<Longrightarrow> tryRegisterGatewayWatches (recording K) r (w, h) = (r', w', h') \<Longrightarrow>
    watch_life K r' w' h'"
| elsewhere: "watch_life K r w h \<Longrightarrow> watch_life K r w' h"

text \<open>The CRD of a resource was found directly before the watch; a found CRD is watched, once.\<close>

definition watch_pairs :: "(gvr \<times> string) list" where
  "watch_pairs = [((''mcp.kuadrant.io'', ''v1'', ''mcpgatewayextensions''), ''mcpgatewayextensions.mcp.kuadrant.io''),
     ((''gateway.networking.k8s.io'', ''v1'', ''gateways''), ''gateways.gateway.networking.k8s.io'')]"

fun watches_after_crd :: "watch_event list \<Rightarrow> bool" where
  "watches_after_crd [] \<longleftrightarrow> True"
| "watches_after_crd (Found n # h) \<longleftrightarrow> watches_after_crd h"
| "watches_after_crd (Watched g # h) \<longleftrightarrow>
     (\<exists>n h'. h = Found n # h' \<and> (g, n) \<in> set watch_pairs) \<and> watches_after_crd h"

definition watched_found :: "watch_event list \<Rightarrow> bool" where
  "watched_found h \<longleftrightarrow>
     (\<forall>(g, n) \<in> set watch_pairs. count_list h (Watched g) = (if Found n \<in> set h then 1 else 0))"

definition spent :: "gateway_watches \<Rightarrow> watch_event list \<Rightarrow> bool" where
  "spent r h \<longleftrightarrow> gw_extension_once r = (Watched mcpGatewayExtensionGVR \<in> set h) \<and>
     gw_gateway_once r = (Watched gatewayGVR \<in> set h)"

lemma crd_recorded:
  "crdAvailable (recording K) n (w, h) = (a, w', h') \<Longrightarrow> h' = (if a = Inr True then Found n # h else h)"
  by (auto simp: crdAvailable_def recording_def split: prod.splits option.splits if_splits)

lemma watch_recorded: "registerWatch (recording K) g (w, h) = (w', h') \<Longrightarrow> h' = Watched g # h"
  by (auto simp: registerWatch_def recording_def Let_def split: prod.splits)

lemmas pair_names = watch_pairs_def mcpGatewayExtensionGVR_def gatewayGVR_def
  mcpGatewayExtensionCRDName_def gatewayCRDName_def

definition in_step :: "gateway_watches \<Rightarrow> watch_event list \<Rightarrow> bool" where
  "in_step r h \<longleftrightarrow> watched_found h \<and> watches_after_crd h \<and> spent r h"

lemma in_step_found:
  assumes "in_step r h"
  shows "gw_extension_once r \<Longrightarrow> in_step r (Found mcpGatewayExtensionCRDName # h)"
    and "gw_gateway_once r \<Longrightarrow> in_step r (Found gatewayCRDName # h)"
    and "\<not> gw_extension_once r \<Longrightarrow> in_step (r\<lparr>gw_extension_once := True\<rparr>)
      (Watched mcpGatewayExtensionGVR # Found mcpGatewayExtensionCRDName # h)"
    and "\<not> gw_gateway_once r \<Longrightarrow> in_step (r\<lparr>gw_gateway_once := True\<rparr>)
      (Watched gatewayGVR # Found gatewayCRDName # h)"
proof -
  have present: "Watched g \<in> set h \<longleftrightarrow> Found n \<in> set h" "count_list h (Watched g) = (if Found n \<in> set h then 1 else 0)"
    if "(g, n) \<in> set watch_pairs" for g n
  proof -
    show c: "count_list h (Watched g) = (if Found n \<in> set h then 1 else 0)"
      using assms that by (auto simp: in_step_def watched_found_def)
    then show "Watched g \<in> set h \<longleftrightarrow> Found n \<in> set h"
      using count_list_0_iff [of h "Watched g"] by (simp split: if_splits)
  qed
  have 1: "(mcpGatewayExtensionGVR, mcpGatewayExtensionCRDName) \<in> set watch_pairs"
    "(gatewayGVR, gatewayCRDName) \<in> set watch_pairs" by (simp_all add: pair_names)
  have pairs: "set watch_pairs = {(mcpGatewayExtensionGVR, mcpGatewayExtensionCRDName), (gatewayGVR, gatewayCRDName)}"
    by (simp add: pair_names)
  have apart: "mcpGatewayExtensionGVR \<noteq> gatewayGVR" "gatewayGVR \<noteq> mcpGatewayExtensionGVR"
    "mcpGatewayExtensionCRDName \<noteq> gatewayCRDName" "gatewayCRDName \<noteq> mcpGatewayExtensionCRDName"
    by (simp_all add: pair_names)
  note facts = present [OF 1(1)] present [OF 1(2)] apart
  from assms have s: "watches_after_crd h" "gw_extension_once r = (Watched mcpGatewayExtensionGVR \<in> set h)"
    "gw_gateway_once r = (Watched gatewayGVR \<in> set h)" by (simp_all add: in_step_def spent_def)
  show "gw_extension_once r \<Longrightarrow> in_step r (Found mcpGatewayExtensionCRDName # h)"
    and "gw_gateway_once r \<Longrightarrow> in_step r (Found gatewayCRDName # h)"
    and "\<not> gw_extension_once r \<Longrightarrow> in_step (r\<lparr>gw_extension_once := True\<rparr>)
      (Watched mcpGatewayExtensionGVR # Found mcpGatewayExtensionCRDName # h)"
    and "\<not> gw_gateway_once r \<Longrightarrow> in_step (r\<lparr>gw_gateway_once := True\<rparr>)
      (Watched gatewayGVR # Found gatewayCRDName # h)"
    unfolding in_step_def watched_found_def spent_def pairs by (simp_all add: facts s pairs)
qed

lemma try_recorded:
  assumes "tryRegisterGatewayWatches (recording K) r (w, h) = (r', w', h')" and "in_step r h"
  shows "in_step r' h'"
proof (cases "gw_controller r \<and> gw_informers r")
  case False
  with assms show ?thesis by (auto simp: tryRegisterGatewayWatches_def)
next
  case True
  obtain a1 w1 h1 where 1: "crdAvailable (recording K) mcpGatewayExtensionCRDName (w, h) = (a1, w1, h1)"
    by (metis prod_cases3)
  obtain r2 w2 h2 where 2: "(if a1 = Inr True \<and> \<not> gw_extension_once r
      then (r\<lparr>gw_extension_once := True\<rparr>, registerWatch (recording K) mcpGatewayExtensionGVR (w1, h1))
      else (r, w1, h1)) = (r2, w2, h2)" by (metis prod_cases3)
  obtain a3 w3 h3 where 3: "crdAvailable (recording K) gatewayCRDName (w2, h2) = (a3, w3, h3)"
    by (metis prod_cases3)
  have 4: "(r', w', h') = (if a3 = Inr True \<and> \<not> gw_gateway_once r2
      then (r2\<lparr>gw_gateway_once := True\<rparr>, registerWatch (recording K) gatewayGVR (w3, h3)) else (r2, w3, h3))"
    using assms True by (simp add: tryRegisterGatewayWatches_def 1 2 3)
  have "in_step r2 h2"
    using 2 crd_recorded [OF 1] assms(2) in_step_found(1,3) [OF assms(2)]
    by (auto dest!: watch_recorded split: if_splits)
  from in_step_found(2,4) [OF this] this show ?thesis
    using 4 crd_recorded [OF 3] by (auto dest!: watch_recorded [OF sym] split: if_splits)
qed

text \<open>
  C34: Over the life of a reconciler, whatever happens to the cluster between its attempts and
  whatever the watches answer, each of the two optional resources is watched exactly once if an
  attempt found its CRD and not at all otherwise, and no other resource is watched: directly before
  the watch of a resource, the CRD of that resource was found. A registration that fails is not
  tried again.
\<close>

theorem watches_registered_once:
  assumes "watch_life K r w h"
  shows "watches_after_crd h \<and>
    count_list h (Watched (''mcp.kuadrant.io'', ''v1'', ''mcpgatewayextensions'')) =
      (if Found ''mcpgatewayextensions.mcp.kuadrant.io'' \<in> set h then 1 else 0) \<and>
    count_list h (Watched (''gateway.networking.k8s.io'', ''v1'', ''gateways'')) =
      (if Found ''gateways.gateway.networking.k8s.io'' \<in> set h then 1 else 0)"
proof -
  from assms have "in_step r h"
  proof (induction rule: watch_life.induct)
    case (start r w)
    then show ?case by (simp add: in_step_def watched_found_def spent_def watch_pairs_def)
  next
    case (attempt r w h r' w' h')
    show ?case by (rule try_recorded [OF attempt.hyps(2) attempt.IH])
  qed
  then show ?thesis by (simp add: in_step_def watched_found_def watch_pairs_def)
qed

text \<open>
  For the witness: the first attempt finds only the CRD of the extensions and its watch fails; then
  the other CRD appears, and a second attempt watches only the Gateways.
\<close>

definition open_watches :: gateway_watches where
  "open_watches = \<lparr>gw_controller = True, gw_informers = True, gw_extension_once = False, gw_gateway_once = False\<rparr>"

definition extension_cluster :: cluster where
  "extension_cluster = empty_cluster\<lparr>cl_crds := [mcpGatewayExtensionCRDName],
     cl_faults := [(''watch'', Message ''no watch'')]\<rparr>"

lemma watched_twice:
  "case tryRegisterGatewayWatches (recording simulated) open_watches (extension_cluster, []) of
     (r1, w1, h1) \<Rightarrow>
       (case tryRegisterGatewayWatches (recording simulated) r1 (gateway_cluster, h1) of
          (r2, w2, h2) \<Rightarrow>
            h1 = [Watched mcpGatewayExtensionGVR, Found mcpGatewayExtensionCRDName] \<and>
            h2 = [Watched gatewayGVR, Found gatewayCRDName, Found mcpGatewayExtensionCRDName,
              Watched mcpGatewayExtensionGVR, Found mcpGatewayExtensionCRDName])"
  by code_simp

theorem watches_registered_once_witness:
  "\<exists>r w h. watch_life simulated r w h \<and> length h = 5 \<and>
     count_list h (Watched (''mcp.kuadrant.io'', ''v1'', ''mcpgatewayextensions'')) = 1 \<and>
     count_list h (Watched (''gateway.networking.k8s.io'', ''v1'', ''gateways'')) = 1"
proof -
  obtain r1 w1 h1 where 1: "tryRegisterGatewayWatches (recording simulated) open_watches (extension_cluster, [])
    = (r1, w1, h1)" by (metis prod_cases3)
  obtain r2 w2 h2 where 2: "tryRegisterGatewayWatches (recording simulated) r1 (gateway_cluster, h1) = (r2, w2, h2)"
    by (metis prod_cases3)
  have "watch_life simulated open_watches extension_cluster []"
    by (rule start) (simp_all add: open_watches_def)
  from elsewhere [OF attempt [OF this 1]] have "watch_life simulated r1 gateway_cluster h1" .
  from attempt [OF this 2] have life: "watch_life simulated r2 w2 h2" .
  have "h2 = [Watched gatewayGVR, Found gatewayCRDName, Found mcpGatewayExtensionCRDName,
      Watched mcpGatewayExtensionGVR, Found mcpGatewayExtensionCRDName]"
    using watched_twice by (simp add: 1 2)
  with watches_registered_once [OF life] life show ?thesis
    by (intro exI [of _ r2] exI [of _ w2] exI [of _ h2]) (simp add: pair_names)
qed

end
