(* ===== verification/TLS_Config.thy ===== *)
theory TLS_Config
  imports Go_Prelude
begin

text \<open>
  internal/controller/tls.go: resolving the cluster's TLS policy, its projection into the
  settings of the operand, and the options of the operator's own metrics listener. The framework
  that loads and formats profiles, library-go's curve table and apimachinery's backoff are
  parameters.
\<close>

record tls_profile_spec =
  sp_Ciphers :: "string list"
  sp_Groups :: "string list"
  sp_MinTLSVersion :: string

definition VersionTLS13 :: string where "VersionTLS13 = ''VersionTLS13''"

record loaded_profile =
  lo_Spec :: tls_profile_spec
  lo_AdherencePolicy :: string
  lo_UsedFallback :: bool
  lo_Watchable :: bool

record 'w tls_api =
  t_LoadWithAdherence :: "'w \<Rightarrow> loaded_profile result \<times> 'w"
  t_ShouldHonor :: "string \<Rightarrow> bool"
  t_MinVersion :: "tls_profile_spec \<Rightarrow> string"
  t_CipherSuites :: "tls_profile_spec \<Rightarrow> string"
  t_CurveIDs :: "string list \<Rightarrow> nat list"
  t_IntermediateProfile :: tls_profile_spec

record resolved_tls =
  rt_MinVersion :: string
  rt_CipherSuites :: string
  rt_Groups :: string
  rt_UsedTransientFallback :: bool
  rt_ProfileSpec :: tls_profile_spec
  rt_EffectiveSpec :: tls_profile_spec
  rt_Adherence :: string
  rt_APIAvailable :: bool

definition zero_spec :: tls_profile_spec where
  "zero_spec = \<lparr>sp_Ciphers = [], sp_Groups = [], sp_MinTLSVersion = []\<rparr>"

definition zero_resolved :: resolved_tls where
  "zero_resolved = \<lparr>rt_MinVersion = [], rt_CipherSuites = [], rt_Groups = [],
     rt_UsedTransientFallback = False, rt_ProfileSpec = zero_spec, rt_EffectiveSpec = zero_spec,
     rt_Adherence = [], rt_APIAvailable = False\<rparr>"

section \<open>Resolution\<close>

definition tlsGroupNamesFromSpec :: "'w tls_api \<Rightarrow> tls_profile_spec \<Rightarrow> string result" where
  "tlsGroupNamesFromSpec T spec =
     (if sp_Groups spec = [] then Inr []
      else
        (let names = filter (\<lambda>group. t_CurveIDs T [group] \<noteq> []) (sp_Groups spec) in
         if names = [] then Inl (Message ''TLS profile has no usable groups'')
         else Inr (Join names '','')))"

definition intermediateProfileSpec :: "'w tls_api \<Rightarrow> tls_profile_spec" where
  "intermediateProfileSpec T = t_IntermediateProfile T"

definition ResolveTLSConfig :: "'w tls_api \<Rightarrow> 'w \<Rightarrow> resolved_tls result \<times> 'w" where
  "ResolveTLSConfig T w =
     (case t_LoadWithAdherence T w of
        (Inl err, w) \<Rightarrow> (Inl (Wrapped ''fetching TLS profile'' err), w)
      | (Inr loaded, w) \<Rightarrow>
          (let spec = (if \<not> t_ShouldHonor T (lo_AdherencePolicy loaded)
                       then intermediateProfileSpec T else lo_Spec loaded);
               suites = (if sp_MinTLSVersion spec = VersionTLS13 then [] else t_CipherSuites T spec)
           in (case tlsGroupNamesFromSpec T spec of
                 Inl err \<Rightarrow> (Inl err, w)
               | Inr groups \<Rightarrow>
                   (Inr \<lparr>rt_MinVersion = t_MinVersion T spec,
                      rt_CipherSuites = suites,
                      rt_Groups = groups,
                      rt_UsedTransientFallback = lo_UsedFallback loaded \<and> lo_Watchable loaded,
                      rt_ProfileSpec = lo_Spec loaded,
                      rt_EffectiveSpec = spec,
                      rt_Adherence = lo_AdherencePolicy loaded,
                      rt_APIAvailable = lo_Watchable loaded\<rparr>, w))))"

section \<open>The metrics listener\<close>

text \<open>
  The closure given to \<open>wait.ExponentialBackoffWithContext\<close> writes the two captured variables;
  they travel with the world as the state of the retries.
\<close>

type_synonym 'w retry_state = "resolved_tls \<times> gerror option \<times> 'w"
type_synonym 's backoff = "('s \<Rightarrow> bool result \<times> 's) \<Rightarrow> 's \<Rightarrow> gerror option \<times> 's"

definition resolveAttempt :: "'w tls_api \<Rightarrow> 'w retry_state \<Rightarrow> bool result \<times> 'w retry_state" where
  "resolveAttempt T s =
     (case s of (resolved, resolveErr, w) \<Rightarrow>
        (case ResolveTLSConfig T w of
           (Inl err, w) \<Rightarrow> (Inl err, zero_resolved, Some err, w)
         | (Inr resolved, w) \<Rightarrow> (Inr (\<not> rt_UsedTransientFallback resolved), resolved, None, w)))"

definition resolveMetricsTLSConfig ::
    "'w tls_api \<Rightarrow> 'w retry_state backoff \<Rightarrow> 'w \<Rightarrow> resolved_tls result \<times> 'w" where
  "resolveMetricsTLSConfig T backoff w =
     (case backoff (resolveAttempt T) (zero_resolved, None, w) of
        (retryErr, resolved, resolveErr, w) \<Rightarrow>
          (case resolveErr of
             Some err \<Rightarrow> (Inl (Wrapped ''resolving TLS configuration'' err), w)
           | None \<Rightarrow>
               (case retryErr of
                  Some err \<Rightarrow>
                    (if \<not> rt_UsedTransientFallback resolved
                     then (Inl (Wrapped ''resolving TLS configuration'' err), w)
                     else (Inr resolved, w))
                | None \<Rightarrow> (Inr resolved, w))))"

text \<open>The fields of a \<open>tls.Config\<close> the configuration functions set.\<close>

record tls_config =
  tc_MinVersion :: nat
  tc_CipherSuites :: "nat list"
  tc_CurvePreferences :: "nat list"
  tc_NextProtos :: "string list"

record 'f metrics_api =
  m_Install :: "gerror option"
  m_NewClient :: "gerror option"
  m_ConfigFromProfileStrict :: "tls_profile_spec \<Rightarrow> (tls_config \<Rightarrow> tls_config) result"
  m_WithAuthenticationAndAuthorization :: 'f

record 'f metrics_options =
  mo_BindAddress :: string
  mo_SecureServing :: bool
  mo_FilterProvider :: "'f option"
  mo_TLSOpts :: "(tls_config \<Rightarrow> tls_config) list"

definition metricsOptionsFromResolved ::
    "'f metrics_api \<Rightarrow> resolved_tls \<Rightarrow> 'f metrics_options result" where
  "metricsOptionsFromResolved A resolved =
     (case m_ConfigFromProfileStrict A (rt_EffectiveSpec resolved) of
        Inl err \<Rightarrow> Inl (Wrapped ''building metrics TLS options'' err)
      | Inr configure \<Rightarrow>
          Inr \<lparr>mo_BindAddress = '':8443'', mo_SecureServing = True,
            mo_FilterProvider = Some (m_WithAuthenticationAndAuthorization A),
            mo_TLSOpts = [configure, \<lambda>c. c\<lparr>tc_NextProtos := [''h2'', ''http/1.1'']\<rparr>]\<rparr>)"

definition MetricsOptionsWithTLSConfig ::
    "'f metrics_api \<Rightarrow> 'w tls_api \<Rightarrow> 'w retry_state backoff \<Rightarrow> 'w
      \<Rightarrow> ('f metrics_options \<times> resolved_tls) result \<times> 'w" where
  "MetricsOptionsWithTLSConfig A T backoff w =
     (case m_Install A of
        Some err \<Rightarrow> (Inl (Wrapped ''installing OpenShift config scheme'' err), w)
      | None \<Rightarrow>
          (case m_NewClient A of
             Some err \<Rightarrow> (Inl (Wrapped ''creating TLS bootstrap client'' err), w)
           | None \<Rightarrow>
               (case resolveMetricsTLSConfig T backoff w of
                  (Inl err, w) \<Rightarrow> (Inl err, w)
                | (Inr resolved, w) \<Rightarrow>
                    (case metricsOptionsFromResolved A resolved of
                       Inl err \<Rightarrow> (Inl err, w)
                     | Inr options \<Rightarrow> (Inr (options, resolved), w)))))"

text \<open>
  The cluster is an OpenShift one when the REST mapper, a parameter, knows the kind APIServer of
  config.openshift.io.
\<close>

definition isOpenShiftCluster :: "(string \<times> string \<Rightarrow> 'm result) \<Rightarrow> bool" where
  "isOpenShiftCluster mapping =
     (case mapping (''config.openshift.io'', ''APIServer'') of Inl err \<Rightarrow> False | Inr m \<Rightarrow> True)"

section \<open>Lemmas\<close>

lemma Join_nonempty: "ss \<noteq> [] \<Longrightarrow> \<forall>s \<in> set ss. s \<noteq> [] \<Longrightarrow> Join ss sep \<noteq> []"
  by (cases ss; cases "tl ss") auto

text \<open>What a resolved configuration is of the loaded profile.\<close>

definition resolved_from :: "'w tls_api \<Rightarrow> loaded_profile \<Rightarrow> resolved_tls \<Rightarrow> bool" where
  "resolved_from T loaded c \<longleftrightarrow>
     rt_EffectiveSpec c = (if t_ShouldHonor T (lo_AdherencePolicy loaded) then lo_Spec loaded
                           else t_IntermediateProfile T) \<and>
     rt_MinVersion c = t_MinVersion T (rt_EffectiveSpec c) \<and>
     (sp_MinTLSVersion (rt_EffectiveSpec c) = VersionTLS13 \<longrightarrow> rt_CipherSuites c = []) \<and>
     (sp_MinTLSVersion (rt_EffectiveSpec c) \<noteq> VersionTLS13 \<longrightarrow>
        rt_CipherSuites c = t_CipherSuites T (rt_EffectiveSpec c)) \<and>
     tlsGroupNamesFromSpec T (rt_EffectiveSpec c) = Inr (rt_Groups c) \<and>
     (rt_UsedTransientFallback c \<longleftrightarrow> lo_UsedFallback loaded \<and> lo_Watchable loaded)"

lemma resolve_from:
  assumes "ResolveTLSConfig T w = (Inr c, w')"
  shows "\<exists>loaded. t_LoadWithAdherence T w = (Inr loaded, w') \<and> resolved_from T loaded c"
proof -
  from assms obtain loaded where l: "t_LoadWithAdherence T w = (Inr loaded, w')"
    by (auto simp: ResolveTLSConfig_def Let_def split: prod.splits sum.splits)
  define spec where "spec = (if \<not> t_ShouldHonor T (lo_AdherencePolicy loaded)
    then intermediateProfileSpec T else lo_Spec loaded)"
  from assms l obtain groups where "tlsGroupNamesFromSpec T spec = Inr groups"
    and "c = \<lparr>rt_MinVersion = t_MinVersion T spec,
      rt_CipherSuites = (if sp_MinTLSVersion spec = VersionTLS13 then [] else t_CipherSuites T spec),
      rt_Groups = groups, rt_UsedTransientFallback = lo_UsedFallback loaded \<and> lo_Watchable loaded,
      rt_ProfileSpec = lo_Spec loaded, rt_EffectiveSpec = spec,
      rt_Adherence = lo_AdherencePolicy loaded, rt_APIAvailable = lo_Watchable loaded\<rparr>"
    by (simp add: ResolveTLSConfig_def Let_def spec_def [symmetric] split: sum.splits)
  with l show ?thesis
    by (simp add: resolved_from_def spec_def intermediateProfileSpec_def)
qed

text \<open>
  The documented behaviour of \<open>ExponentialBackoffWithContext\<close>: the condition is tried while it
  returns false without error; success is its true, an error of its own ends the retries, and
  running out of steps or time ends them with a wait error. \<open>tried c s s'\<close> says that only
  unsuccessful attempts lead from \<open>s\<close> to \<open>s'\<close>.
\<close>

inductive tried :: "('s \<Rightarrow> bool result \<times> 's) \<Rightarrow> 's \<Rightarrow> 's \<Rightarrow> bool" for c where
  untried: "tried c s s"
| again: "tried c s s' \<Longrightarrow> c s' = (Inr False, s'') \<Longrightarrow> tried c s s''"

definition backoff_outcome ::
    "('s \<Rightarrow> bool result \<times> 's) \<Rightarrow> 's \<Rightarrow> gerror option \<Rightarrow> 's \<Rightarrow> bool" where
  "backoff_outcome c s r s' \<longleftrightarrow>
     (r = None \<and> (\<exists>s1. tried c s s1 \<and> c s1 = (Inr True, s'))) \<or>
     (r \<noteq> None \<and> (tried c s s' \<or> (\<exists>s1. tried c s s1 \<and> c s1 = (Inl (the r), s'))))"

definition backoff_laws :: "'s backoff \<Rightarrow> bool" where
  "backoff_laws b \<longleftrightarrow> (\<forall>c s r s'. b c s = (r, s') \<longrightarrow> backoff_outcome c s r s')"

fun stepped_backoff :: "nat \<Rightarrow> 's backoff" where
  "stepped_backoff 0 c s = (Some (Message ''timed out waiting for the condition''), s)"
| "stepped_backoff (Suc n) c s =
     (case c s of
        (Inl e, s') \<Rightarrow> (Some e, s')
      | (Inr True, s') \<Rightarrow> (None, s')
      | (Inr False, s') \<Rightarrow> stepped_backoff n c s')"

lemma tried_first: "tried c s1 s2 \<Longrightarrow> c s = (Inr False, s1) \<Longrightarrow> tried c s s2"
  by (induction rule: tried.induct) (auto intro: tried.intros)

lemma outcome_retry:
  assumes "backoff_outcome c s1 r s'" and "c s = (Inr False, s1)"
  shows "backoff_outcome c s r s'"
  using assms tried_first [of c s1 _ s] unfolding backoff_outcome_def by blast

lemma stepped_backoff_run: "stepped_backoff n c s = (r, s') \<Longrightarrow> backoff_outcome c s r s'"
proof (induction n arbitrary: s)
  case 0
  then show ?case by (auto simp: backoff_outcome_def intro: untried)
next
  case (Suc n)
  obtain v s1 where v: "c s = (v, s1)" by fastforce
  show ?case
  proof (cases "v = Inr False")
    case True
    with Suc.prems v have "stepped_backoff n c s1 = (r, s')" by simp
    with Suc.IH v True show ?thesis by (blast intro: outcome_retry)
  next
    case False
    with Suc.prems v have "v = Inr True \<and> r = None \<and> s' = s1 \<or> r \<noteq> None \<and> v = Inl (the r) \<and> s' = s1"
      by (cases v) (auto split: bool.splits)
    then show ?thesis using v unfolding backoff_outcome_def by (metis untried)
  qed
qed

lemma stepped_backoff_laws: "backoff_laws (stepped_backoff n)"
  unfolding backoff_laws_def by (blast intro: stepped_backoff_run)

text \<open>Every state of the retries holds the outcome of its last attempt, or is the initial one.\<close>

definition attempt_state :: "'w tls_api \<Rightarrow> 'w retry_state \<Rightarrow> bool" where
  "attempt_state T s \<longleftrightarrow>
     (case s of (resolved, resolveErr, w) \<Rightarrow>
        resolveErr = None \<and>
        (resolved = zero_resolved \<or>
         rt_UsedTransientFallback resolved \<and> (\<exists>w0. ResolveTLSConfig T w0 = (Inr resolved, w))))"

lemma tried_state: "tried (resolveAttempt T) s s' \<Longrightarrow> attempt_state T s \<Longrightarrow> attempt_state T s'"
proof (induction s' rule: tried.induct)
  case (untried s)
  then show ?case .
next
  case (again s s' s'')
  then show ?case
    by (auto simp: resolveAttempt_def attempt_state_def split: prod.splits sum.splits)
qed

lemma attempt_result:
  assumes "resolveAttempt T s = (v, c, err, w')" and "err = None"
  shows "\<exists>w0. ResolveTLSConfig T w0 = (Inr c, w')"
proof -
  obtain c0 e0 w0 where s: "s = (c0, e0, w0)" by (metis prod_cases3)
  obtain x w1 where x: "ResolveTLSConfig T w0 = (x, w1)" by fastforce
  from assms x show ?thesis by (cases x) (auto simp: resolveAttempt_def s)
qed

lemma attempt_state_start: "attempt_state T (zero_resolved, None, w)"
  by (simp add: attempt_state_def)

section \<open>Properties\<close>

text \<open>
  C35: A resolved configuration applies the cluster's profile where its adherence policy is to be
  honoured and the hardened intermediate one otherwise; it names no cipher suites for TLS 1.3, and
  of the profile's groups exactly those Go supports, in order. A profile with groups of which none
  is supported is rejected, and nothing else but a failed load is.
\<close>

theorem tls_policy_resolved:
  assumes "t_LoadWithAdherence T w = (loaded, w1)"
  shows "case loaded of
      Inl e \<Rightarrow> ResolveTLSConfig T w = (Inl (Wrapped ''fetching TLS profile'' e), w1)
    | Inr l \<Rightarrow>
        (let spec = (if t_ShouldHonor T (lo_AdherencePolicy l) then lo_Spec l else t_IntermediateProfile T);
             usable = filter (\<lambda>g. t_CurveIDs T [g] \<noteq> []) (sp_Groups spec)
         in if sp_Groups spec \<noteq> [] \<and> usable = [] then \<exists>e. ResolveTLSConfig T w = (Inl e, w1)
            else \<exists>c. ResolveTLSConfig T w = (Inr c, w1) \<and> rt_EffectiveSpec c = spec \<and>
              rt_MinVersion c = t_MinVersion T spec \<and>
              rt_CipherSuites c = (if sp_MinTLSVersion spec = VersionTLS13 then [] else t_CipherSuites T spec) \<and>
              rt_Groups c = Join usable '','' \<and>
              (rt_UsedTransientFallback c \<longleftrightarrow> lo_UsedFallback l \<and> lo_Watchable l))"
proof (cases loaded)
  case (Inl e)
  with assms show ?thesis by (simp add: ResolveTLSConfig_def)
next
  case (Inr l)
  define spec where "spec = (if t_ShouldHonor T (lo_AdherencePolicy l) then lo_Spec l else t_IntermediateProfile T)"
  have flip: "(if \<not> t_ShouldHonor T (lo_AdherencePolicy l) then intermediateProfileSpec T else lo_Spec l) = spec"
    by (simp add: spec_def intermediateProfileSpec_def)
  show ?thesis
  proof (cases "tlsGroupNamesFromSpec T spec")
    case e: (Inl e)
    with assms Inr show ?thesis
      unfolding Inr sum.case spec_def [symmetric] Let_def
      by (auto simp: ResolveTLSConfig_def flip tlsGroupNamesFromSpec_def Let_def split: if_splits)
  next
    case g: (Inr groups)
    with assms Inr show ?thesis
      unfolding Inr sum.case spec_def [symmetric] Let_def
      by (auto simp: ResolveTLSConfig_def flip tlsGroupNamesFromSpec_def Let_def split: if_splits)
  qed
qed

definition test_profile :: tls_profile_spec where
  "test_profile = \<lparr>sp_Ciphers = [''A''], sp_Groups = [''X25519'', ''odd'', ''P256''], sp_MinTLSVersion = VersionTLS13\<rparr>"

definition test_tls :: "bool \<Rightarrow> nat tls_api" where
  "test_tls fallback = \<lparr>
     t_LoadWithAdherence = (\<lambda>w. (Inr \<lparr>lo_Spec = test_profile, lo_AdherencePolicy = ''Strict'',
        lo_UsedFallback = fallback, lo_Watchable = True\<rparr>, w + 1)),
     t_ShouldHonor = (\<lambda>p. p = ''Strict''),
     t_MinVersion = sp_MinTLSVersion, t_CipherSuites = (\<lambda>sp. Join (sp_Ciphers sp) '',''),
     t_CurveIDs = (\<lambda>gs. if gs = [''X25519''] then [29] else if gs = [''P256''] then [23] else []),
     t_IntermediateProfile = test_profile\<rparr>"

theorem tls_policy_resolved_witness:
  "\<exists>c. ResolveTLSConfig (test_tls False) 0 = (Inr c, 1) \<and> rt_Groups c = ''X25519,P256'' \<and> rt_CipherSuites c = []"
proof -
  obtain l where load: "t_LoadWithAdherence (test_tls False) 0 = (Inr l, 1)" and "lo_Spec l = test_profile"
    and "lo_AdherencePolicy l = ''Strict''"
    by (simp add: test_tls_def)
  with tls_policy_resolved [OF load] show ?thesis
    by (auto simp: test_tls_def test_profile_def Let_def)
qed

text \<open>
  The metrics listener is never configured from an unresolved profile: whatever the backoff
  does, a result is the outcome of the last resolution that ran, and a failed resolution, or
  retries that end before any resolution or after a non-transient one, end in an error.
\<close>

theorem metrics_profile_was_resolved:
  assumes "backoff_laws backoff" and "resolveMetricsTLSConfig T backoff w = (r, w')"
  shows "case r of
      Inr c \<Rightarrow> \<exists>w0. ResolveTLSConfig T w0 = (Inr c, w')
    | Inl e \<Rightarrow> \<exists>e'. e = Wrapped ''resolving TLS configuration'' e'"
proof -
  obtain retry c err w2 where b: "backoff (resolveAttempt T) (zero_resolved, None, w) = (retry, c, err, w2)"
    by (metis prod_cases4)
  have out: "backoff_outcome (resolveAttempt T) (zero_resolved, None, w) retry (c, err, w2)"
    using assms(1) b unfolding backoff_laws_def by blast
  have last: "\<exists>w0. ResolveTLSConfig T w0 = (Inr c, w2)"
    if "err = None" and "retry = None \<or> rt_UsedTransientFallback c"
  proof (cases "retry = None")
    case True
    with out that(1) show ?thesis unfolding backoff_outcome_def by (blast intro: attempt_result)
  next
    case False
    with out have "tried (resolveAttempt T) (zero_resolved, None, w) (c, err, w2) \<or>
        (\<exists>s1. resolveAttempt T s1 = (Inl (the retry), c, err, w2))"
      unfolding backoff_outcome_def by blast
    then show ?thesis
    proof
      assume "tried (resolveAttempt T) (zero_resolved, None, w) (c, err, w2)"
      from tried_state [OF this attempt_state_start] False that show ?thesis
        by (auto simp: attempt_state_def zero_resolved_def)
    next
      assume "\<exists>s1. resolveAttempt T s1 = (Inl (the retry), c, err, w2)"
      with that(1) show ?thesis by (blast intro: attempt_result)
    qed
  qed
  from assms(2) b last show ?thesis
    by (auto simp: resolveMetricsTLSConfig_def split: option.splits if_splits)
qed

theorem metrics_profile_was_resolved_witness:
  "\<exists>c w0. resolveMetricsTLSConfig (test_tls True) (stepped_backoff 3) 0 = (Inr c, 3) \<and>
     ResolveTLSConfig (test_tls True) w0 = (Inr c, 3)"
proof -
  let ?run = "resolveMetricsTLSConfig (test_tls True) (stepped_backoff 3) 0"
  have "(case fst ?run of Inl e \<Rightarrow> False | Inr c \<Rightarrow> True) \<and> snd ?run = 3" by code_simp
  then obtain c where run: "?run = (Inr c, 3)" by (cases ?run) (auto split: sum.splits)
  from metrics_profile_was_resolved [OF stepped_backoff_laws run] run show ?thesis by simp
qed

text \<open>
  Metrics options that are returned are served securely, with authentication and
  authorization, by a TLS configuration that the strict reading of the effective profile produced
  and that offers HTTP/2 and HTTP/1.1, whatever the configuration was before.
\<close>

theorem metrics_served_securely:
  assumes "MetricsOptionsWithTLSConfig A T backoff w = (Inr (options, c), w')"
  shows "mo_SecureServing options \<and> mo_FilterProvider options = Some (m_WithAuthenticationAndAuthorization A) \<and>
    (\<exists>configure. m_ConfigFromProfileStrict A (rt_EffectiveSpec c) = Inr configure \<and>
      (\<forall>t. fold (\<lambda>f. f) (mo_TLSOpts options) t = (configure t)\<lparr>tc_NextProtos := [''h2'', ''http/1.1'']\<rparr>)) \<and>
    m_Install A = None \<and> m_NewClient A = None \<and> resolveMetricsTLSConfig T backoff w = (Inr c, w')"
  using assms
  by (auto simp: MetricsOptionsWithTLSConfig_def metricsOptionsFromResolved_def
      split: option.splits prod.splits sum.splits)

theorem metrics_served_securely_witness:
  "\<exists>options c. MetricsOptionsWithTLSConfig
       \<lparr>m_Install = None, m_NewClient = None,
         m_ConfigFromProfileStrict = (\<lambda>sp. Inr (\<lambda>t. t\<lparr>tc_MinVersion := 772\<rparr>)),
         m_WithAuthenticationAndAuthorization = ()\<rparr> (test_tls False) (stepped_backoff 3) 0 = (Inr (options, c), 1) \<and>
     mo_SecureServing options"
proof -
  let ?run = "MetricsOptionsWithTLSConfig
       \<lparr>m_Install = None, m_NewClient = None,
         m_ConfigFromProfileStrict = (\<lambda>sp. Inr (\<lambda>t. t\<lparr>tc_MinVersion := 772\<rparr>)),
         m_WithAuthenticationAndAuthorization = ()\<rparr> (test_tls False) (stepped_backoff 3) 0"
  have "(case fst ?run of Inl e \<Rightarrow> False | Inr c \<Rightarrow> True) \<and> snd ?run = 1" by code_simp
  then obtain options c where run: "?run = (Inr (options, c), 1)"
    by (cases ?run) (auto split: sum.splits)
  from metrics_served_securely [OF run] run show ?thesis by blast
qed

end
