(* ===== verification/Upsert.thy ===== *)
theory Upsert
  imports Go_Prelude
begin

text \<open>
  Three loops of the sources (\<open>setEnvVar\<close> and \<open>setFlagArg\<close> of internal/manifests/kustomize.go,
  \<open>setEnv\<close> of tools/source-update/generate.go) have one contract: the first entry of a key is
  rewritten, or a fresh entry is appended. \<open>keyed_upsert\<close> is the contract their callers use;
  \<open>entry_list\<close> is what an entry format must satisfy for the loop to meet it.
\<close>

section \<open>The contract\<close>

locale keyed_upsert =
  fixes put :: "'c \<Rightarrow> 'k \<Rightarrow> 'v \<Rightarrow> 'c"
    and get :: "'c \<Rightarrow> 'k \<Rightarrow> 'v option"
    and valid :: "'k \<Rightarrow> bool"
  assumes get_put: "valid k \<Longrightarrow> get (put c k v) k = Some v"
    and get_put_other: "valid k \<Longrightarrow> valid l \<Longrightarrow> k \<noteq> l \<Longrightarrow> get (put c k v) l = get c l"
    and put_get: "valid k \<Longrightarrow> get c k = Some v \<Longrightarrow> put c k v = c"
begin

fun puts :: "'c \<Rightarrow> ('k \<times> 'v) list \<Rightarrow> 'c" where
  "puts c [] = c"
| "puts c ((k, v) # kvs) = puts (put c k v) kvs"

lemma get_puts_other:
  "\<forall>kv \<in> set kvs. valid (fst kv) \<Longrightarrow> valid l \<Longrightarrow> l \<notin> fst ` set kvs \<Longrightarrow> get (puts c kvs) l = get c l"
  by (induction kvs arbitrary: c) (auto simp: get_put_other)

lemma get_puts:
  "\<forall>kv \<in> set kvs. valid (fst kv) \<Longrightarrow> distinct (map fst kvs) \<Longrightarrow> (k, v) \<in> set kvs
     \<Longrightarrow> get (puts c kvs) k = Some v"
proof (induction kvs arbitrary: c)
  case Nil
  then show ?case by simp
next
  case (Cons kv kvs)
  obtain k' v' where kv: "kv = (k', v')" by fastforce
  show ?case
  proof (cases "(k, v) = kv")
    case True
    with Cons.prems kv have "get (puts (put c k v) kvs) k = get (put c k v) k"
      by (intro get_puts_other) auto
    with True Cons.prems kv show ?thesis by (simp add: get_put)
  next
    case False
    with Cons kv show ?thesis by auto
  qed
qed

lemma puts_noop:
  "\<forall>kv \<in> set kvs. valid (fst kv) \<Longrightarrow> \<forall>(k, v) \<in> set kvs. get c k = Some v \<Longrightarrow> puts c kvs = c"
  by (induction kvs) (auto simp: put_get)

lemma puts_idem:
  assumes "\<forall>kv \<in> set kvs. valid (fst kv)" and "distinct (map fst kvs)"
  shows "puts (puts c kvs) kvs = puts c kvs"
  using assms by (intro puts_noop) (auto simp: get_puts)

end

section \<open>First match or append\<close>

fun replace_or_append :: "('e \<Rightarrow> bool) \<Rightarrow> ('e \<Rightarrow> 'e) \<Rightarrow> 'e \<Rightarrow> 'e list \<Rightarrow> 'e list" where
  "replace_or_append p f new [] = [new]"
| "replace_or_append p f new (x # xs) =
     (if p x then f x # xs else x # replace_or_append p f new xs)"

lemma find_replace_same:
  "(\<And>x. p x \<Longrightarrow> p (f x)) \<Longrightarrow> p new \<Longrightarrow>
     find p (replace_or_append p f new xs) = Some (case find p xs of None \<Rightarrow> new | Some x \<Rightarrow> f x)"
  by (induction xs) auto

lemma find_replace_other:
  "(\<And>x. p x \<Longrightarrow> \<not> q x) \<Longrightarrow> (\<And>x. p x \<Longrightarrow> \<not> q (f x)) \<Longrightarrow> \<not> q new \<Longrightarrow>
     find q (replace_or_append p f new xs) = find q xs"
  by (induction xs) auto

lemma replace_same: "find p xs = Some x \<Longrightarrow> f x = x \<Longrightarrow> replace_or_append p f new xs = xs"
  by (induction xs) (auto split: if_splits)

lemma replace_or_append_length:
  "length (replace_or_append p f new xs) = length xs + (if find p xs = None then 1 else 0)"
  by (induction xs) auto

locale entry_list =
  fixes valid :: "'k \<Rightarrow> bool"
    and matches :: "'k \<Rightarrow> 'e \<Rightarrow> bool"
    and rewrite :: "'k \<Rightarrow> 'v \<Rightarrow> 'e \<Rightarrow> 'e"
    and fresh :: "'k \<Rightarrow> 'v \<Rightarrow> 'e"
    and read :: "'k \<Rightarrow> 'e \<Rightarrow> 'v option"
  assumes rewrite_ok: "valid k \<Longrightarrow> matches k e \<Longrightarrow> matches k (rewrite k v e) \<and> read k (rewrite k v e) = Some v"
    and fresh_ok: "valid k \<Longrightarrow> matches k (fresh k v) \<and> read k (fresh k v) = Some v"
    and one_key: "valid k \<Longrightarrow> valid l \<Longrightarrow> matches k e \<Longrightarrow> matches l e \<Longrightarrow> k = l"
    and rewrite_same: "valid k \<Longrightarrow> matches k e \<Longrightarrow> read k e = Some v \<Longrightarrow> rewrite k v e = e"
begin

definition insert_entry :: "'e list \<Rightarrow> 'k \<Rightarrow> 'v \<Rightarrow> 'e list" where
  "insert_entry es k v = replace_or_append (matches k) (rewrite k v) (fresh k v) es"

definition read_entry :: "'e list \<Rightarrow> 'k \<Rightarrow> 'v option" where
  "read_entry es k = (case find (matches k) es of None \<Rightarrow> None | Some e \<Rightarrow> read k e)"

lemma read_insert: "valid k \<Longrightarrow> read_entry (insert_entry es k v) k = Some v"
  unfolding insert_entry_def read_entry_def
  by (subst find_replace_same) (auto simp: rewrite_ok fresh_ok find_Some_iff split: option.splits)

lemma read_insert_other:
  assumes "valid k" and "valid l" and "k \<noteq> l"
  shows "read_entry (insert_entry es k v) l = read_entry es l"
proof -
  have "find (matches l) (replace_or_append (matches k) (rewrite k v) (fresh k v) es) = find (matches l) es"
    using assms by (intro find_replace_other) (meson one_key rewrite_ok fresh_ok)+
  then show ?thesis by (simp add: insert_entry_def read_entry_def)
qed

lemma insert_read: "valid k \<Longrightarrow> read_entry es k = Some v \<Longrightarrow> insert_entry es k v = es"
  unfolding insert_entry_def read_entry_def
  by (auto split: option.splits intro!: replace_same rewrite_same simp: find_Some_iff)

end

sublocale entry_list \<subseteq> keyed_upsert insert_entry read_entry valid
  by unfold_locales (auto simp: read_insert read_insert_other insert_read)

end
