(* ===== verification/Kustomize.thy ===== *)
theory Kustomize
  imports Unstructured Upsert Platform_API
begin

text \<open>
  internal/manifests: loading the embedded operand manifests and the transformers that patch
  them. A transformer changes an object in place and may fail; here it maps the object to the
  changed one. Outside the sources, and parameters: the unstructured accessors, the YAML decoder
  and manifestival.
\<close>

type_synonym transformer = "gmap \<Rightarrow> gmap result"

record params =
  OperandNamespace :: string
  OperandImage :: string
  TLSMinVersion :: string
  TLSCipherSuites :: string
  TLSGroups :: string

definition operandYAMLPath :: string where
  "operandYAMLPath = ''resources/mcp-lifecycle-operator.yaml''"

definition DefaultOperandNamespace :: string where
  "DefaultOperandNamespace = ''mcp-lifecycle-operator-system''"

definition certManagerInjectCAAnnotation :: string where
  "certManagerInjectCAAnnotation = ''cert-manager.io/inject-ca-from''"

definition envTLSMinVersion :: string where "envTLSMinVersion = ''TLS_MIN_VERSION''"
definition envTLSCipherSuites :: string where "envTLSCipherSuites = ''TLS_CIPHER_SUITES''"
definition envTLSGroups :: string where "envTLSGroups = ''TLS_GROUPS''"
definition envPropagateTLS :: string where "envPropagateTLS = ''PROPAGATE_TLS_ENV_VARS''"

definition networkPolicyPostureFlag :: string where
  "networkPolicyPostureFlag = ''--network-policy-default-posture''"

definition networkPolicyRestrictedPosture :: string where
  "networkPolicyRestrictedPosture = ''restricted''"

section \<open>Loading\<close>

text \<open>
  The decoder is given by what its successive \<open>Decode\<close> calls deliver: the objects in order (a nil
  \<open>Object\<close> for an empty document), then \<open>None\<close> for io.EOF or the error that ended it.
\<close>

record kustomize_provider =
  p_fs :: "string \<Rightarrow> go_bytes result"
  p_decoder :: "go_bytes \<Rightarrow> gmap option list \<times> gerror option"

fun decodeDocuments :: "gmap option list \<Rightarrow> gerror option \<Rightarrow> gmap list result" where
  "decodeDocuments [] None = Inr []"
| "decodeDocuments [] (Some err) = Inl (Wrapped ''decoding YAML document'' err)"
| "decodeDocuments (None # docs) end = decodeDocuments docs end"
| "decodeDocuments (Some obj # docs) end =
     (case decodeDocuments docs end of Inl e \<Rightarrow> Inl e | Inr resources \<Rightarrow> Inr (obj # resources))"

definition loadResources :: "kustomize_provider \<Rightarrow> gmap list result" where
  "loadResources p =
     (case p_fs p operandYAMLPath of
        Inl err \<Rightarrow> Inl (Wrapped (''reading '' @ operandYAMLPath) err)
      | Inr data \<Rightarrow> (case p_decoder p data of (docs, end) \<Rightarrow> decodeDocuments docs end))"

section \<open>Transformers of every object\<close>

text \<open>The labels are written one by one into the existing map, or a new one if it is nil.\<close>

definition injectLabels :: "unstructured_api \<Rightarrow> string go_map \<Rightarrow> transformer" where
  "injectLabels U labels u =
     (let existing = (case u_GetLabels U u of None \<Rightarrow> [] | Some m \<Rightarrow> m)
      in Inr (u_SetLabels U u (fold (\<lambda>(k, v) m. AList.update k v m) labels existing)))"

fun rewriteDNSNames :: "string \<Rightarrow> string \<Rightarrow> string list \<Rightarrow> bool \<Rightarrow> string list \<times> bool" where
  "rewriteDNSNames fromNS toNS [] changed = ([], changed)"
| "rewriteDNSNames fromNS toNS (name # names) changed =
     (let updated = ReplaceAll name (''.'' @ fromNS @ ''.'') (''.'' @ toNS @ ''.'');
          (rest, ch) = rewriteDNSNames fromNS toNS names (if updated \<noteq> name then True else changed)
      in (if updated \<noteq> name then updated # rest else name # rest, ch))"

definition rewriteInjectCA :: "unstructured_api \<Rightarrow> string \<Rightarrow> string \<Rightarrow> gmap \<Rightarrow> gmap" where
  "rewriteInjectCA U fromNS toNS u =
     (case u_GetAnnotations U u of
        None \<Rightarrow> u
      | Some annotations \<Rightarrow>
          (case map_of annotations certManagerInjectCAAnnotation of
             None \<Rightarrow> u
           | Some v \<Rightarrow>
               (case CutPrefix v (fromNS @ ''/'') of
                  None \<Rightarrow> u
                | Some rest \<Rightarrow>
                    u_SetAnnotations U u
                      (AList.update certManagerInjectCAAnnotation (toNS @ ''/'' @ rest) annotations))))"

definition rewriteCertificate :: "unstructured_api \<Rightarrow> string \<Rightarrow> string \<Rightarrow> transformer" where
  "rewriteCertificate U fromNS toNS u =
     (if u_GetKind U u = ''Certificate'' then
        (case u_NestedStringSlice U u [''spec'', ''dnsNames''] of
           Inl err \<Rightarrow> Inl (Wrapped (''certificate '' @ Quote (u_GetName U u) @ '': reading dnsNames'') err)
         | Inr None \<Rightarrow> Inr u
         | Inr (Some dnsNames) \<Rightarrow>
             (let (names, changed) = rewriteDNSNames fromNS toNS dnsNames False in
              if changed then
                (case u_SetNestedStringSlice U u names [''spec'', ''dnsNames''] of
                   Inl err \<Rightarrow> Inl (Wrapped (''certificate '' @ Quote (u_GetName U u) @ '': setting dnsNames'') err)
                 | Inr u' \<Rightarrow> Inr u')
              else Inr u))
      else Inr u)"

definition rewriteCertManagerNamespace :: "unstructured_api \<Rightarrow> string \<Rightarrow> string \<Rightarrow> transformer" where
  "rewriteCertManagerNamespace U fromNS toNS u =
     (if fromNS = toNS \<or> fromNS = [] then Inr u
      else rewriteCertificate U fromNS toNS (rewriteInjectCA U fromNS toNS u))"

section \<open>Transformers of the manager container\<close>

text \<open>A read whose \<open>found\<close> and error results are dropped.\<close>

definition stringField :: "unstructured_api \<Rightarrow> gmap \<Rightarrow> string \<Rightarrow> string" where
  "stringField U m k = (case u_NestedString U m [k] of Inr (Some s) \<Rightarrow> s | _ \<Rightarrow> [])"

definition containersPath :: "string list" where
  "containersPath = [''spec'', ''template'', ''spec'', ''containers'']"

fun patchContainers ::
    "unstructured_api \<Rightarrow> transformer \<Rightarrow> gval list \<Rightarrow> bool \<Rightarrow> (gval list \<times> bool) result" where
  "patchContainers U fn [] handled = Inr ([], handled)"
| "patchContainers U fn (c # cs) handled =
     (case as_map c of
        None \<Rightarrow>
          (case patchContainers U fn cs handled of
             Inl e \<Rightarrow> Inl e | Inr (rest, h) \<Rightarrow> Inr (c # rest, h))
      | Some container \<Rightarrow>
          if stringField U container ''name'' \<noteq> ''manager'' then
            (case patchContainers U fn cs handled of
               Inl e \<Rightarrow> Inl e | Inr (rest, h) \<Rightarrow> Inr (c # rest, h))
          else
            (case fn container of
               Inl e \<Rightarrow> Inl e
             | Inr container' \<Rightarrow>
                 (case patchContainers U fn cs True of
                    Inl e \<Rightarrow> Inl e | Inr (rest, h) \<Rightarrow> Inr (VMap container' # rest, h))))"

definition withManagerContainer :: "unstructured_api \<Rightarrow> gmap \<Rightarrow> transformer \<Rightarrow> gmap result" where
  "withManagerContainer U u fn =
     (if u_GetKind U u \<noteq> ''Deployment'' then Inr u
      else
        (case u_NestedSlice U u containersPath of
           Inl err \<Rightarrow> Inl (Wrapped (''deployment '' @ Quote (u_GetName U u) @ '': reading containers'') err)
         | Inr None \<Rightarrow>
             Inl (Message (''deployment '' @ Quote (u_GetName U u) @
                           '' is missing spec.template.spec.containers''))
         | Inr (Some containers) \<Rightarrow>
             (case patchContainers U fn containers False of
                Inl err \<Rightarrow> Inl err
              | Inr (containers', handled) \<Rightarrow>
                  if \<not> handled then
                    Inl (Message (''deployment '' @ Quote (u_GetName U u) @
                                  '' has no container named '' @ Quote ''manager''))
                  else u_SetNestedSlice U u containers' containersPath)))"

fun setEnvVar :: "unstructured_api \<Rightarrow> gval list \<Rightarrow> string \<Rightarrow> string \<Rightarrow> gval list" where
  "setEnvVar U [] name value = [VMap [(''name'', VStr name), (''value'', VStr value)]]"
| "setEnvVar U (e # es) name value =
     (case as_map e of
        None \<Rightarrow> e # setEnvVar U es name value
      | Some env \<Rightarrow>
          if stringField U env ''name'' = name
          then VMap (AList.update ''value'' (VStr value) (AList.delete ''valueFrom'' env)) # es
          else e # setEnvVar U es name value)"

definition tlsPatch ::
    "unstructured_api \<Rightarrow> string \<Rightarrow> string \<Rightarrow> string \<Rightarrow> string \<Rightarrow> transformer" where
  "tlsPatch U name minVersion cipherSuites groups container =
     (let envSlice = (case u_NestedSlice U container [''env''] of Inr (Some vs) \<Rightarrow> vs | _ \<Rightarrow> []);
          envSlice = setEnvVar U envSlice envTLSMinVersion minVersion;
          envSlice = setEnvVar U envSlice envTLSCipherSuites cipherSuites;
          envSlice = setEnvVar U envSlice envTLSGroups groups;
          envSlice = setEnvVar U envSlice envPropagateTLS ''true''
      in (case u_SetNestedSlice U container envSlice [''env''] of
            Inl err \<Rightarrow> Inl (Wrapped (''deployment '' @ Quote name @ '': setting TLS env vars'') err)
          | Inr container' \<Rightarrow> Inr container'))"

definition injectTLSEnvVars :: "unstructured_api \<Rightarrow> string \<Rightarrow> string \<Rightarrow> string \<Rightarrow> transformer" where
  "injectTLSEnvVars U minVersion cipherSuites groups u =
     (if minVersion = [] \<and> cipherSuites = [] \<and> groups = [] then Inr u
      else withManagerContainer U u (tlsPatch U (u_GetName U u) minVersion cipherSuites groups))"

fun setFlagArg :: "string list \<Rightarrow> string \<Rightarrow> string \<Rightarrow> string list" where
  "setFlagArg [] flag value = [flag @ ''='' @ value]"
| "setFlagArg (a # args) flag value =
     (if a = flag \<or> HasPrefix a (flag @ ''='') then (flag @ ''='' @ value) # args
      else a # setFlagArg args flag value)"

definition posturePatch :: "unstructured_api \<Rightarrow> string \<Rightarrow> string \<Rightarrow> transformer" where
  "posturePatch U name posture container =
     (case u_NestedStringSlice U container [''args''] of
        Inl err \<Rightarrow> Inl (Wrapped (''deployment '' @ Quote name @ '': reading args'') err)
      | Inr found \<Rightarrow>
          (let args = (case found of None \<Rightarrow> [] | Some ss \<Rightarrow> ss);
               args = setFlagArg args networkPolicyPostureFlag posture
           in (case u_SetNestedStringSlice U container args [''args''] of
                 Inl err \<Rightarrow>
                   Inl (Wrapped (''deployment '' @ Quote name @
                          '': setting network policy posture arg'') err)
               | Inr container' \<Rightarrow> Inr container')))"

definition injectNetworkPolicyPostureArg :: "unstructured_api \<Rightarrow> string \<Rightarrow> transformer" where
  "injectNetworkPolicyPostureArg U posture u =
     (if posture = [] then Inr u
      else withManagerContainer U u (posturePatch U (u_GetName U u) posture))"

definition imagePatch :: "string \<Rightarrow> transformer" where
  "imagePatch newImage container = Inr (AList.update ''image'' (VStr newImage) container)"

definition replaceImage :: "unstructured_api \<Rightarrow> string \<Rightarrow> transformer" where
  "replaceImage U newImage u =
     (if newImage = [] then Inr u else withManagerContainer U u (imagePatch newImage))"

section \<open>The provider\<close>

record 'm manifestival_api =
  mf_ManifestFrom :: "gmap list \<Rightarrow> 'm result"
  mf_Transform :: "'m \<Rightarrow> transformer list \<Rightarrow> 'm result"
  mf_Resources :: "'m \<Rightarrow> gmap list"
  mf_InjectNamespace :: "string \<Rightarrow> transformer"

definition operandTransformers ::
    "unstructured_api \<Rightarrow> 'm manifestival_api \<Rightarrow> string \<Rightarrow> params \<Rightarrow> transformer list" where
  "operandTransformers U M targetNS ps =
     [injectLabels U [(PlatformPartOf, MCPLifecycleOperatorServiceName)],
      mf_InjectNamespace M targetNS,
      rewriteCertManagerNamespace U DefaultOperandNamespace targetNS,
      replaceImage U (OperandImage ps),
      injectTLSEnvVars U (TLSMinVersion ps) (TLSCipherSuites ps) (TLSGroups ps),
      injectNetworkPolicyPostureArg U networkPolicyRestrictedPosture]"

definition Manifests ::
    "unstructured_api \<Rightarrow> 'm manifestival_api \<Rightarrow> kustomize_provider \<Rightarrow> params \<Rightarrow> gmap list result" where
  "Manifests U M p ps =
     (case loadResources p of
        Inl err \<Rightarrow> Inl (Wrapped ''loading operand manifests'' err)
      | Inr resources \<Rightarrow>
          (case mf_ManifestFrom M resources of
             Inl err \<Rightarrow> Inl (Wrapped ''creating manifest'' err)
           | Inr manifest \<Rightarrow>
               (let targetNS = (if OperandNamespace ps = [] then DefaultOperandNamespace
                                else OperandNamespace ps)
                in (case mf_Transform M manifest (operandTransformers U M targetNS ps) of
                      Inl err \<Rightarrow> Inl (Wrapped ''transforming manifests'' err)
                    | Inr manifest' \<Rightarrow> Inr (mf_Resources M manifest')))))"

section \<open>Flags and environment variables\<close>

text \<open>What a flag or an environment variable is set to in the container's list.\<close>

definition noEquals :: "string \<Rightarrow> bool" where
  "noEquals k \<longleftrightarrow> CHR ''='' \<notin> set k"

definition flagMatches :: "string \<Rightarrow> string \<Rightarrow> bool" where
  "flagMatches flag a \<longleftrightarrow> a = flag \<or> HasPrefix a (flag @ ''='')"

definition flagValue :: "string list \<Rightarrow> string \<Rightarrow> string option" where
  "flagValue args flag =
     (case find (flagMatches flag) args of None \<Rightarrow> None | Some a \<Rightarrow> CutPrefix a (flag @ ''=''))"

text \<open>
  The manager's flag parser takes the last of several arguments for one flag, where \<open>setFlagArg\<close>
  rewrites the first: the two agree on arguments that name the flag once.
\<close>

definition flagParsed :: "string list \<Rightarrow> string \<Rightarrow> string option" where
  "flagParsed args flag = flagValue (rev args) flag"

definition namedOnce :: "string list \<Rightarrow> string \<Rightarrow> bool" where
  "namedOnce args flag \<longleftrightarrow> length (filter (flagMatches flag) args) = 1"

lemma find_filter: "find P xs = (case filter P xs of [] \<Rightarrow> None | x # _ \<Rightarrow> Some x)"
  by (induction xs) auto

lemma parsed_once: "namedOnce args flag \<Longrightarrow> flagParsed args flag = flagValue args flag"
  by (auto simp: namedOnce_def flagParsed_def flagValue_def find_filter rev_filter [symmetric]
      length_Suc_conv)

definition envMatches :: "unstructured_api \<Rightarrow> string \<Rightarrow> gval \<Rightarrow> bool" where
  "envMatches U name e \<longleftrightarrow>
     (case as_map e of None \<Rightarrow> False | Some env \<Rightarrow> stringField U env ''name'' = name)"

definition envRewrite :: "string \<Rightarrow> string \<Rightarrow> gval \<Rightarrow> gval" where
  "envRewrite name value e =
     (case as_map e of
        None \<Rightarrow> e
      | Some env \<Rightarrow> VMap (AList.update ''value'' (VStr value) (AList.delete ''valueFrom'' env)))"

definition envFresh :: "string \<Rightarrow> string \<Rightarrow> gval" where
  "envFresh name value = VMap [(''name'', VStr name), (''value'', VStr value)]"

text \<open>A variable set from elsewhere (\<open>valueFrom\<close>) has no value of its own.\<close>

definition envRead :: "string \<Rightarrow> gval \<Rightarrow> string option" where
  "envRead name e =
     (case as_map e of
        None \<Rightarrow> None
      | Some env \<Rightarrow>
          if map_of env ''valueFrom'' = None
          then (case map_of env ''value'' of Some (VStr v) \<Rightarrow> Some v | _ \<Rightarrow> None)
          else None)"

definition envValue :: "unstructured_api \<Rightarrow> gval list \<Rightarrow> string \<Rightarrow> string option" where
  "envValue U es name =
     (case find (envMatches U name) es of None \<Rightarrow> None | Some e \<Rightarrow> envRead name e)"

lemma flag_key_unique:
  assumes "noEquals k" "noEquals l" "flagMatches k a" "flagMatches l a"
  shows "k = l"
proof -
  have key: "k = fst (case Cut a ''='' of None \<Rightarrow> (a, []) | Some p \<Rightarrow> p)"
    if "noEquals k" "flagMatches k a" for k
    using that
    by (auto simp: flagMatches_def noEquals_def Cut_char Cut_char_None elim!: HasPrefix_obtain)
  from key [OF assms(1,3)] key [OF assms(2,4)] show ?thesis by simp
qed

definition flagText :: "string \<Rightarrow> string \<Rightarrow> string" where
  "flagText k v = (k @ ''='') @ v"

lemma flag_text_ok: "flagMatches k (flagText k v)" "CutPrefix (flagText k v) (k @ ''='') = Some v"
  unfolding flagMatches_def flagText_def by (simp_all only: HasPrefix_append CutPrefix_append simp_thms)

lemma flag_rewrite_same: "CutPrefix a (k @ ''='') = Some v \<Longrightarrow> flagText k v = a"
  by (simp add: CutPrefix_Some_iff flagText_def)

interpretation flags: entry_list noEquals flagMatches "\<lambda>k v a. flagText k v" flagText
    "\<lambda>k a. CutPrefix a (k @ ''='')"
  by unfold_locales (blast intro: flag_text_ok flag_key_unique flag_rewrite_same)+

lemma setFlagArg_insert: "setFlagArg args k v = flags.insert_entry args k v"
  unfolding flags.insert_entry_def by (induction args) (auto simp: flagMatches_def flagText_def)

lemma flagValue_read: "flagValue args k = flags.read_entry args k"
  by (simp add: flagValue_def flags.read_entry_def)

lemma setFlagArg_matches:
  "length (filter (flagMatches k) (setFlagArg args k v)) = max 1 (length (filter (flagMatches k) args))"
  by (induction args) (auto simp: flagMatches_def HasPrefix_def)

lemma setFlagArg_length:
  "length (setFlagArg args k v) = length args + (if find (flagMatches k) args = None then 1 else 0)"
  unfolding setFlagArg_insert flags.insert_entry_def replace_or_append_length ..

text \<open>A flag named twice keeps the value of its last argument.\<close>

lemma duplicated_flag_kept:
  "flagParsed (setFlagArg [''--posture=a'', ''--posture=b''] ''--posture'' ''c'') ''--posture'' = Some ''b''"
  by code_simp

lemma delete_absent: "map_of m k = None \<Longrightarrow> AList.delete k m = m"
  by (induction m) (auto split: if_splits)

lemma update_present: "map_of m k = Some v \<Longrightarrow> AList.update k v m = m"
  by (induction m) (auto split: if_splits)

context unstructured_lib
begin

lemma string_field: "stringField U m k = str_field m [k]"
proof (cases "field (VMap m) [k]")
  case (Some v)
  then show ?thesis
  proof (cases "\<exists>s. v = VStr s")
    case True
    with Some show ?thesis
      by (auto simp: stringField_def str_field_def nested_string_Some [THEN iffD2])
  next
    case False
    with Some have "u_NestedString U m [k] \<noteq> Inr (Some s)" for s
      by (simp add: nested_string_Some)
    with False Some show ?thesis
      by (auto simp: stringField_def str_field_def split: sum.splits option.splits gval.splits)
  qed
next
  case None
  then have "u_NestedString U m [k] \<noteq> Inr (Some s)" for s
    by (simp add: nested_string_Some)
  with None show ?thesis
    by (auto simp: stringField_def str_field_def split: sum.splits option.splits)
qed

lemma env_key_unique: "envMatches U k e \<Longrightarrow> envMatches U l e \<Longrightarrow> k = l"
  by (auto simp: envMatches_def split: option.splits)

lemma env_rewrite_ok:
  "envMatches U k e \<Longrightarrow> envMatches U k (envRewrite k v e) \<and> envRead k (envRewrite k v e) = Some v"
  by (auto simp: envMatches_def envRewrite_def envRead_def string_field str_field_def
      split: option.splits)

lemma env_fresh_ok: "envMatches U k (envFresh k v) \<and> envRead k (envFresh k v) = Some v"
  by (auto simp: envMatches_def envFresh_def envRead_def string_field str_field_def)

lemma env_rewrite_same: "envRead k e = Some v \<Longrightarrow> envRewrite k v e = e"
  by (auto simp: envRead_def envRewrite_def delete_absent update_present
      split: option.splits if_splits gval.splits)

end

sublocale unstructured_lib \<subseteq> env: entry_list "\<lambda>_. True" "envMatches U" envRewrite envFresh envRead
  by unfold_locales
    (rule env_rewrite_ok env_fresh_ok env_rewrite_same env_key_unique; assumption)+

context unstructured_lib
begin

lemma setEnvVar_insert: "setEnvVar U es k v = env.insert_entry es k v"
  unfolding env.insert_entry_def
  by (induction es) (auto simp: envMatches_def envRewrite_def envFresh_def split: option.splits)

lemma envValue_read: "envValue U es k = env.read_entry es k"
  by (simp add: envValue_def env.read_entry_def)

end

section \<open>What each transformer does\<close>

text \<open>The containers a transformer patches, and the two lists the patches write.\<close>

definition managerContainers :: "unstructured_api \<Rightarrow> gmap \<Rightarrow> gmap list" where
  "managerContainers U u =
     (case field (VMap u) containersPath of
        Some (VList cs) \<Rightarrow>
          filter (\<lambda>c. stringField U c ''name'' = ''manager'') (List.map_filter as_map cs)
      | _ \<Rightarrow> [])"

definition containerArgs :: "unstructured_api \<Rightarrow> gmap \<Rightarrow> string list" where
  "containerArgs U c = (case u_NestedStringSlice U c [''args''] of Inr (Some ss) \<Rightarrow> ss | _ \<Rightarrow> [])"

definition containerEnv :: "unstructured_api \<Rightarrow> gmap \<Rightarrow> gval list" where
  "containerEnv U c = (case u_NestedSlice U c [''env''] of Inr (Some vs) \<Rightarrow> vs | _ \<Rightarrow> [])"

fun managers_in :: "unstructured_api \<Rightarrow> gval list \<Rightarrow> gmap list" where
  "managers_in U [] = []"
| "managers_in U (c # cs) =
     (case as_map c of
        None \<Rightarrow> managers_in U cs
      | Some m \<Rightarrow> if stringField U m ''name'' = ''manager'' then m # managers_in U cs else managers_in U cs)"

lemma managers_in_filter:
  "managers_in U cs = filter (\<lambda>c. stringField U c ''name'' = ''manager'') (List.map_filter as_map cs)"
  by (induction cs) (auto simp: map_filter_simps split: option.splits)

lemma managerContainers_eq:
  "managerContainers U u = (case field (VMap u) containersPath of Some (VList cs) \<Rightarrow> managers_in U cs | _ \<Rightarrow> [])"
  by (simp add: managerContainers_def managers_in_filter split: option.splits gval.splits)

definition keeps_name :: "unstructured_api \<Rightarrow> transformer \<Rightarrow> bool" where
  "keeps_name U fn \<longleftrightarrow> (\<forall>c c'. fn c = Inr c' \<longrightarrow> stringField U c' ''name'' = stringField U c ''name'')"

lemma patchContainers_managers:
  assumes "keeps_name U fn" and "patchContainers U fn cs h = Inr (cs', h')"
  shows "list_all2 (\<lambda>c c'. fn c = Inr c') (managers_in U cs) (managers_in U cs')"
    and "h' \<longleftrightarrow> h \<or> managers_in U cs \<noteq> []"
    and "length cs' = length cs"
  using assms(2)
proof (induction cs arbitrary: h cs' h')
  case Nil
  { case 1 then show ?case by auto next case 2 then show ?case by auto next case 3 then show ?case by auto }
next
  case (Cons c cs)
  have keep: "fn m = Inr m' \<Longrightarrow> stringField U m' ''name'' = stringField U m ''name''" for m m'
    using assms(1) by (simp add: keeps_name_def)
  {
    case 1
    then show ?case
      by (fastforce dest: Cons.IH(1) simp: keep split: option.splits if_splits sum.splits prod.splits)
  next
    case 2
    then show ?case
      by (fastforce dest: Cons.IH(2) split: option.splits if_splits sum.splits prod.splits)
  next
    case 3
    then show ?case
      by (fastforce dest: Cons.IH(3) split: option.splits if_splits sum.splits prod.splits)
  }
qed

text \<open>The effect of each patch on one container; every other key keeps its value.\<close>

definition same_except :: "string \<Rightarrow> gmap \<Rightarrow> gmap \<Rightarrow> bool" where
  "same_except k c c' \<longleftrightarrow> (\<forall>l. l \<noteq> k \<longrightarrow> map_of c' l = map_of c l)"

definition tlsSettings :: "string \<Rightarrow> string \<Rightarrow> string \<Rightarrow> string go_map" where
  "tlsSettings minVersion cipherSuites groups =
     [(envTLSMinVersion, minVersion), (envTLSCipherSuites, cipherSuites),
      (envTLSGroups, groups), (envPropagateTLS, ''true'')]"

lemma field_key [simp]: "field (VMap m) [k] = map_of m k"
  by (simp split: option.split)

lemma apart_key: "l \<noteq> k \<Longrightarrow> apart [k] [l]"
  by (simp add: apart_def)

lemma env_names_distinct: "distinct (map fst (tlsSettings a b c))"
  by (simp add: tlsSettings_def envTLSMinVersion_def envTLSCipherSuites_def envTLSGroups_def
      envPropagateTLS_def)

lemma posture_flag_valid: "noEquals networkPolicyPostureFlag"
  by (simp add: noEquals_def networkPolicyPostureFlag_def)

context unstructured_lib
begin

lemma name_same_except: "same_except k c c' \<Longrightarrow> k \<noteq> ''name'' \<Longrightarrow> stringField U c' ''name'' = stringField U c ''name''"
  by (simp add: string_field str_field_def same_except_def field_key)

lemma set_slice_same_except: "u_SetNestedSlice U c vs [k] = Inr c' \<Longrightarrow> same_except k c c'"
  unfolding same_except_def using set_slice(2) [of c vs "[k]" c'] by (metis apart_key field_key)

lemma set_strings_same_except: "u_SetNestedStringSlice U c ss [k] = Inr c' \<Longrightarrow> same_except k c c'"
  unfolding same_except_def using set_strings(2) [of c ss "[k]" c'] by (metis apart_key field_key)

lemma image_patch:
  assumes "imagePatch img c = Inr c'"
  shows "map_of c' ''image'' = Some (VStr img)" and "same_except ''image'' c c'"
  using assms by (auto simp: imagePatch_def same_except_def)

lemma tls_patch:
  assumes "tlsPatch U name a b g c = Inr c'"
  shows "containerEnv U c' = env.puts (containerEnv U c) (tlsSettings a b g)"
    and "same_except ''env'' c c'"
proof -
  from assms have set: "u_SetNestedSlice U c (env.puts (containerEnv U c) (tlsSettings a b g)) [''env''] = Inr c'"
    by (simp add: tlsPatch_def Let_def setEnvVar_insert tlsSettings_def containerEnv_def split: sum.splits)
  from set_slice(1) [OF set] show "containerEnv U c' = env.puts (containerEnv U c) (tlsSettings a b g)"
    by (simp add: containerEnv_def nested_slice_Some [THEN iffD2])
  from set show "same_except ''env'' c c'" by (rule set_slice_same_except)
qed

lemma posture_patch:
  assumes "posturePatch U name v c = Inr c'"
  shows "containerArgs U c' = setFlagArg (containerArgs U c) networkPolicyPostureFlag v"
    and "same_except ''args'' c c'"
proof -
  from assms have set:
    "u_SetNestedStringSlice U c (setFlagArg (containerArgs U c) networkPolicyPostureFlag v) [''args''] = Inr c'"
    by (simp add: posturePatch_def Let_def containerArgs_def split: sum.splits option.splits)
  from set_strings(1) [OF set]
  show "containerArgs U c' = setFlagArg (containerArgs U c) networkPolicyPostureFlag v"
    by (simp add: containerArgs_def nested_strings_Some [THEN iffD2])
  from set show "same_except ''args'' c c'" by (rule set_strings_same_except)
qed

lemma patches_keep_name:
  "keeps_name U (imagePatch img)" "keeps_name U (tlsPatch U n a b g)" "keeps_name U (posturePatch U n v)"
  unfolding keeps_name_def
  by (blast intro: name_same_except [where k = "''image''"] image_patch
      name_same_except [where k = "''env''"] tls_patch
      name_same_except [where k = "''args''"] posture_patch | simp)+

lemma with_manager_frame:
  assumes "withManagerContainer U u fn = Inr u'" and "apart containersPath q"
  shows "field (VMap u') q = field (VMap u) q"
  using assms set_slice(2)
  by (auto simp: withManagerContainer_def split: if_splits sum.splits option.splits prod.splits)

lemma with_manager_containers:
  assumes "withManagerContainer U u fn = Inr u'" and "u_GetKind U u = ''Deployment''" and "keeps_name U fn"
  shows "list_all2 (\<lambda>c c'. fn c = Inr c') (managerContainers U u) (managerContainers U u')"
    and "managerContainers U u \<noteq> []"
proof -
  from assms(1,2) obtain cs cs' where cs: "u_NestedSlice U u containersPath = Inr (Some cs)"
    and p: "patchContainers U fn cs False = Inr (cs', True)"
    and set: "u_SetNestedSlice U u cs' containersPath = Inr u'"
    by (auto simp: withManagerContainer_def split: sum.splits option.splits prod.splits if_splits)
  have "managerContainers U u = managers_in U cs" and "managerContainers U u' = managers_in U cs'"
    using cs set_slice(1) [OF set] by (simp_all add: managerContainers_eq nested_slice_Some)
  with patchContainers_managers [OF assms(3) p]
  show "list_all2 (\<lambda>c c'. fn c = Inr c') (managerContainers U u) (managerContainers U u')"
    and "managerContainers U u \<noteq> []" by auto
qed

end

context unstructured_lib
begin

lemma container_env_key:
  "containerEnv U c = (case map_of c ''env'' of Some (VList vs) \<Rightarrow> vs | _ \<Rightarrow> [])"
proof (cases "\<exists>vs. map_of c ''env'' = Some (VList vs)")
  case True
  then show ?thesis by (auto simp: containerEnv_def nested_slice_Some [THEN iffD2] field_key)
next
  case False
  then have "u_NestedSlice U c [''env''] \<noteq> Inr (Some vs)" for vs
    unfolding nested_slice_Some field_key by blast
  with False show ?thesis
    by (auto simp: containerEnv_def split: sum.splits option.splits gval.splits)
qed

lemma container_args_key:
  "containerArgs U c =
     (case map_of c ''args'' of
        Some (VList vs) \<Rightarrow> (case all_strings vs of Some ss \<Rightarrow> ss | None \<Rightarrow> []) | _ \<Rightarrow> [])"
proof (cases "\<exists>ss. map_of c ''args'' = Some (VList (map VStr ss))")
  case True
  then show ?thesis
    by (auto simp: containerArgs_def nested_strings_Some [THEN iffD2] field_key
        all_strings_Some [THEN iffD2])
next
  case False
  then have "u_NestedStringSlice U c [''args''] \<noteq> Inr (Some ss)" for ss
    unfolding nested_strings_Some field_key by blast
  with False show ?thesis
    by (auto simp: containerArgs_def all_strings_Some split: sum.splits option.splits gval.splits)
qed

lemma other_keys_kept:
  assumes "same_except k c c'"
  shows "k \<noteq> ''image'' \<Longrightarrow> map_of c' ''image'' = map_of c ''image''"
    and "k \<noteq> ''env'' \<Longrightarrow> containerEnv U c' = containerEnv U c"
    and "k \<noteq> ''args'' \<Longrightarrow> containerArgs U c' = containerArgs U c"
  using assms by (auto simp: same_except_def container_env_key container_args_key)

lemma kind_frame:
  assumes "withManagerContainer U u fn = Inr u'"
  shows "u_GetKind U u' = u_GetKind U u"
  using with_manager_frame [OF assms, of "[''kind'']"]
  by (simp add: kind_field str_field_def containersPath_def apart_def)

lemma labels_frame_with_manager:
  assumes "withManagerContainer U u fn = Inr u'"
  shows "labels_of U u' = labels_of U u"
  using with_manager_frame [OF assms, of "[''metadata'', ''labels'']"]
  by (intro labels_cong) (simp add: containersPath_def apart_def)

end

text \<open>The settings a manager container has after all transformers.\<close>

definition container_patched :: "unstructured_api \<Rightarrow> params \<Rightarrow> gmap \<Rightarrow> bool" where
  "container_patched U ps c \<longleftrightarrow>
     (OperandImage ps \<noteq> [] \<longrightarrow> map_of c ''image'' = Some (VStr (OperandImage ps))) \<and>
     (TLSMinVersion ps \<noteq> [] \<or> TLSCipherSuites ps \<noteq> [] \<or> TLSGroups ps \<noteq> [] \<longrightarrow>
        envValue U (containerEnv U c) envTLSMinVersion = Some (TLSMinVersion ps) \<and>
        envValue U (containerEnv U c) envTLSCipherSuites = Some (TLSCipherSuites ps) \<and>
        envValue U (containerEnv U c) envTLSGroups = Some (TLSGroups ps) \<and>
        envValue U (containerEnv U c) envPropagateTLS = Some ''true'') \<and>
     flagValue (containerArgs U c) networkPolicyPostureFlag = Some networkPolicyRestrictedPosture \<and>
     (namedOnce (containerArgs U c) networkPolicyPostureFlag \<longrightarrow>
        flagParsed (containerArgs U c) networkPolicyPostureFlag = Some networkPolicyRestrictedPosture)"

definition deployment_patched :: "unstructured_api \<Rightarrow> params \<Rightarrow> gmap \<Rightarrow> bool" where
  "deployment_patched U ps u \<longleftrightarrow>
     managerContainers U u \<noteq> [] \<and> list_all (container_patched U ps) (managerContainers U u)"

context unstructured_lib
begin

lemma image_stage:
  assumes "replaceImage U img u = Inr u'" and "u_GetKind U u = ''Deployment''"
    and "c' \<in> set (managerContainers U u')" and "img \<noteq> []"
  shows "map_of c' ''image'' = Some (VStr img)"
proof -
  from assms(1,4) have "withManagerContainer U u (imagePatch img) = Inr u'"
    by (simp add: replaceImage_def)
  from with_manager_containers(1) [OF this assms(2) patches_keep_name(1)] assms(3)
  obtain c where "imagePatch img c = Inr c'" by (blast dest: list_all2_source)
  then show ?thesis by (rule image_patch)
qed

lemma tls_stage:
  assumes "injectTLSEnvVars U a b g u = Inr u'" and "u_GetKind U u = ''Deployment''"
    and "c' \<in> set (managerContainers U u')"
  obtains c where "c \<in> set (managerContainers U u)" and "map_of c' ''image'' = map_of c ''image''"
    and "a \<noteq> [] \<or> b \<noteq> [] \<or> g \<noteq> [] \<longrightarrow>
      (\<forall>(k, v) \<in> set (tlsSettings a b g). envValue U (containerEnv U c') k = Some v)"
proof (cases "a = [] \<and> b = [] \<and> g = []")
  case True
  with assms that show thesis by (auto simp: injectTLSEnvVars_def)
next
  case False
  with assms(1) have w: "withManagerContainer U u (tlsPatch U (u_GetName U u) a b g) = Inr u'"
    by (auto simp: injectTLSEnvVars_def)
  from with_manager_containers(1) [OF w assms(2) patches_keep_name(2)] assms(3)
  obtain c where c: "c \<in> set (managerContainers U u)" and p: "tlsPatch U (u_GetName U u) a b g c = Inr c'"
    by (blast dest: list_all2_source)
  have "envValue U (containerEnv U c') k = Some v" if "(k, v) \<in> set (tlsSettings a b g)" for k v
    unfolding envValue_read tls_patch(1) [OF p] using that env_names_distinct
    by (intro env.get_puts) auto
  with c tls_patch(2) [OF p] that show thesis by (auto simp: other_keys_kept)
qed

lemma posture_stage:
  assumes "injectNetworkPolicyPostureArg U v u = Inr u'" and "u_GetKind U u = ''Deployment''"
    and "c' \<in> set (managerContainers U u')" and "v \<noteq> []"
  obtains c where "c \<in> set (managerContainers U u)" and "map_of c' ''image'' = map_of c ''image''"
    and "containerEnv U c' = containerEnv U c"
    and "flagValue (containerArgs U c') networkPolicyPostureFlag = Some v"
proof -
  from assms(1,4) have w: "withManagerContainer U u (posturePatch U (u_GetName U u) v) = Inr u'"
    by (simp add: injectNetworkPolicyPostureArg_def)
  from with_manager_containers(1) [OF w assms(2) patches_keep_name(3)] assms(3)
  obtain c where c: "c \<in> set (managerContainers U u)" and p: "posturePatch U (u_GetName U u) v c = Inr c'"
    by (blast dest: list_all2_source)
  have "flagValue (containerArgs U c') networkPolicyPostureFlag = Some v"
    unfolding posture_patch(1) [OF p] setFlagArg_insert flagValue_read
    by (rule flags.read_insert) (rule posture_flag_valid)
  with c posture_patch(2) [OF p] that show thesis by (auto simp: other_keys_kept)
qed

lemma stage_kinds:
  "replaceImage U img u = Inr u' \<Longrightarrow> u_GetKind U u' = u_GetKind U u"
  "injectTLSEnvVars U a b g u = Inr u' \<Longrightarrow> u_GetKind U u' = u_GetKind U u"
  "injectNetworkPolicyPostureArg U v u = Inr u' \<Longrightarrow> u_GetKind U u' = u_GetKind U u"
  by (auto simp: replaceImage_def injectTLSEnvVars_def injectNetworkPolicyPostureArg_def
      intro: kind_frame split: if_splits)

lemma stage_labels:
  "replaceImage U img u = Inr u' \<Longrightarrow> labels_of U u' = labels_of U u"
  "injectTLSEnvVars U a b g u = Inr u' \<Longrightarrow> labels_of U u' = labels_of U u"
  "injectNetworkPolicyPostureArg U v u = Inr u' \<Longrightarrow> labels_of U u' = labels_of U u"
  by (auto simp: replaceImage_def injectTLSEnvVars_def injectNetworkPolicyPostureArg_def
      intro: labels_frame_with_manager split: if_splits)

lemma posture_manager:
  assumes "injectNetworkPolicyPostureArg U v u = Inr u'" and "u_GetKind U u = ''Deployment''" and "v \<noteq> []"
  shows "managerContainers U u' \<noteq> []"
proof -
  from assms(1,3) have w: "withManagerContainer U u (posturePatch U (u_GetName U u) v) = Inr u'"
    by (simp add: injectNetworkPolicyPostureArg_def)
  from with_manager_containers [OF w assms(2) patches_keep_name(3)] show ?thesis
    by (auto dest: list_all2_lengthD)
qed

lemma container_stages:
  assumes "replaceImage U (OperandImage ps) u1 = Inr u2"
    and "injectTLSEnvVars U (TLSMinVersion ps) (TLSCipherSuites ps) (TLSGroups ps) u2 = Inr u3"
    and "injectNetworkPolicyPostureArg U networkPolicyRestrictedPosture u3 = Inr u4"
    and "u_GetKind U u1 = ''Deployment''"
  shows "deployment_patched U ps u4"
proof -
  have k2: "u_GetKind U u2 = ''Deployment''" and k3: "u_GetKind U u3 = ''Deployment''"
    using assms stage_kinds by auto
  have v: "networkPolicyRestrictedPosture \<noteq> []" by (simp add: networkPolicyRestrictedPosture_def)
  have "container_patched U ps c4" if c4: "c4 \<in> set (managerContainers U u4)" for c4
  proof -
    from posture_stage [OF assms(3) k3 c4 v] obtain c3 where c3: "c3 \<in> set (managerContainers U u3)"
      and p: "map_of c4 ''image'' = map_of c3 ''image''" "containerEnv U c4 = containerEnv U c3"
      "flagValue (containerArgs U c4) networkPolicyPostureFlag = Some networkPolicyRestrictedPosture" .
    from tls_stage [OF assms(2) k2 c3] obtain c2 where c2: "c2 \<in> set (managerContainers U u2)"
      and t: "map_of c3 ''image'' = map_of c2 ''image''"
      "TLSMinVersion ps \<noteq> [] \<or> TLSCipherSuites ps \<noteq> [] \<or> TLSGroups ps \<noteq> [] \<longrightarrow>
        (\<forall>(k, v) \<in> set (tlsSettings (TLSMinVersion ps) (TLSCipherSuites ps) (TLSGroups ps)).
          envValue U (containerEnv U c3) k = Some v)" .
    from image_stage [OF assms(1,4) c2] p t show ?thesis
      by (simp add: container_patched_def tlsSettings_def parsed_once)
  qed
  with posture_manager [OF assms(3) k3 v] show ?thesis
    by (simp add: deployment_patched_def list_all_iff)
qed

end

section \<open>The whole pipeline\<close>

text \<open>
  What the provider relies on of manifestival: a manifest made from a slice holds these
  resources; \<open>Transform\<close> applies the transformers in order to every resource and yields no
  manifest when one of them fails; the namespace injection leaves an object's kind and labels
  alone, and a Deployment's containers.
\<close>

fun apply_all :: "transformer list \<Rightarrow> transformer" where
  "apply_all [] u = Inr u"
| "apply_all (t # ts) u = (case t u of Inl e \<Rightarrow> Inl e | Inr u' \<Rightarrow> apply_all ts u')"

definition manifestival_laws :: "'m manifestival_api \<Rightarrow> bool" where
  "manifestival_laws M \<longleftrightarrow>
     (\<forall>rs m. mf_ManifestFrom M rs = Inr m \<longrightarrow> mf_Resources M m = rs) \<and>
     (\<forall>m ts m'. mf_Transform M m ts = Inr m' \<longrightarrow>
        map_result (apply_all ts) (mf_Resources M m) = Inr (mf_Resources M m')) \<and>
     (\<forall>ns u u'. mf_InjectNamespace M ns u = Inr u' \<longrightarrow>
        field (VMap u') [''kind''] = field (VMap u) [''kind''] \<and>
        field (VMap u') [''metadata'', ''labels''] = field (VMap u) [''metadata'', ''labels''] \<and>
        (str_field u [''kind''] = ''Deployment'' \<longrightarrow>
           field (VMap u') containersPath = field (VMap u) containersPath))"

definition metadata_ok :: "gmap \<Rightarrow> bool" where
  "metadata_ok u \<longleftrightarrow> settable (VMap u) [''metadata'', ''labels'']"

definition part_of_module :: "unstructured_api \<Rightarrow> gmap \<Rightarrow> bool" where
  "part_of_module U u \<longleftrightarrow> labels_of U u PlatformPartOf = Some MCPLifecycleOperatorServiceName"

locale manifest_provider = unstructured_lib U for U +
  fixes M :: "'m manifestival_api"
  assumes manifestival: "manifestival_laws M"
begin

lemma rewrite_ca_fields:
  assumes "apart [''metadata'', ''annotations''] q"
  shows "field (VMap (rewriteInjectCA U a b u)) q = field (VMap u) q"
  using annotations_frame [OF assms]
  by (simp add: rewriteInjectCA_def split: option.split)

lemma rewrite_certificate_fields:
  assumes "rewriteCertificate U a b u = Inr u'" and "apart [''spec'', ''dnsNames''] q"
  shows "field (VMap u') q = field (VMap u) q"
  using assms set_strings(2)
  by (fastforce simp: rewriteCertificate_def split: if_splits sum.splits option.splits prod.splits)

lemma rewrite_namespace_fields:
  assumes "rewriteCertManagerNamespace U a b u = Inr u'"
    and "apart [''metadata'', ''annotations''] q" and "apart [''spec'', ''dnsNames''] q"
  shows "field (VMap u') q = field (VMap u) q"
proof (cases "a = b \<or> a = []")
  case True
  with assms show ?thesis by (auto simp: rewriteCertManagerNamespace_def)
next
  case False
  with assms(1) have "rewriteCertificate U a b (rewriteInjectCA U a b u) = Inr u'"
    by (auto simp: rewriteCertManagerNamespace_def)
  from rewrite_certificate_fields [OF this assms(3)] rewrite_ca_fields [OF assms(2)]
  show ?thesis by simp
qed

lemma apart_paths:
  "apart [''metadata'', ''annotations''] [''kind'']" "apart [''spec'', ''dnsNames''] [''kind'']"
  "apart [''metadata'', ''annotations''] [''metadata'', ''labels'']"
  "apart [''spec'', ''dnsNames''] [''metadata'', ''labels'']"
  "apart [''metadata'', ''annotations''] containersPath" "apart [''spec'', ''dnsNames''] containersPath"
  "apart [''metadata'', ''labels''] [''kind'']"
  by (simp_all add: apart_def containersPath_def)

lemma inject_labels:
  assumes "injectLabels U [(k, v)] u = Inr u'" and "metadata_ok u"
  shows "labels_of U u' k = Some v" and "u_GetKind U u' = u_GetKind U u"
    and "l \<noteq> k \<Longrightarrow> labels_of U u' l = labels_of U u l"
proof -
  from assms obtain m where u': "u' = u_SetLabels U u (AList.update k v m)"
    and m: "labels_of U u = map_of m"
    by (auto simp: injectLabels_def Let_def labels_of_def split: option.splits)
  then show "labels_of U u' k = Some v" and "l \<noteq> k \<Longrightarrow> labels_of U u' l = labels_of U u l"
    using labels_set assms(2) by (simp_all add: metadata_ok_def)
  show "u_GetKind U u' = u_GetKind U u"
    using labels_frame [OF apart_paths(7)] by (simp add: u' kind_field str_field_def)
qed

lemma pipeline:
  assumes "apply_all (operandTransformers U M ns ps) u = Inr u'" and "metadata_ok u"
  shows "part_of_module U u'"
    and "u_GetKind U u' = u_GetKind U u"
    and "u_GetKind U u' = ''Deployment'' \<Longrightarrow> deployment_patched U ps u'"
proof -
  from assms(1) obtain u1 u2 u3 u4 u5 where
    s1: "injectLabels U [(PlatformPartOf, MCPLifecycleOperatorServiceName)] u = Inr u1" and
    s2: "mf_InjectNamespace M ns u1 = Inr u2" and
    s3: "rewriteCertManagerNamespace U DefaultOperandNamespace ns u2 = Inr u3" and
    s4: "replaceImage U (OperandImage ps) u3 = Inr u4" and
    s5: "injectTLSEnvVars U (TLSMinVersion ps) (TLSCipherSuites ps) (TLSGroups ps) u4 = Inr u5" and
    s6: "injectNetworkPolicyPostureArg U networkPolicyRestrictedPosture u5 = Inr u'"
    by (auto simp: operandTransformers_def split: sum.splits)
  have ns: "field (VMap u2) [''kind''] = field (VMap u1) [''kind'']"
    "field (VMap u2) [''metadata'', ''labels''] = field (VMap u1) [''metadata'', ''labels'']"
    using manifestival s2 unfolding manifestival_laws_def by blast+
  note cert = rewrite_namespace_fields [OF s3]
  have kinds: "u_GetKind U u3 = u_GetKind U u" "u_GetKind U u' = u_GetKind U u3"
    using inject_labels(2) [OF s1 assms(2)] ns(1) cert [OF apart_paths(1,2)]
      stage_kinds(1) [OF s4] stage_kinds(2) [OF s5] stage_kinds(3) [OF s6]
    by (simp_all only: kind_field str_field_def)
  have "labels_of U u' = labels_of U u1"
    using labels_cong [OF ns(2)] labels_cong [OF cert [OF apart_paths(3,4)]]
      stage_labels(1) [OF s4] stage_labels(2) [OF s5] stage_labels(3) [OF s6] by simp
  then show "part_of_module U u'"
    using inject_labels(1) [OF s1 assms(2)] by (simp add: part_of_module_def)
  show "u_GetKind U u' = u_GetKind U u" using kinds by simp
  show "deployment_patched U ps u'" if "u_GetKind U u' = ''Deployment''"
    using container_stages [OF s4 s5 s6] that kinds by simp
qed

lemma manifests_sources:
  assumes "Manifests U M p ps = Inr rs" and "r \<in> set rs"
  obtains ls u ns where "loadResources p = Inr ls" and "u \<in> set ls"
    and "apply_all (operandTransformers U M ns ps) u = Inr r"
proof -
  from assms(1) obtain ls m m' where l: "loadResources p = Inr ls" and m: "mf_ManifestFrom M ls = Inr m"
    and t: "mf_Transform M m (operandTransformers U M (if OperandNamespace ps = [] then DefaultOperandNamespace
              else OperandNamespace ps) ps) = Inr m'" and rs: "rs = mf_Resources M m'"
    by (auto simp: Manifests_def Let_def split: sum.splits)
  have "mf_Resources M m = ls" using manifestival m unfolding manifestival_laws_def by blast
  moreover have "map_result (apply_all (operandTransformers U M (if OperandNamespace ps = []
      then DefaultOperandNamespace else OperandNamespace ps) ps)) (mf_Resources M m) = Inr rs"
    using manifestival t rs unfolding manifestival_laws_def by blast
  ultimately show thesis using map_result_member [OF _ assms(2)] l that by blast
qed

end

section \<open>A manifestival\<close>

text \<open>Manifests are their resources; the namespace is written for every object.\<close>

definition list_manifestival :: "gmap list manifestival_api" where
  "list_manifestival = \<lparr>
     mf_ManifestFrom = Inr,
     mf_Transform = (\<lambda>m ts. map_result (apply_all ts) m),
     mf_Resources = (\<lambda>m. m),
     mf_InjectNamespace = (\<lambda>ns u. ref_set VStr u ns [''metadata'', ''namespace''])\<rparr>"

lemma list_manifestival_laws: "manifestival_laws list_manifestival"
proof -
  have frame: "field (VMap u') q = field (VMap u) q"
    if "ref_set VStr u ns [''metadata'', ''namespace''] = Inr u'" "apart [''metadata'', ''namespace''] q"
    for ns u u' q
    using ref_set_writes [of VStr] that unfolding writes_field_def by blast
  have apart: "apart [''metadata'', ''namespace''] [''kind'']"
    "apart [''metadata'', ''namespace''] [''metadata'', ''labels'']"
    "apart [''metadata'', ''namespace''] containersPath"
    by (simp_all add: apart_def containersPath_def)
  show ?thesis
    unfolding manifestival_laws_def list_manifestival_def manifestival_api.simps
  proof (intro conjI allI impI)
    fix rs m :: "gmap list"
    assume "Inr rs = (Inr m :: gmap list result)"
    then show "m = rs" by simp
  qed (blast intro: frame apart)+
qed

interpretation embedded: manifest_provider json_unstructured list_manifestival
  by unfold_locales (rule list_manifestival_laws)

end
