(* ===== verification/Reconciler.thy ===== *)
theory Reconciler
  imports Readiness Migration_Spec Gateway_Discovery TLS_Config Kustomize
begin

text \<open>
  internal/controller/mcplifecycleoperator_reconciler.go: one reconcile of the custom resource,
  from reading it to patching its status. What the reconciler calls outside the sources is
  gathered in the record \<open>platform\<close>; its own fields are the record \<open>reconciler\<close>. A reconcile is a
  function of the resource and the world; it is None when the conversion check does not return.
\<close>

record ('w, 'm) platform =
  pl_kube :: "'w kube"
  pl_unstructured :: unstructured_api
  pl_manifestival :: "'m manifestival_api"
  pl_json :: json_api
  pl_tls :: "'w tls_api"
  pl_conditions :: conditions_api

record reconciler =
  r_ManifestProvider :: kustomize_provider
  r_OperatorVersion :: string
  r_PodNamespace :: string
  r_OperandImage :: string
  r_watches :: gateway_watches

record platform_config =
  pc_Available :: bool
  pc_DistributionName :: string
  pc_DistributionVersion :: string

definition platformConfigName :: string where
  "platformConfigName = ''odh-'' @ MCPLifecycleOperatorServiceName @ ''-config''"

definition platformVersionKey :: string where "platformVersionKey = ''platformVersion''"
definition distributionNameKey :: string where "distributionNameKey = ''distribution.name''"
definition distributionVersionKey :: string where "distributionVersionKey = ''distribution.version''"
definition platformReleaseName :: string where "platformReleaseName = ''platform''"
definition distributionStandalone :: string where "distributionStandalone = ''Standalone''"

section \<open>The platform configuration\<close>

text \<open>A missing key of a Go map of strings reads as the empty string.\<close>

definition data_at :: "string go_map \<Rightarrow> string \<Rightarrow> string" where
  "data_at m k = (case map_of m k of None \<Rightarrow> [] | Some v \<Rightarrow> v)"

definition getPlatformConfig :: "'w kube \<Rightarrow> reconciler \<Rightarrow> 'w \<Rightarrow> platform_config \<times> 'w" where
  "getPlatformConfig K r w =
     (case k_GetConfigMap K (r_PodNamespace r, platformConfigName) w of
        (Inl err, w) \<Rightarrow>
          (if \<not> k_IsNotFound K err
           then (\<lparr>pc_Available = False, pc_DistributionName = [], pc_DistributionVersion = []\<rparr>, w)
           else (\<lparr>pc_Available = True, pc_DistributionName = distributionStandalone,
                  pc_DistributionVersion = r_OperatorVersion r\<rparr>, w))
      | (Inr data, w) \<Rightarrow>
          (let name = data_at data distributionNameKey;
               name = (if name = [] then distributionStandalone else name);
               version = data_at data distributionVersionKey;
               version = (if version = [] then data_at data platformVersionKey else version);
               version = (if version = [] then r_OperatorVersion r else version)
           in (\<lparr>pc_Available = True, pc_DistributionName = name, pc_DistributionVersion = version\<rparr>, w)))"

section \<open>Status\<close>

definition setReleases :: "reconciler \<Rightarrow> operator_cr \<Rightarrow> operator_cr" where
  "setReleases r cr =
     (let v = dist_version (st_distribution (cr_status cr)) in
      SetReleaseStatus cr
        (\<lparr>rel_name = MCPLifecycleOperatorServiceName,
          rel_repo_url = ''https://github.com/opendatahub-io/mcp-lifecycle-module-operator'',
          rel_version = r_OperatorVersion r\<rparr> #
         (if v \<noteq> [] then [\<lparr>rel_name = platformReleaseName, rel_repo_url = [], rel_version = v\<rparr>]
          else [])))"

definition updateBaseStatus ::
    "reconciler \<Rightarrow> conditions_manager \<Rightarrow> platform_config \<Rightarrow> operator_cr \<Rightarrow> operator_cr" where
  "updateBaseStatus r cm pc cr =
     (let cr = cr\<lparr>cr_status := (cr_status cr)\<lparr>st_observed_generation := cr_generation cr\<rparr>\<rparr>;
          cr = cr\<lparr>cr_status := (cr_status cr)\<lparr>st_phase := Phase cm (GetConditions cr)\<rparr>\<rparr>
      in if pc_Available pc then setReleases r cr else cr)"

definition setDistributionStatus :: "platform_config \<Rightarrow> operator_cr \<Rightarrow> operator_cr" where
  "setDistributionStatus pc cr =
     cr\<lparr>cr_status := (cr_status cr)\<lparr>st_distribution :=
       \<lparr>dist_name = pc_DistributionName pc, dist_version = pc_DistributionVersion pc\<rparr>\<rparr>\<rparr>"

definition conversionHandshakeSettled ::
    "conditions_api \<Rightarrow> operator_cr \<Rightarrow> platform_config \<Rightarrow> bool" where
  "conversionHandshakeSettled lib cr pc \<longleftrightarrow>
     pc_Available pc \<and>
     dist_name (st_distribution (cr_status cr)) = pc_DistributionName pc \<and>
     dist_version (st_distribution (cr_status cr)) = pc_DistributionVersion pc \<and>
     lib_is_true lib (GetConditions cr) ConditionMCPServerConversionVerified"

section \<open>Garbage collection\<close>

type_synonym resource_key = "(string \<times> string \<times> string) \<times> string \<times> string"

definition resourceKey :: "unstructured_api \<Rightarrow> gmap \<Rightarrow> resource_key" where
  "resourceKey U obj = (u_GroupVersionKind U obj, u_GetNamespace U obj, u_GetName U obj)"

definition garbageConfig ::
    "unstructured_api \<Rightarrow> reconciler \<Rightarrow> string \<Rightarrow> gmap list \<Rightarrow> gc_config" where
  "garbageConfig U r operandNamespace desired =
     (let desiredSet = map (resourceKey U) desired in
      \<lparr>gc_only_owned = False,
       gc_label = (PlatformPartOf, MCPLifecycleOperatorServiceName),
       gc_namespace = operandNamespace,
       gc_predicate = (\<lambda>obj. \<not> List.member desiredSet (resourceKey U obj)),
       gc_version = r_OperatorVersion r,
       gc_platform_type = ''OpenDataHub''\<rparr>)"

definition collectGarbage ::
    "'w kube \<Rightarrow> unstructured_api \<Rightarrow> reconciler \<Rightarrow> operator_cr \<Rightarrow> string \<Rightarrow> gmap list \<Rightarrow> 'w
      \<Rightarrow> gerror option \<times> 'w" where
  "collectGarbage K U r cr operandNamespace desired w =
     k_Collect K cr (garbageConfig U r operandNamespace desired) w"

definition resolveOperandNamespace :: "reconciler \<Rightarrow> string" where
  "resolveOperandNamespace r = r_PodNamespace r"

definition ownedConfig :: "reconciler \<Rightarrow> gc_config" where
  "ownedConfig r =
     \<lparr>gc_only_owned = False,
      gc_label = (PlatformPartOf, MCPLifecycleOperatorServiceName),
      gc_namespace = resolveOperandNamespace r,
      gc_predicate = (\<lambda>obj. True),
      gc_version = r_OperatorVersion r,
      gc_platform_type = ''OpenDataHub''\<rparr>"

definition deleteAllOwned ::
    "'w kube \<Rightarrow> reconciler \<Rightarrow> operator_cr \<Rightarrow> 'w \<Rightarrow> gerror option \<times> 'w" where
  "deleteAllOwned K r cr w = k_Collect K cr (ownedConfig r) w"

definition applyResources ::
    "'w kube \<Rightarrow> reconciler \<Rightarrow> operator_cr \<Rightarrow> gmap list \<Rightarrow> 'w \<Rightarrow> gerror option \<times> 'w" where
  "applyResources K r cr desired w =
     k_Deploy K
       \<lparr>di_owner = cr, di_release_type = ''OpenDataHub'', di_release_version = r_OperatorVersion r,
        di_resources = desired\<rparr> w"

section \<open>Removal\<close>

definition markRemoved :: "conditions_manager \<Rightarrow> operator_cr \<Rightarrow> operator_cr" where
  "markRemoved cm cr =
     (let msg = ''MCPLifecycleOperator is in Removed state'';
          cr = onConditions (MarkFalse cm ConditionMCPLifecycleOperatorAvailable ''Removed'' msg) cr;
          cr = onConditions (MarkFalse cm ConditionTypeReady ''Removed'' msg) cr;
          cr = onConditions (MarkFalse cm ConditionTypeProvisioningSucceeded ''Removed'' msg) cr
      in onConditions (MarkFalse cm ConditionTypeDegraded ''NotDegraded'' []) cr)"

type_synonym 'w reconcile_out = "ctrl_result \<times> gerror option \<times> operator_cr \<times> 'w"

definition handleRemoved ::
    "'w kube \<Rightarrow> reconciler \<Rightarrow> conditions_manager \<Rightarrow> operator_cr \<Rightarrow> 'w \<Rightarrow> 'w reconcile_out" where
  "handleRemoved K r cm cr w =
     (case deleteAllOwned K r cr w of
        (Some err, w) \<Rightarrow>
          (requeueIn defaultRequeueDelay, Some (Wrapped ''deleting owned resources'' err), cr, w)
      | (None, w) \<Rightarrow>
          (case deleteStorageMigration K w of
             (Some err, w) \<Rightarrow>
               (if \<not> k_IsNotFound K err
                then (requeueIn defaultRequeueDelay,
                      Some (Wrapped ''deleting storage-version migration'' err), cr, w)
                else (emptyResult, None, markRemoved cm cr, w))
           | (None, w) \<Rightarrow> (emptyResult, None, markRemoved cm cr, w)))"

section \<open>The reconcile\<close>

definition withFallbackRequeue :: "resolved_tls \<Rightarrow> ctrl_result \<Rightarrow> ctrl_result" where
  "withFallbackRequeue tlsConfig result =
     (if rt_UsedTransientFallback tlsConfig \<and> RequeueAfter result = 0
      then requeueIn defaultRequeueDelay else result)"

text \<open>From the gates on: lines 275 to 323.\<close>

definition finishReconcile ::
    "('w, 'm) platform \<Rightarrow> conditions_manager \<Rightarrow> platform_config \<Rightarrow> resolved_tls \<Rightarrow> operator_cr \<Rightarrow> 'w
      \<Rightarrow> 'w reconcile_out" where
  "finishReconcile P cm pc tlsConfig cr w =
     (let cr = onConditions (AggregateReady cm)
                 (onConditions (MarkTrue cm ConditionMCPLifecycleOperatorAvailable) cr);
          cr = (if pc_Available pc then setDistributionStatus pc cr else cr);
          (result, cr, w) = reconcileStorageMigration (pl_kube P) (pl_unstructured P) cm cr w
      in (withFallbackRequeue tlsConfig result, None, cr, w))"

definition gatedReconcile ::
    "('w, 'm) platform \<Rightarrow> conditions_manager \<Rightarrow> platform_config \<Rightarrow> resolved_tls \<Rightarrow> gmap list
      \<Rightarrow> operator_cr \<Rightarrow> 'w \<Rightarrow> 'w reconcile_out option" where
  "gatedReconcile P cm pc tlsConfig desired cr w =
     (case checkDeploymentsReady (pl_kube P) (pl_unstructured P) cm desired cr w of
        (result, ready, cr, w) \<Rightarrow>
          if \<not> ready then Some (withFallbackRequeue tlsConfig result, None, cr, w)
          else if \<not> conversionHandshakeSettled (cm_lib cm) cr pc then
            (case checkConversionHealth (pl_kube P) cm cr w of
               None \<Rightarrow> None
             | Some (result, healthy, cr, w) \<Rightarrow>
                 if \<not> healthy then Some (result, None, cr, w)
                 else Some (finishReconcile P cm pc tlsConfig
                        (onConditions (MarkTrueWithReason cm ConditionMCPServerConversionVerified
                           ''ConversionVerified'') cr) w))
          else Some (finishReconcile P cm pc tlsConfig cr w))"

text \<open>Applying the manifests: lines 225 to 273, then the gates.\<close>

definition applyReconcile ::
    "('w, 'm) platform \<Rightarrow> reconciler \<Rightarrow> conditions_manager \<Rightarrow> platform_config \<Rightarrow> operator_cr \<Rightarrow> 'w
      \<Rightarrow> 'w reconcile_out option" where
  "applyReconcile P r cm pc cr w =
     (case ResolveTLSConfig (pl_tls P) w of
        (Inl err, w) \<Rightarrow>
          Some (emptyResult, Some (Wrapped ''fetching TLS config'' err),
            markUnavailable cm ''TLSConfigFetchFailed''
              (''Failed to fetch TLS config: '' @ Error err) cr, w)
      | (Inr tlsConfig, w) \<Rightarrow>
          (case Manifests (pl_unstructured P) (pl_manifestival P) (r_ManifestProvider r)
                  \<lparr>OperandNamespace = r_PodNamespace r, OperandImage = r_OperandImage r,
                   TLSMinVersion = rt_MinVersion tlsConfig,
                   TLSCipherSuites = rt_CipherSuites tlsConfig, TLSGroups = rt_Groups tlsConfig\<rparr> of
             Inl err \<Rightarrow>
               Some (emptyResult, Some (Wrapped ''rendering operand manifests'' err),
                 markUnavailable cm ''ManifestRenderFailed''
                   (''Failed to render operand manifests: '' @ Error err) cr, w)
           | Inr desired \<Rightarrow>
               (case applyResources (pl_kube P) r cr desired w of
                  (Some err, w) \<Rightarrow>
                    Some (emptyResult, Some (Wrapped ''applying operand resources'' err),
                      markUnavailable cm ''DeployFailed''
                        (''Failed to apply operand resources: '' @ Error err) cr, w)
                | (None, w) \<Rightarrow>
                    (case collectGarbage (pl_kube P) (pl_unstructured P) r cr (r_PodNamespace r) desired w of
                       (Some err, w) \<Rightarrow>
                         Some (emptyResult, Some (Wrapped ''collecting garbage'' err),
                           markUnavailable cm ''GarbageCollectionFailed''
                             (''Failed to collect garbage: '' @ Error err) cr, w)
                     | (None, w) \<Rightarrow> gatedReconcile P cm pc tlsConfig desired cr w))))"

definition setGateways :: "mcp_gateway_info list result \<Rightarrow> operator_cr \<Rightarrow> operator_cr" where
  "setGateways found cr =
     (case found of
        Inl err \<Rightarrow> cr
      | Inr gateways \<Rightarrow> cr\<lparr>cr_status := (cr_status cr)\<lparr>st_gateways := gateways\<rparr>\<rparr>)"

definition reconcile ::
    "('w, 'm) platform \<Rightarrow> reconciler \<Rightarrow> operator_cr \<Rightarrow> 'w \<Rightarrow> (reconciler \<times> 'w reconcile_out) option" where
  "reconcile P r cr w =
     (let cm = NewConditionsManager (pl_conditions P) (cr_generation cr);
          (pc, w) = getPlatformConfig (pl_kube P) r w;
          base = updateBaseStatus r cm pc
      in if cr_management_state cr = Removed then
           (case handleRemoved (pl_kube P) r cm cr w of
              (result, err, cr, w) \<Rightarrow> Some (r, result, err, base cr, w))
         else
           (let (found, w) = discoverMCPGateways (pl_kube P) (pl_unstructured P) (pl_json P) w;
                cr = setGateways found cr;
                (watches, w) = tryRegisterGatewayWatches (pl_kube P) (r_watches r) w;
                r = r\<lparr>r_watches := watches\<rparr>
            in (case applyReconcile P r cm pc cr w of
                  None \<Rightarrow> None
                | Some (result, err, cr, w) \<Rightarrow> Some (r, result, err, base cr, w))))"

definition patchStatus :: "'w kube \<Rightarrow> operator_cr \<Rightarrow> operator_cr \<Rightarrow> 'w \<Rightarrow> gerror option \<times> 'w" where
  "patchStatus K orig updated w = k_PatchStatus K orig updated w"

definition Reconcile ::
    "('w, 'm) platform \<Rightarrow> reconciler \<Rightarrow> string \<Rightarrow> 'w
      \<Rightarrow> (reconciler \<times> ctrl_result \<times> gerror option \<times> 'w) option" where
  "Reconcile P r name w =
     (case k_GetOperator (pl_kube P) name w of
        (Inl err, w) \<Rightarrow>
          (if k_IsNotFound (pl_kube P) err then Some (r, emptyResult, None, w)
           else Some (r, emptyResult, Some err, w))
      | (Inr orig, w) \<Rightarrow>
          (case reconcile P r orig w of
             None \<Rightarrow> None
           | Some (r, result, reconcileErr, cr, w) \<Rightarrow>
               (case patchStatus (pl_kube P) orig cr w of
                  (Some patchErr, w) \<Rightarrow>
                    (if reconcileErr \<noteq> None
                     then Some (r, emptyResult, errors_Join [reconcileErr, Some patchErr], w)
                     else Some (r, emptyResult, Some patchErr, w))
                | (None, w) \<Rightarrow> Some (r, result, reconcileErr, w))))"

section \<open>Watches\<close>

text \<open>
  The metadata the predicates of SetupWithManager read of an object, and the watches it registers;
  building the controller and asking the REST mapper for OpenShift's APIServer are parameters.
\<close>

record object_meta =
  om_name :: string
  om_namespace :: string
  om_labels :: "string go_map"

definition enqueueComponentCR :: "object_meta \<Rightarrow> nsname list" where
  "enqueueComponentCR obj = [([], MCPLifecycleOperatorInstanceName)]"

definition managedPredicate :: "object_meta \<Rightarrow> bool" where
  "managedPredicate obj \<longleftrightarrow> data_at (om_labels obj) PlatformPartOf = MCPLifecycleOperatorServiceName"

definition platformConfigPredicate :: "reconciler \<Rightarrow> object_meta \<Rightarrow> bool" where
  "platformConfigPredicate r obj \<longleftrightarrow>
     om_name obj = platformConfigName \<and> om_namespace obj = r_PodNamespace r"

definition gatewayCRDPredicate :: "object_meta \<Rightarrow> bool" where
  "gatewayCRDPredicate obj \<longleftrightarrow>
     om_name obj = ''mcpgatewayextensions.mcp.kuadrant.io'' \<or>
     om_name obj = ''gateways.gateway.networking.k8s.io''"

definition registeredWatches :: "reconciler \<Rightarrow> bool \<Rightarrow> (string \<times> (object_meta \<Rightarrow> bool)) list" where
  "registeredWatches r openShift =
     [(''ConfigMap'', platformConfigPredicate r),
      (''Deployment'', managedPredicate),
      (''ServiceAccount'', managedPredicate),
      (''Service'', managedPredicate),
      (''ClusterRole'', managedPredicate),
      (''ClusterRoleBinding'', managedPredicate),
      (''Role'', managedPredicate),
      (''RoleBinding'', managedPredicate),
      (''CustomResourceDefinition'', \<lambda>obj. managedPredicate obj \<or> gatewayCRDPredicate obj)] @
     (if openShift then [(''APIServer'', \<lambda>obj. True)] else [])"

definition SetupWithManager ::
    "bool \<Rightarrow> ((string \<times> (object_meta \<Rightarrow> bool)) list \<Rightarrow> gerror option) \<Rightarrow> reconciler
      \<Rightarrow> gerror option \<times> reconciler" where
  "SetupWithManager openShift build r =
     (case build (registeredWatches r openShift) of
        Some err \<Rightarrow> (Some err, r\<lparr>r_watches := (r_watches r)\<lparr>gw_controller := False\<rparr>\<rparr>)
      | None \<Rightarrow> (None, r\<lparr>r_watches := (r_watches r)\<lparr>gw_controller := True\<rparr>\<rparr>))"

text \<open>The requests an event on an object of a kind leads to, through its watches.\<close>

definition requestsFor :: "reconciler \<Rightarrow> bool \<Rightarrow> string \<Rightarrow> object_meta \<Rightarrow> nsname list" where
  "requestsFor r openShift kind obj =
     concat (map (\<lambda>(k, p). enqueueComponentCR obj)
       (filter (\<lambda>(k, p). k = kind \<and> p obj) (registeredWatches r openShift)))"

text \<open>At most one watch is registered per kind, so an event leads to at most one request.\<close>

definition labelled_kinds :: "string list" where
  "labelled_kinds =
     [''Deployment'', ''ServiceAccount'', ''Service'', ''ClusterRole'', ''ClusterRoleBinding'', ''Role'',
      ''RoleBinding'']"

lemma managed_label:
  "managedPredicate obj \<longleftrightarrow> map_of (om_labels obj) PlatformPartOf = Some MCPLifecycleOperatorServiceName"
  by (auto simp: managedPredicate_def data_at_def MCPLifecycleOperatorServiceName_def split: option.split)

lemma gateway_crd_names:
  "gatewayCRDPredicate obj \<longleftrightarrow> om_name obj \<in> {mcpGatewayExtensionCRDName, gatewayCRDName}"
  by (simp add: gatewayCRDPredicate_def mcpGatewayExtensionCRDName_def gatewayCRDName_def)

lemma watching_kinds:
  "(\<exists>p. (kind, p) \<in> set (registeredWatches r openShift) \<and> p obj) \<longleftrightarrow>
     kind = ''ConfigMap'' \<and> platformConfigPredicate r obj \<or>
     kind \<in> set labelled_kinds \<and> managedPredicate obj \<or>
     kind = ''CustomResourceDefinition'' \<and> (managedPredicate obj \<or> gatewayCRDPredicate obj) \<or>
     kind = ''APIServer'' \<and> openShift"
  unfolding registeredWatches_def labelled_kinds_def by (simp add: conj_disj_distribR ex_disj_distrib)

lemma watches_distinct: "distinct (map fst (registeredWatches r openShift))"
  by (simp add: registeredWatches_def)

lemma filter_kind_absent: "kind \<notin> fst ` set ws \<Longrightarrow> filter (\<lambda>(k, p). k = kind \<and> p obj) ws = []"
  by (induction ws) auto

lemma requests_pick:
  "distinct (map fst ws) \<Longrightarrow>
     concat (map (\<lambda>(k, p). [x]) (filter (\<lambda>(k, p). k = kind \<and> p obj) ws)) =
     (if \<exists>p. (kind, p) \<in> set ws \<and> p obj then [x] else [])"
proof (induction ws)
  case Nil
  then show ?case by simp
next
  case (Cons a ws)
  obtain k p where a: "a = (k, p)" by fastforce
  show ?case
  proof (cases "k = kind")
    case True
    with Cons.prems a have absent: "kind \<notin> fst ` set ws" by simp
    then have "(kind, q) \<notin> set ws" for q by force
    with True a show ?thesis by (auto simp: filter_kind_absent [OF absent])
  next
    case False
    with Cons a show ?thesis by simp
  qed
qed

lemma requests_watching:
  "requestsFor r openShift kind obj =
     (if \<exists>p. (kind, p) \<in> set (registeredWatches r openShift) \<and> p obj
      then [([], MCPLifecycleOperatorInstanceName)] else [])"
  by (simp add: requestsFor_def enqueueComponentCR_def requests_pick [OF watches_distinct])

end
