(* ===== verification/Reconcile_Spec.thy ===== *)
theory Reconcile_Spec
  imports Reconciler
begin

text \<open>
  What a reconcile leaves behind, as a relation: a managed reconcile fails in a stage, is held
  back by a gate, or passes both gates and drives the storage migration. The handlers refine it;
  the properties of a reconcile are read off its three cases.
\<close>

section \<open>Outcomes of a managed reconcile\<close>

definition markAvailable :: "conditions_manager \<Rightarrow> platform_config \<Rightarrow> operator_cr \<Rightarrow> operator_cr" where
  "markAvailable cm pc cr =
     (let cr = onConditions (AggregateReady cm)
                 (onConditions (MarkTrue cm ConditionMCPLifecycleOperatorAvailable) cr)
      in if pc_Available pc then setDistributionStatus pc cr else cr)"

definition markVerified :: "conditions_manager \<Rightarrow> operator_cr \<Rightarrow> operator_cr" where
  "markVerified cm cr =
     onConditions (MarkTrueWithReason cm ConditionMCPServerConversionVerified ''ConversionVerified'') cr"

text \<open>
  The stages up to the deployments gate, from the world \<open>w\<close> to \<open>w'\<close>: the TLS policy resolved, the
  manifests rendered with it, applied and cleaned up after, and every Deployment among them then
  read with its replicas available.
\<close>

definition manifest_params :: "reconciler \<Rightarrow> resolved_tls \<Rightarrow> params" where
  "manifest_params r tls =
     \<lparr>OperandNamespace = r_PodNamespace r, OperandImage = r_OperandImage r,
      TLSMinVersion = rt_MinVersion tls, TLSCipherSuites = rt_CipherSuites tls, TLSGroups = rt_Groups tls\<rparr>"

definition rendered :: "('w, 'm) platform \<Rightarrow> reconciler \<Rightarrow> resolved_tls \<Rightarrow> gmap list \<Rightarrow> bool" where
  "rendered P r tls desired \<longleftrightarrow>
     Manifests (pl_unstructured P) (pl_manifestival P) (r_ManifestProvider r) (manifest_params r tls)
       = Inr desired"

definition applied ::
    "('w, 'm) platform \<Rightarrow> reconciler \<Rightarrow> operator_cr \<Rightarrow> 'w \<Rightarrow> resolved_tls \<Rightarrow> gmap list \<Rightarrow> 'w \<Rightarrow> bool" where
  "applied P r cr w tls desired w' \<longleftrightarrow>
     (\<exists>w1 w2. ResolveTLSConfig (pl_tls P) w = (Inr tls, w1) \<and> rendered P r tls desired \<and>
        applyResources (pl_kube P) r cr desired w1 = (None, w2) \<and>
        collectGarbage (pl_kube P) (pl_unstructured P) r cr (r_PodNamespace r) desired w2 = (None, w'))"

definition operand_up ::
    "('w, 'm) platform \<Rightarrow> reconciler \<Rightarrow> operator_cr \<Rightarrow> 'w \<Rightarrow> resolved_tls \<Rightarrow> 'w \<Rightarrow> bool" where
  "operand_up P r cr w tls w' \<longleftrightarrow>
     (\<exists>desired w1. applied P r cr w tls desired w1 \<and>
        reads_available (pl_kube P) (findDeploymentNames (pl_unstructured P) desired) w1 w')"

text \<open>The conversion gate passed between two worlds, its last listing running through all pages.\<close>

definition conversion_listed ::
    "('w, 'm) platform \<Rightarrow> conditions_manager \<Rightarrow> operator_cr \<Rightarrow> 'w \<Rightarrow> 'w \<Rightarrow> bool" where
  "conversion_listed P cm cr w w' \<longleftrightarrow>
     checkConversionHealth (pl_kube P) cm cr w = Some (emptyResult, True, cr, w') \<and>
     (\<exists>w0. pages (pl_kube P) [] w0 w')"

inductive outcome ::
    "('w, 'm) platform \<Rightarrow> reconciler \<Rightarrow> conditions_manager \<Rightarrow> platform_config \<Rightarrow> operator_cr \<Rightarrow> 'w
      \<Rightarrow> 'w reconcile_out \<Rightarrow> bool"
  for P r cm pc cr w where
  failed: "outcome P r cm pc cr w (emptyResult, Some err, markUnavailable cm reason message cr, w')"
| held: "applied P r cr w tls desired w1 \<Longrightarrow>
    outcome P r cm pc cr w (requeueIn defaultRequeueDelay, None, markUnavailable cm reason message cr, w')"
| settled: "operand_up P r cr w tls w1 \<Longrightarrow> conversionHandshakeSettled (cm_lib cm) cr pc \<Longrightarrow>
    reconcileStorageMigration (pl_kube P) (pl_unstructured P) cm (markAvailable cm pc cr) w1 = (res, cr', w') \<Longrightarrow>
    outcome P r cm pc cr w (withFallbackRequeue tls res, None, cr', w')"
| verified: "operand_up P r cr w tls w1 \<Longrightarrow> \<not> conversionHandshakeSettled (cm_lib cm) cr pc \<Longrightarrow>
    conversion_listed P cm cr w1 w2 \<Longrightarrow>
    reconcileStorageMigration (pl_kube P) (pl_unstructured P) cm
      (markAvailable cm pc (markVerified cm cr)) w2 = (res, cr', w') \<Longrightarrow>
    outcome P r cm pc cr w (withFallbackRequeue tls res, None, cr', w')"

lemma finish_unfold:
  "finishReconcile P cm pc tls cr w =
     (case reconcileStorageMigration (pl_kube P) (pl_unstructured P) cm (markAvailable cm pc cr) w of
        (res, cr, w) \<Rightarrow> (withFallbackRequeue tls res, None, cr, w))"
  by (simp add: finishReconcile_def markAvailable_def Let_def split: prod.split)

lemma fallback_keeps_delay [simp]:
  "withFallbackRequeue tls (requeueIn defaultRequeueDelay) = requeueIn defaultRequeueDelay"
  by (simp add: withFallbackRequeue_def)

lemma gated_outcome:
  assumes "gatedReconcile P cm pc tls desired cr w = Some out" and "applied P r cr w0 tls desired w"
  shows "outcome P r cm pc cr w0 out"
proof -
  obtain res b cr1 w2 where d: "checkDeploymentsReady (pl_kube P) (pl_unstructured P) cm desired cr w
    = (res, b, cr1, w2)" by (metis prod_cases4)
  show ?thesis
  proof (cases b)
    case False
    with d have "checkDeploymentsReady (pl_kube P) (pl_unstructured P) cm desired cr w = (res, False, cr1, w2)"
      by simp
    note h = deployments_gate.holds [OF this]
    with assms(1) d False show ?thesis by (auto simp: gatedReconcile_def gate_held_def intro: held [OF assms(2)])
  next
    case True
    with d have cr1: "cr1 = cr"
      and "reads_available (pl_kube P) (findDeploymentNames (pl_unstructured P) desired) w w2"
      by (auto simp: checkDeploymentsReady_def deployments_passed)
    with assms(2) have up: "operand_up P r cr w0 tls w2" unfolding operand_up_def by blast
    show ?thesis
    proof (cases "conversionHandshakeSettled (cm_lib cm) cr pc")
      case settled: True
      with assms(1) d True cr1 have "out = finishReconcile P cm pc tls cr w2"
        by (simp add: gatedReconcile_def)
      with up settled show ?thesis
        by (auto simp: finish_unfold split: prod.splits intro: outcome.settled)
    next
      case unsettled: False
      with assms(1) d True cr1 obtain res' h cr2 w3
        where c: "checkConversionHealth (pl_kube P) cm cr w2 = Some (res', h, cr2, w3)"
        by (auto simp: gatedReconcile_def split: option.splits)
      show ?thesis
      proof (cases h)
        case False
        with c have "checkConversionHealth (pl_kube P) cm cr w2 = Some (res', False, cr2, w3)" by simp
        note h = conversion_gate.holds [OF this]
        with assms(1) d True cr1 unsettled c False show ?thesis
          by (auto simp: gatedReconcile_def gate_held_def intro: held [OF assms(2)])
      next
        case healthy: True
        with c have "checkConversionHealth (pl_kube P) cm cr w2 = Some (res', True, cr2, w3)" by simp
        from conversion_gate.passes [OF this] have cr2: "cr2 = cr" and "res' = emptyResult" by simp_all
        moreover have "\<exists>w0. pages (pl_kube P) [] w0 w3"
          using c healthy conversion_loop_pages by (fastforce simp: checkConversionHealth_def)
        ultimately have listed: "conversion_listed P cm cr w2 w3"
          using c healthy by (simp add: conversion_listed_def)
        have "out = finishReconcile P cm pc tls (markVerified cm cr) w3"
          using assms(1) d True cr1 unsettled c healthy cr2
          by (simp add: gatedReconcile_def markVerified_def)
        with up unsettled listed show ?thesis
          by (auto simp: finish_unfold split: prod.splits intro: outcome.verified)
      qed
    qed
  qed
qed

lemma apply_outcome:
  assumes "applyReconcile P r cm pc cr w = Some out"
  shows "outcome P r cm pc cr w out"
proof -
  obtain t w1 where t: "ResolveTLSConfig (pl_tls P) w = (t, w1)" by fastforce
  show ?thesis
  proof (cases t)
    case (Inl err)
    with assms t show ?thesis by (auto simp: applyReconcile_def intro: failed)
  next
    case (Inr tls)
    show ?thesis
    proof (cases "Manifests (pl_unstructured P) (pl_manifestival P) (r_ManifestProvider r) (manifest_params r tls)")
      case (Inl err)
      with assms t Inr show ?thesis by (auto simp: applyReconcile_def manifest_params_def intro: failed)
    next
      case m: (Inr desired)
      obtain d w2 where d: "applyResources (pl_kube P) r cr desired w1 = (d, w2)" by fastforce
      obtain g w3 where g: "collectGarbage (pl_kube P) (pl_unstructured P) r cr (r_PodNamespace r) desired w2
        = (g, w3)" by fastforce
      have "(\<exists>err reason message w'. out = (emptyResult, Some err, markUnavailable cm reason message cr, w')) \<or>
        d = None \<and> g = None \<and> gatedReconcile P cm pc tls desired cr w3 = Some out"
        using assms t Inr m d g
        by (auto simp: applyReconcile_def manifest_params_def split: option.splits)
      then show ?thesis
      proof
        assume "d = None \<and> g = None \<and> gatedReconcile P cm pc tls desired cr w3 = Some out"
        moreover from this have "applied P r cr w tls desired w3"
          using t Inr m d g unfolding applied_def rendered_def by blast
        ultimately show ?thesis by (auto intro: gated_outcome)
      qed (auto intro: failed)
    qed
  qed
qed

section \<open>Reading the cases\<close>

lemma markAvailable_frame [simp]:
  "cr_name (markAvailable cm pc cr) = cr_name cr"
  "cr_uid (markAvailable cm pc cr) = cr_uid cr"
  "cr_generation (markAvailable cm pc cr) = cr_generation cr"
  "cr_management_state (markAvailable cm pc cr) = cr_management_state cr"
  "st_gateways (cr_status (markAvailable cm pc cr)) = st_gateways (cr_status cr)"
  "st_releases (cr_status (markAvailable cm pc cr)) = st_releases (cr_status cr)"
  "st_distribution (cr_status (markAvailable cm pc cr)) =
     (if pc_Available pc
      then \<lparr>dist_name = pc_DistributionName pc, dist_version = pc_DistributionVersion pc\<rparr>
      else st_distribution (cr_status cr))"
  "GetConditions (markAvailable cm pc cr) =
     AggregateReady cm (MarkTrue cm ConditionMCPLifecycleOperatorAvailable (GetConditions cr))"
  by (simp_all add: markAvailable_def setDistributionStatus_def GetConditions_def onConditions_def Let_def
      SetConditions_def)

lemma markVerified_frame [simp]:
  "cr_name (markVerified cm cr) = cr_name cr"
  "cr_uid (markVerified cm cr) = cr_uid cr"
  "cr_generation (markVerified cm cr) = cr_generation cr"
  "cr_management_state (markVerified cm cr) = cr_management_state cr"
  "st_gateways (cr_status (markVerified cm cr)) = st_gateways (cr_status cr)"
  "st_releases (cr_status (markVerified cm cr)) = st_releases (cr_status cr)"
  "st_distribution (cr_status (markVerified cm cr)) = st_distribution (cr_status cr)"
  "GetConditions (markVerified cm cr) =
     MarkTrueWithReason cm ConditionMCPServerConversionVerified ''ConversionVerified'' (GetConditions cr)"
  by (simp_all add: markVerified_def)

text \<open>The base status writes three fields of the status.\<close>

lemma base_frame [simp]:
  "cr_name (updateBaseStatus r cm pc cr) = cr_name cr"
  "cr_uid (updateBaseStatus r cm pc cr) = cr_uid cr"
  "cr_generation (updateBaseStatus r cm pc cr) = cr_generation cr"
  "cr_management_state (updateBaseStatus r cm pc cr) = cr_management_state cr"
  "st_gateways (cr_status (updateBaseStatus r cm pc cr)) = st_gateways (cr_status cr)"
  "st_distribution (cr_status (updateBaseStatus r cm pc cr)) = st_distribution (cr_status cr)"
  "GetConditions (updateBaseStatus r cm pc cr) = GetConditions cr"
  "st_observed_generation (cr_status (updateBaseStatus r cm pc cr)) = cr_generation cr"
  "st_phase (cr_status (updateBaseStatus r cm pc cr)) = Phase cm (GetConditions cr)"
  by (simp_all add: updateBaseStatus_def setReleases_def Let_def GetConditions_def SetReleaseStatus_def)

context conditions_lib
begin

lemma available_observed:
  assumes "one_per_type (GetConditions cr)"
  shows "observed cm (GetConditions (markAvailable cm pc cr)) t =
    (if t = ConditionTypeDegraded then Some (ConditionFalse, ''NotDegraded'', [], cm_generation cm)
     else if t = ConditionTypeReady \<or> t = ConditionTypeProvisioningSucceeded \<or>
       t = ConditionMCPLifecycleOperatorAvailable then Some (ConditionTrue, ''Available'', [], cm_generation cm)
     else observed cm (GetConditions cr) t)"
proof -
  have "status_is cm (MarkTrue cm ConditionMCPLifecycleOperatorAvailable (GetConditions cr))
      ConditionMCPLifecycleOperatorAvailable ConditionTrue"
    by (simp add: status_is_def marks_observed)
  from aggregate_available [OF marks_one_per_type(1) [OF assms] this] show ?thesis
    by (simp add: marks_observed)
qed

lemma available_one_per_type:
  "one_per_type (GetConditions cr) \<Longrightarrow> one_per_type (GetConditions (markAvailable cm pc cr))"
  by (simp add: aggregate_one_per_type marks_one_per_type)

lemma unavailable_one_per_type:
  "one_per_type (GetConditions cr) \<Longrightarrow> one_per_type (GetConditions (markUnavailable cm r m cr))"
  by (simp add: markUnavailable_def aggregate_one_per_type marks_one_per_type)

lemma verified_observed:
  "observed cm (GetConditions (markVerified cm cr)) t =
     (if t = ConditionMCPServerConversionVerified
      then Some (ConditionTrue, ''ConversionVerified'', [], cm_generation cm)
      else observed cm (GetConditions cr) t)"
  by (simp add: marks_observed)

lemma verified_one_per_type:
  "one_per_type (GetConditions cr) \<Longrightarrow> one_per_type (GetConditions (markVerified cm cr))"
  by (simp add: marks_one_per_type)

lemma handshake_settled:
  "conversionHandshakeSettled (cm_lib cm) cr pc \<longleftrightarrow>
     pc_Available pc \<and>
     st_distribution (cr_status cr) = \<lparr>dist_name = pc_DistributionName pc, dist_version = pc_DistributionVersion pc\<rparr> \<and>
     status_is cm (GetConditions cr) ConditionMCPServerConversionVerified ConditionTrue"
  by (cases "st_distribution (cr_status cr)") (auto simp: conversionHandshakeSettled_def is_true_status)

end

section \<open>The steps around a managed reconcile\<close>

text \<open>What a managed reconcile reads and writes before it applies the manifests.\<close>

definition prepared ::
    "('w, 'm) platform \<Rightarrow> reconciler \<Rightarrow> operator_cr \<Rightarrow> 'w
      \<Rightarrow> platform_config \<times> reconciler \<times> operator_cr \<times> 'w" where
  "prepared P r cr w =
     (let (pc, w) = getPlatformConfig (pl_kube P) r w;
          (found, w) = discoverMCPGateways (pl_kube P) (pl_unstructured P) (pl_json P) w;
          (watches, w) = tryRegisterGatewayWatches (pl_kube P) (r_watches r) w
      in (pc, r\<lparr>r_watches := watches\<rparr>, setGateways found cr, w))"

definition manager_of :: "('w, 'm) platform \<Rightarrow> operator_cr \<Rightarrow> conditions_manager" where
  "manager_of P cr = NewConditionsManager (pl_conditions P) (cr_generation cr)"

lemma manager_lib [simp]: "cm_lib (manager_of P cr) = pl_conditions P" "cm_generation (manager_of P cr) = cr_generation cr"
  by (simp_all add: manager_of_def NewConditionsManager_def)

lemma manager_laws: "conditions_laws (pl_conditions P) \<Longrightarrow> conditions_lib (manager_of P cr)"
  by (rule conditions_lib.intro) simp

lemma setGateways_frame [simp]:
  "cr_name (setGateways g cr) = cr_name cr"
  "cr_uid (setGateways g cr) = cr_uid cr"
  "cr_generation (setGateways g cr) = cr_generation cr"
  "cr_management_state (setGateways g cr) = cr_management_state cr"
  "st_distribution (cr_status (setGateways g cr)) = st_distribution (cr_status cr)"
  "GetConditions (setGateways g cr) = GetConditions cr"
  by (simp_all add: setGateways_def GetConditions_def split: sum.splits)

lemma prepared_frame:
  assumes "prepared P r cr w = (pc, r1, cr1, w1)"
  shows "pc = fst (getPlatformConfig (pl_kube P) r w)"
    and "cr_name cr1 = cr_name cr" and "cr_uid cr1 = cr_uid cr" and "cr_generation cr1 = cr_generation cr"
    and "cr_management_state cr1 = cr_management_state cr"
    and "st_distribution (cr_status cr1) = st_distribution (cr_status cr)"
    and "GetConditions cr1 = GetConditions cr"
  using assms by (auto simp: prepared_def Let_def split: prod.splits)

text \<open>Without unfolding the handler: the parts of a reconcile that returned.\<close>

lemma reconcile_removed:
  assumes "reconcile P r cr w = Some (r', res, err, cr', w')" and "cr_management_state cr = Removed"
  shows "r' = r \<and> (\<exists>cr1. handleRemoved (pl_kube P) r (manager_of P cr) cr (snd (getPlatformConfig (pl_kube P) r w))
      = (res, err, cr1, w') \<and>
    cr' = updateBaseStatus r (manager_of P cr) (fst (getPlatformConfig (pl_kube P) r w)) cr1)"
  using assms by (auto simp: reconcile_def manager_of_def Let_def split: prod.splits)

lemma reconcile_managed:
  assumes "cr_management_state cr \<noteq> Removed"
  shows "reconcile P r cr w =
    (case prepared P r cr w of (pc, r1, cr1, w1) \<Rightarrow>
       (case applyReconcile P r1 (manager_of P cr) pc cr1 w1 of
          None \<Rightarrow> None
        | Some (res, err, cr2, w2) \<Rightarrow> Some (r1, res, err, updateBaseStatus r (manager_of P cr) pc cr2, w2)))"
  using assms unfolding reconcile_def prepared_def manager_of_def Let_def by (simp split: prod.split)

lemma reconcile_outcome:
  assumes "reconcile P r cr w = Some (r', res, err, cr', w')" and "cr_management_state cr \<noteq> Removed"
    and "prepared P r cr w = (pc, r1, cr1, w1)"
  obtains cr2 where "outcome P r1 (manager_of P cr) pc cr1 w1 (res, err, cr2, w')"
    and "cr' = updateBaseStatus r (manager_of P cr) pc cr2" and "r' = r1"
  using assms(1,3) apply_outcome
  by (fastforce simp: reconcile_managed [OF assms(2)] split: option.splits)

lemma outcome_frame:
  assumes "outcome P r cm pc cr w (res, err, cr', w')"
  shows "cr_name cr' = cr_name cr \<and> cr_uid cr' = cr_uid cr \<and> cr_generation cr' = cr_generation cr \<and>
    cr_management_state cr' = cr_management_state cr \<and>
    st_gateways (cr_status cr') = st_gateways (cr_status cr)"
  using assms
proof cases
  case (settled tls w1 res)
  with reconcile_migration_fields [OF settled(5)] show ?thesis by simp
next
  case (verified tls w1 w2 res)
  with reconcile_migration_fields [OF verified(6)] show ?thesis by simp
qed simp_all

lemma outcome_distribution:
  assumes "outcome P r cm pc cr w (res, err, cr', w')"
    and "st_distribution (cr_status cr') \<noteq> st_distribution (cr_status cr)"
  shows "err = None \<and> pc_Available pc \<and>
    st_distribution (cr_status cr') =
      \<lparr>dist_name = pc_DistributionName pc, dist_version = pc_DistributionVersion pc\<rparr> \<and>
    (\<exists>tls w1 w2. operand_up P r cr w tls w1 \<and> conversion_listed P cm cr w1 w2)"
  using assms
proof cases
  case (settled tls w1 res)
  with assms(2) reconcile_migration_fields [OF settled(5)] show ?thesis
    by (cases "st_distribution (cr_status cr)") (auto simp: conversionHandshakeSettled_def)
next
  case (verified tls w1 w2 res)
  with assms(2) reconcile_migration_fields [OF verified(6)] show ?thesis
    by (auto split: if_splits)
qed simp_all

lemma outcome_releases:
  assumes "outcome P r cm pc cr w (res, err, cr', w')"
  shows "st_releases (cr_status cr') = st_releases (cr_status cr)"
  using assms
proof cases
  case (settled tls w1 res)
  with reconcile_migration_fields [OF settled(5)] show ?thesis by simp
next
  case (verified tls w1 w2 res)
  with reconcile_migration_fields [OF verified(6)] show ?thesis by simp
qed simp_all

lemma prepared_releases:
  "prepared P r cr w = (pc, r1, cr1, w1) \<Longrightarrow> st_releases (cr_status cr1) = st_releases (cr_status cr)"
  by (auto simp: prepared_def setGateways_def Let_def split: prod.splits sum.splits)

section \<open>The conditions an outcome leaves\<close>

text \<open>The three conditions that move together, and a gate's proof of health.\<close>

definition all_three :: "conditions_manager \<Rightarrow> operator_cr \<Rightarrow> string \<Rightarrow> bool" where
  "all_three cm cr s \<longleftrightarrow>
     status_is cm (GetConditions cr) ConditionMCPLifecycleOperatorAvailable s \<and>
     status_is cm (GetConditions cr) ConditionTypeReady s \<and>
     status_is cm (GetConditions cr) ConditionTypeProvisioningSucceeded s"

definition gates_passed ::
    "('w, 'm) platform \<Rightarrow> reconciler \<Rightarrow> conditions_manager \<Rightarrow> platform_config \<Rightarrow> operator_cr \<Rightarrow> 'w \<Rightarrow> bool" where
  "gates_passed P r cm pc cr w \<longleftrightarrow>
     (\<exists>tls w1. operand_up P r cr w tls w1 \<and>
        (conversionHandshakeSettled (cm_lib cm) cr pc \<or> (\<exists>w2. conversion_listed P cm cr w1 w2)))"

lemma all_three_exclusive: "all_three cm cr s \<Longrightarrow> all_three cm cr t \<Longrightarrow> s = t"
  by (auto simp: all_three_def status_is_def)

definition not_degraded :: "conditions_manager \<Rightarrow> operator_cr \<Rightarrow> bool" where
  "not_degraded cm cr \<longleftrightarrow> status_is cm (GetConditions cr) ConditionTypeDegraded ConditionFalse"

lemma base_all_three [simp]: "all_three cm (updateBaseStatus r cm' pc cr) s = all_three cm cr s"
  "not_degraded cm (updateBaseStatus r cm' pc cr) = not_degraded cm cr"
  by (simp_all add: all_three_def not_degraded_def)

context conditions_lib
begin

lemma unavailable_three:
  "all_three cm (markUnavailable cm reason message cr) ConditionFalse"
  "not_degraded cm (markUnavailable cm reason message cr)"
  using unavailable_observed [OF laws] by (simp_all add: all_three_def not_degraded_def status_is_def)

lemma available_three:
  assumes "reconcileStorageMigration K U cm (markAvailable cm pc cr) w = (res, cr', w')"
    and "one_per_type (GetConditions cr)"
  shows "all_three cm cr' ConditionTrue" and "not_degraded cm cr'" and "one_per_type (GetConditions cr')"
  using migration_frame [OF assms(1)] available_observed [OF assms(2)]
    migration_one_per_type [OF assms(1) available_one_per_type [OF assms(2)]]
  by (simp_all add: all_three_def not_degraded_def status_is_def)

lemma outcome_conditions:
  assumes "outcome P r cm pc cr w (res, err, cr', w')" and "one_per_type (GetConditions cr)"
  shows "one_per_type (GetConditions cr')" and "not_degraded cm cr'"
    and "all_three cm cr' ConditionFalse \<or>
      all_three cm cr' ConditionTrue \<and> err = None \<and> gates_passed P r cm pc cr w"
proof -
  have "one_per_type (GetConditions cr') \<and> not_degraded cm cr' \<and>
     (all_three cm cr' ConditionFalse \<or>
      all_three cm cr' ConditionTrue \<and> err = None \<and> gates_passed P r cm pc cr w)"
    using assms(1)
  proof cases
    case (settled tls w1 res)
    then show ?thesis
      using available_three [OF settled(5) assms(2)] unfolding gates_passed_def by blast
  next
    case (verified tls w1 w2 res)
    then show ?thesis
      using available_three [OF verified(6) verified_one_per_type [OF assms(2)]]
      unfolding gates_passed_def by blast
  qed (simp_all add: unavailable_three unavailable_one_per_type assms(2))
  then show "one_per_type (GetConditions cr')" and "not_degraded cm cr'"
    and "all_three cm cr' ConditionFalse \<or>
      all_three cm cr' ConditionTrue \<and> err = None \<and> gates_passed P r cm pc cr w" by blast+
qed

lemma outcome_verified:
  assumes "outcome P r cm pc cr w (res, err, cr', w')"
    and "observed cm (GetConditions cr') ConditionMCPServerConversionVerified \<noteq>
      observed cm (GetConditions cr) ConditionMCPServerConversionVerified"
  shows "err = None \<and> (\<exists>tls w1 w2. operand_up P r cr w tls w1 \<and> conversion_listed P cm cr w1 w2) \<and>
    observed cm (GetConditions cr') ConditionMCPServerConversionVerified =
      Some (ConditionTrue, ''ConversionVerified'', [], cm_generation cm)"
  using assms(1)
proof cases
  case (settled tls w1 res)
  have False
    using assms(2) migration_frame [OF settled(5)]
    by (simp add: aggregate_frame marks_observed)
  then show ?thesis ..
next
  case (verified tls w1 w2 res)
  then show ?thesis
    using migration_frame [OF verified(6)] by (auto simp: aggregate_frame marks_observed)
qed (use assms(2) unavailable_observed [OF laws] in simp_all)

end

text \<open>The phase of the base status.\<close>

lemma base_phase:
  assumes "conditions_laws (cm_lib cm)"
  shows "st_phase (cr_status (updateBaseStatus r cm pc cr)) = PhaseReady \<longleftrightarrow>
    status_is cm (GetConditions cr) ConditionTypeReady ConditionTrue"
  using conditions_lib.phase_ready [OF conditions_lib.intro [OF assms]] by simp

section \<open>The other direction: what passing the gates leads to\<close>

lemma apply_up:
  assumes "operand_up P r cr w tls w1"
  shows "applyReconcile P r cm pc cr w =
    (if conversionHandshakeSettled (cm_lib cm) cr pc then Some (finishReconcile P cm pc tls cr w1)
     else (case checkConversionHealth (pl_kube P) cm cr w1 of
             None \<Rightarrow> None
           | Some (result, healthy, cr', w') \<Rightarrow>
               if healthy then Some (finishReconcile P cm pc tls (markVerified cm cr') w')
               else Some (result, None, cr', w')))"
proof -
  from assms obtain desired wt wd wa where t: "ResolveTLSConfig (pl_tls P) w = (Inr tls, wt)"
    and m: "rendered P r tls desired" and d: "applyResources (pl_kube P) r cr desired wt = (None, wd)"
    and g: "collectGarbage (pl_kube P) (pl_unstructured P) r cr (r_PodNamespace r) desired wd = (None, wa)"
    and reads: "reads_available (pl_kube P) (findDeploymentNames (pl_unstructured P) desired) wa w1"
    unfolding operand_up_def applied_def by blast
  have "checkDeploymentsReady (pl_kube P) (pl_unstructured P) cm desired cr wa = (emptyResult, True, cr, w1)"
    using reads by (simp add: checkDeploymentsReady_def deployments_passed)
  then have "gatedReconcile P cm pc tls desired cr wa =
    (if conversionHandshakeSettled (cm_lib cm) cr pc then Some (finishReconcile P cm pc tls cr w1)
     else (case checkConversionHealth (pl_kube P) cm cr w1 of
             None \<Rightarrow> None
           | Some (result, healthy, cr', w') \<Rightarrow>
               if healthy then Some (finishReconcile P cm pc tls (markVerified cm cr') w')
               else Some (result, None, cr', w')))"
    by (simp add: gatedReconcile_def markVerified_def split: option.split)
  with t m d g show ?thesis
    by (simp add: applyReconcile_def rendered_def manifest_params_def)
qed

context conditions_lib
begin

lemma gates_available:
  assumes "gates_passed P r cm pc cr w" and "applyReconcile P r cm pc cr w = Some (res, err, cr', w')"
    and "one_per_type (GetConditions cr)"
  shows "all_three cm cr' ConditionTrue"
proof -
  from assms(1) obtain tls w1 where up: "operand_up P r cr w tls w1"
    and ok: "conversionHandshakeSettled (cm_lib cm) cr pc \<or> (\<exists>w2. conversion_listed P cm cr w1 w2)"
    unfolding gates_passed_def by blast
  obtain cr1 w2 where one: "one_per_type (GetConditions cr1)"
    and fin: "(res, err, cr', w') = finishReconcile P cm pc tls cr1 w2"
  proof (cases "conversionHandshakeSettled (cm_lib cm) cr pc")
    case True
    with assms(2,3) up that [of cr w1] show thesis by (simp add: apply_up)
  next
    case False
    with ok obtain w3 where "checkConversionHealth (pl_kube P) cm cr w1 = Some (emptyResult, True, cr, w3)"
      unfolding conversion_listed_def by blast
    with assms(2) False up verified_one_per_type [OF assms(3)] that [of "markVerified cm cr" w3]
    show thesis by (simp add: apply_up)
  qed
  from fin obtain res1 where
    "reconcileStorageMigration (pl_kube P) (pl_unstructured P) cm (markAvailable cm pc cr1) w2 = (res1, cr', w')"
    by (auto simp: finish_unfold split: prod.splits)
  with one show ?thesis by (rule available_three(1) [rotated])
qed

lemma steady_apply:
  assumes "operand_up P r cr w tls w1" and "conversionHandshakeSettled (cm_lib cm) cr pc"
    and "storageMigrationSucceeded (cm_lib cm) cr"
  shows "applyReconcile P r cm pc cr w =
    Some (withFallbackRequeue tls emptyResult, None, markAvailable cm pc cr, w1)"
proof -
  have "storageMigrationSettled (cm_lib cm) (markAvailable cm pc cr)"
    using assms(3)
    by (simp add: storageMigrationSettled_def succeeded_status status_is_def aggregate_frame marks_observed)
  with assms(1,2) show ?thesis
    by (simp add: apply_up finish_unfold reconcileStorageMigration_def)
qed

end

end
