(* ===== verification/Sample.thy ===== *)
theory Sample
  imports Reconcile_Spec
begin

text \<open>
  Concrete inputs for the witnesses: a reconciler whose manifest holds one Deployment, on a
  cluster where that Deployment is available and the storage-version migrator's API is served.
  Every parameter is instantiated by an implementation that satisfies its laws.
\<close>

definition sample_deployment :: gmap where
  "sample_deployment =
     [(''apiVersion'', VStr ''apps/v1''), (''kind'', VStr ''Deployment''),
      (''metadata'', VMap [(''name'', VStr ''operator'')]),
      (''spec'', VMap [(''template'', VMap [(''spec'', VMap [(''containers'',
         VList [VMap [(''name'', VStr ''manager''), (''image'', VStr ''old'')]])])])])]"

definition sample_provider :: kustomize_provider where
  "sample_provider = \<lparr>p_fs = (\<lambda>path. Inr []), p_decoder = (\<lambda>data. ([Some sample_deployment], None))\<rparr>"

definition sample_profile :: tls_profile_spec where
  "sample_profile = \<lparr>sp_Ciphers = [''TLS_AES_128''], sp_Groups = [''X25519'', ''unknown''],
     sp_MinTLSVersion = ''VersionTLS12''\<rparr>"

definition sample_tls :: "bool \<Rightarrow> 'w tls_api" where
  "sample_tls fallback = \<lparr>
     t_LoadWithAdherence = (\<lambda>w. (Inr \<lparr>lo_Spec = sample_profile, lo_AdherencePolicy = ''Strict'',
        lo_UsedFallback = fallback, lo_Watchable = True\<rparr>, w)),
     t_ShouldHonor = (\<lambda>p. p = ''Strict''),
     t_MinVersion = (\<lambda>sp. sp_MinTLSVersion sp),
     t_CipherSuites = (\<lambda>sp. Join (sp_Ciphers sp) '',''),
     t_CurveIDs = (\<lambda>gs. if gs = [''X25519''] then [29] else []),
     t_IntermediateProfile = sample_profile\<rparr>"

definition sample_platform :: "bool \<Rightarrow> (cluster, gmap list) platform" where
  "sample_platform fallback = \<lparr>
     pl_kube = simulated, pl_unstructured = json_unstructured, pl_manifestival = list_manifestival,
     pl_json = table_json [] [], pl_tls = sample_tls fallback, pl_conditions = list_conditions\<rparr>"

definition sample_reconciler :: reconciler where
  "sample_reconciler = \<lparr>r_ManifestProvider = sample_provider, r_OperatorVersion = ''1.2.0'',
     r_PodNamespace = ''opendatahub'', r_OperandImage = ''quay.io/operand@sha256:1'',
     r_watches = \<lparr>gw_controller = False, gw_informers = False, gw_extension_once = False,
       gw_gateway_once = False\<rparr>\<rparr>"

definition sample_cr :: "string \<Rightarrow> operator_cr" where
  "sample_cr state = \<lparr>cr_name = ''default'', cr_uid = ''uid'', cr_generation = 3,
     cr_management_state = state,
     cr_status = \<lparr>st_phase = [], st_observed_generation = 2, st_conditions = [], st_releases = [],
       st_distribution = \<lparr>dist_name = ''Standalone'', dist_version = ''1.1.0''\<rparr>, st_gateways = []\<rparr>\<rparr>"

definition sample_cluster :: "int \<Rightarrow> cluster" where
  "sample_cluster available = empty_cluster\<lparr>
     cl_deployments := [((''opendatahub'', ''operator''),
       \<lparr>dep_replicas = Some 1, dep_available = available, dep_conditions = []\<rparr>)],
     cl_served := [(''migration.k8s.io/v1alpha1'', [''storageversionmigrations''])]\<rparr>"

lemma sample_one_per_type [simp]: "one_per_type (GetConditions (sample_cr st))"
  by (simp add: one_per_type_def GetConditions_def sample_cr_def)

lemma sample_laws [simp]:
  "conditions_laws (pl_conditions (sample_platform fb))"
  "unstructured_laws (pl_unstructured (sample_platform fb))"
  "manifestival_laws (pl_manifestival (sample_platform fb))"
  by (simp_all add: sample_platform_def list_conditions_laws json_unstructured_laws list_manifestival_laws)

section \<open>Evaluated runs\<close>

definition summary :: "ctrl_result \<times> gerror option \<times> operator_cr \<times> cluster \<Rightarrow>
    int \<times> bool \<times> string \<times> distribution \<times> bool \<times> (string \<times> string) list \<times> string list" where
  "summary out =
     (case out of (res, err, cr, w) \<Rightarrow>
        (RequeueAfter res, err = None, st_phase (cr_status cr), st_distribution (cr_status cr),
         lib_is_true list_conditions (GetConditions cr) ConditionMCPServerConversionVerified,
         map (\<lambda>rel. (rel_name rel, rel_version rel)) (st_releases (cr_status cr)), cl_calls w))"

definition sample_run :: "bool \<Rightarrow> string \<Rightarrow> int \<Rightarrow> (reconciler \<times> cluster reconcile_out) option" where
  "sample_run fallback state available =
     reconcile (sample_platform fallback) sample_reconciler (sample_cr state) (sample_cluster available)"

text \<open>An upgrade that passes both gates, one held by its Deployment, and a removal.\<close>

lemma sample_passes:
  "map_option (\<lambda>out. summary (snd out)) (sample_run False ''Managed'' 1) =
     Some (60000000000, True, ''Ready'', \<lparr>dist_name = ''Standalone'', dist_version = ''1.2.0''\<rparr>, True,
       [(''mcplifecycleoperator'', ''1.2.0''), (''platform'', ''1.2.0'')],
       [''create'', ''get'', ''discover'', ''list'', ''get-deployment'', ''collect'', ''deploy'',
        ''get-crd'', ''get-configmap''])"
  by code_simp

lemma sample_held:
  "map_option (\<lambda>out. summary (snd out)) (sample_run False ''Managed'' 0) =
     Some (10000000000, True, ''Not Ready'', \<lparr>dist_name = ''Standalone'', dist_version = ''1.1.0''\<rparr>, False,
       [(''mcplifecycleoperator'', ''1.2.0''), (''platform'', ''1.1.0'')],
       [''get-deployment'', ''collect'', ''deploy'', ''get-crd'', ''get-configmap''])"
  by code_simp

lemma sample_removed:
  "map_option (\<lambda>out. summary (snd out)) (sample_run False ''Removed'' 1) =
     Some (0, True, ''Not Ready'', \<lparr>dist_name = ''Standalone'', dist_version = ''1.1.0''\<rparr>, False,
       [(''mcplifecycleoperator'', ''1.2.0''), (''platform'', ''1.1.0'')],
       [''delete'', ''collect'', ''get-configmap''])"
  by code_simp

lemma sample_run_obtain:
  assumes "map_option (\<lambda>out. summary (snd out)) (sample_run fb st n) = Some (d, ok, ph, dist, ver, rels, calls)"
  obtains r' res err cr' w'
  where "reconcile (sample_platform fb) sample_reconciler (sample_cr st) (sample_cluster n) =
      Some (r', res, err, cr', w')"
    and "RequeueAfter res = d" and "(err = None) = ok" and "st_phase (cr_status cr') = ph"
    and "st_distribution (cr_status cr') = dist"
    and "lib_is_true list_conditions (GetConditions cr') ConditionMCPServerConversionVerified = ver"
  using assms by (auto simp: sample_run_def summary_def)

section \<open>A settled resource\<close>

text \<open>The handshake and the storage migration of this resource are done.\<close>

definition settled_cr :: operator_cr where
  "settled_cr = SetConditions ((sample_cr ''Managed'')\<lparr>cr_status := (cr_status (sample_cr ''Managed''))
       \<lparr>st_distribution := \<lparr>dist_name = ''Standalone'', dist_version = ''1.2.0''\<rparr>\<rparr>\<rparr>)
     [\<lparr>ctype = ConditionMCPServerConversionVerified, cstatus = ConditionTrue, creason = [], cmessage = [],
       cobserved = 2, cseverity = []\<rparr>,
      \<lparr>ctype = ConditionMCPServerStorageMigrated, cstatus = ConditionTrue, creason = [], cmessage = [],
       cobserved = 2, cseverity = []\<rparr>]"

text \<open>The stages of the sample cluster, one by one: the worlds between them are the same but for the calls.\<close>

definition sample_config :: platform_config where
  "sample_config = \<lparr>pc_Available = True, pc_DistributionName = ''Standalone'', pc_DistributionVersion = ''1.2.0''\<rparr>"

definition sample_stages :: "bool \<Rightarrow> operator_cr \<Rightarrow> cluster \<Rightarrow> (resolved_tls \<times> gmap list \<times> cluster) option" where
  "sample_stages fb cr w =
     (let P = sample_platform fb; r = sample_reconciler in
      case ResolveTLSConfig (pl_tls P) w of
        (Inl e, w) \<Rightarrow> None
      | (Inr tls, w) \<Rightarrow>
          (case Manifests (pl_unstructured P) (pl_manifestival P) (r_ManifestProvider r) (manifest_params r tls) of
             Inl e \<Rightarrow> None
           | Inr desired \<Rightarrow>
               (case applyResources (pl_kube P) r cr desired w of
                  (Some e, w) \<Rightarrow> None
                | (None, w) \<Rightarrow>
                    (case collectGarbage (pl_kube P) (pl_unstructured P) r cr (r_PodNamespace r) desired w of
                       (Some e, w) \<Rightarrow> None
                     | (None, w) \<Rightarrow> Some (tls, desired, w)))))"

lemma sample_stages_applied:
  "sample_stages fb cr w = Some (tls, desired, w1) \<Longrightarrow>
     applied (sample_platform fb) sample_reconciler cr w tls desired w1"
  unfolding applied_def rendered_def sample_stages_def Let_def
  by (auto split: prod.splits sum.splits option.splits)

lemma sample_up:
  assumes "sample_stages fb cr w = Some (tls, desired, w1)"
    and "checkDeploymentsReady (pl_kube (sample_platform fb)) (pl_unstructured (sample_platform fb))
      (manager_of (sample_platform fb) cr) desired cr w1 = (res, True, cr', w2)"
  shows "operand_up (sample_platform fb) sample_reconciler cr w tls w2"
proof -
  from assms(2) have "reads_available (pl_kube (sample_platform fb))
      (findDeploymentNames (pl_unstructured (sample_platform fb)) desired) w1 w2"
    by (simp add: checkDeploymentsReady_def deployments_passed)
  with sample_stages_applied [OF assms(1)] show ?thesis unfolding operand_up_def by blast
qed

lemma settled_up: "\<exists>tls w2. operand_up (sample_platform True) sample_reconciler settled_cr (sample_cluster 1) tls w2"
proof -
  have "case sample_stages True settled_cr (sample_cluster 1) of
      None \<Rightarrow> False
    | Some (tls, desired, w1) \<Rightarrow>
        fst (snd (checkDeploymentsReady (pl_kube (sample_platform True)) (pl_unstructured (sample_platform True))
          (manager_of (sample_platform True) settled_cr) desired settled_cr w1))"
    by code_simp
  then obtain tls desired w1 res cr' w2 where
    "sample_stages True settled_cr (sample_cluster 1) = Some (tls, desired, w1)"
    and "checkDeploymentsReady (pl_kube (sample_platform True)) (pl_unstructured (sample_platform True))
      (manager_of (sample_platform True) settled_cr) desired settled_cr w1 = (res, True, cr', w2)"
    by (auto split: option.splits) (metis prod.collapse)
  then show ?thesis using sample_up by blast
qed

lemma settled_handshake: "conversionHandshakeSettled list_conditions settled_cr sample_config"
  by code_simp

lemma settled_migration: "storageMigrationSucceeded list_conditions settled_cr"
  by code_simp

section \<open>A resource with a gateway on a cluster whose CRDs cannot be read\<close>

definition gateway_cr :: operator_cr where
  "gateway_cr = (sample_cr ''Managed'')\<lparr>cr_status := (cr_status (sample_cr ''Managed''))
     \<lparr>st_gateways := [\<lparr>gi_name = ''ext'', gi_namespace = ''ns'', gi_ready = True,
        gi_gateway = \<lparr>gr_name = ''gw'', gr_namespace = ''ns'', gr_listeners = []\<rparr>\<rparr>]\<rparr>\<rparr>"

definition refusing_cluster :: cluster where
  "refusing_cluster = (sample_cluster 1)\<lparr>cl_faults := [(''get-crd'', Message ''refused'')]\<rparr>"

lemma refusing_returns:
  "reconcile (sample_platform False) sample_reconciler gateway_cr refusing_cluster \<noteq> None"
  by code_simp

lemma refusing_discovery:
  "case discoverMCPGateways simulated json_unstructured (table_json [] [])
     (snd (getPlatformConfig simulated sample_reconciler refusing_cluster)) of
     (Inl e, w) \<Rightarrow> True | (Inr gs, w) \<Rightarrow> False"
  by code_simp

end
