(* ===== verification/Resource_Life.thy ===== *)
theory Resource_Life
  imports Sample
begin

text \<open>
  The custom resource over its whole life: created by a user with an empty status, edited, and
  reconciled any number of times by any reconciler in any world. What the API server checks of it,
  the schema of the CRD (config/crd/bases), is a predicate on the resource, and every reachable
  resource satisfies it. A second invariant relates the parts of the status to each other.
\<close>

section \<open>The schema of the resource\<close>

definition between :: "char \<Rightarrow> char \<Rightarrow> char \<Rightarrow> bool" where
  "between a z c \<longleftrightarrow> (of_char a :: nat) \<le> of_char c \<and> (of_char c :: nat) \<le> of_char z"

definition lower_alphanumeric :: "char \<Rightarrow> bool" where
  "lower_alphanumeric c \<longleftrightarrow> between CHR ''a'' CHR ''z'' c \<or> between CHR ''0'' CHR ''9'' c"

definition alphanumeric :: "char \<Rightarrow> bool" where
  "alphanumeric c \<longleftrightarrow> lower_alphanumeric c \<or> between CHR ''A'' CHR ''Z'' c"

text \<open>A word of the pattern: it begins and ends with one kind of character, with more kinds between.\<close>

definition pattern_word :: "(char \<Rightarrow> bool) \<Rightarrow> string \<Rightarrow> string \<Rightarrow> bool" where
  "pattern_word outer extra s \<longleftrightarrow>
     s \<noteq> [] \<and> outer (hd s) \<and> outer (last s) \<and> list_all (\<lambda>c. outer c \<or> List.member extra c) s"

fun pattern_labels :: "string \<Rightarrow> string \<Rightarrow> bool" where
  "pattern_labels seen [] = pattern_word lower_alphanumeric ''-'' (rev seen)"
| "pattern_labels seen (c # cs) =
     (if c = CHR ''.'' then pattern_word lower_alphanumeric ''-'' (rev seen) \<and> pattern_labels [] cs
      else pattern_labels (c # seen) cs)"

text \<open>The pattern of a condition type: a name, or a dotted lower-case prefix, a slash and a name.\<close>

definition type_pattern :: "string \<Rightarrow> bool" where
  "type_pattern s \<longleftrightarrow>
     (let before = takeWhile (\<lambda>c. c \<noteq> CHR ''/'') s in
      if before = s then pattern_word alphanumeric ''-_.'' s
      else pattern_labels [] before \<and> pattern_word alphanumeric ''-_.'' (drop (length before + 1) s))"

definition int64_range :: "int \<Rightarrow> bool" where
  "int64_range n \<longleftrightarrow> - (2 ^ 63) \<le> n \<and> n < 2 ^ 63"

text \<open>Of a condition: its type, its status and the generation it was observed at.\<close>

definition condition_schema :: "string \<Rightarrow> string \<Rightarrow> int \<Rightarrow> bool" where
  "condition_schema ty st g \<longleftrightarrow>
     length ty \<le> 316 \<and> type_pattern ty \<and> List.member [''True'', ''False'', ''Unknown''] st \<and>
     0 \<le> g \<and> int64_range g"

text \<open>
  The status: conditions, the generation, and releases, whose list is a map keyed by the name. The
  other fields of the status are texts and truth values without a restriction.
\<close>

definition status_schema :: "status \<Rightarrow> bool" where
  "status_schema st \<longleftrightarrow>
     list_all (\<lambda>c. condition_schema (ctype c) (cstatus c) (cobserved c)) (st_conditions st) \<and> int64_range (st_observed_generation st) \<and>
     distinct (map rel_name (st_releases st))"

text \<open>
  The name, the management state and the status. Neither spec nor managementState is required: the
  default Managed is filled in only inside a spec that is there, and the state of a resource without
  spec reads as the empty string, which the reconciler treats as managed.
\<close>

definition resource_schema :: "operator_cr \<Rightarrow> bool" where
  "resource_schema cr \<longleftrightarrow>
     cr_name cr = MCPLifecycleOperatorInstanceName \<and>
     List.member [[], ''Managed'', ''Removed''] (cr_management_state cr) \<and>
     status_schema (cr_status cr)"

section \<open>The life of a resource\<close>

definition empty_status :: status where
  "empty_status = \<lparr>st_phase = [], st_observed_generation = 0, st_conditions = [], st_releases = [],
     st_distribution = \<lparr>dist_name = [], dist_version = []\<rparr>, st_gateways = []\<rparr>"

text \<open>
  The API server numbers the generations of a resource from 1 upwards, in 64 bits, and admits only
  resources of the schema; the status is written by the reconciler alone.
\<close>

definition admitted :: "operator_cr \<Rightarrow> bool" where
  "admitted cr \<longleftrightarrow> 0 < cr_generation cr \<and> int64_range (cr_generation cr) \<and> resource_schema cr"

inductive evolves :: "('w, 'm) platform \<Rightarrow> operator_cr \<Rightarrow> operator_cr \<Rightarrow> bool" for P where
  edited: "cr_generation cr < g \<Longrightarrow> admitted (cr\<lparr>cr_management_state := s, cr_generation := g\<rparr>) \<Longrightarrow>
    evolves P cr (cr\<lparr>cr_management_state := s, cr_generation := g\<rparr>)"
| reconciled: "reconcile P r cr w = Some (r', res, err, cr', w') \<Longrightarrow> evolves P cr cr'"

inductive life :: "('w, 'm) platform \<Rightarrow> operator_cr \<Rightarrow> bool" for P where
  created: "cr_status cr = empty_status \<Longrightarrow> admitted cr \<Longrightarrow> life P cr"
| lived_on: "life P cr \<Longrightarrow> evolves P cr cr' \<Longrightarrow> life P cr'"

section \<open>The parts of a reconciled status\<close>

definition module_types :: "string list" where
  "module_types = [ConditionMCPLifecycleOperatorAvailable, ConditionMCPServerStorageMigrated,
     ConditionMCPServerConversionVerified, ConditionTypeReady, ConditionTypeProvisioningSucceeded,
     ConditionTypeDegraded]"

lemma module_types_pattern: "t \<in> set module_types \<Longrightarrow> length t \<le> 316 \<and> type_pattern t"
proof -
  have "list_all (\<lambda>t. length t \<le> 316 \<and> type_pattern t) module_types" by code_simp
  then show "t \<in> set module_types \<Longrightarrow> length t \<le> 316 \<and> type_pattern t" by (simp add: list_all_iff)
qed

text \<open>Conditions, one per type, whose type, status and generation are as asked.\<close>

definition kept_conditions :: "(string \<Rightarrow> string \<Rightarrow> int \<Rightarrow> bool) \<Rightarrow> condition list \<Rightarrow> bool" where
  "kept_conditions ok cs \<longleftrightarrow> one_per_type cs \<and> (\<forall>c \<in> set cs. ok (ctype c) (cstatus c) (cobserved c))"

definition admits_own :: "(string \<Rightarrow> string \<Rightarrow> int \<Rightarrow> bool) \<Rightarrow> int \<Rightarrow> bool" where
  "admits_own ok g \<longleftrightarrow>
     (\<forall>t \<in> set module_types. ok t ConditionTrue g \<and> ok t ConditionFalse g \<and> ok t ConditionUnknown g)"

context conditions_lib
begin

lemma kept_observed:
  "kept_conditions ok cs \<longleftrightarrow>
    one_per_type cs \<and> (\<forall>t s r m g. observed cm cs t = Some (s, r, m, g) \<longrightarrow> ok t s g)"
proof -
  have found: "find (\<lambda>d. ctype d = ctype c) cs = Some c" if one: "one_per_type cs" and c: "c \<in> set cs" for c
  proof -
    from c have "find (\<lambda>d. ctype d = ctype c) cs \<noteq> None" by (auto simp: find_None_iff)
    then obtain d where "find (\<lambda>d. ctype d = ctype c) cs = Some d" by blast
    with one_per_type_found [OF one this c] show ?thesis by simp
  qed
  have member: "c \<in> set cs \<and> ctype c = t" if "find (\<lambda>d. ctype d = t) cs = Some c" for c t
    using that by (auto simp: find_Some_iff)
  have seen: "observed cm cs t = Some (s, r, m, g) \<longleftrightarrow>
      (\<exists>c \<in> set cs. ctype c = t \<and> shown c = (s, r, m, g))" if one: "one_per_type cs" for t s r m g
  proof
    assume "observed cm cs t = Some (s, r, m, g)"
    then show "\<exists>c \<in> set cs. ctype c = t \<and> shown c = (s, r, m, g)"
      using member unfolding observed_def find_first by blast
  next
    assume "\<exists>c \<in> set cs. ctype c = t \<and> shown c = (s, r, m, g)"
    then obtain c where c: "c \<in> set cs" "ctype c = t" "shown c = (s, r, m, g)" by blast
    from found [OF one c(1)] c(2,3) show "observed cm cs t = Some (s, r, m, g)"
      by (simp add: observed_def find_first)
  qed
  show ?thesis
  proof (cases "one_per_type cs")
    case one: True
    then show ?thesis by (simp add: kept_conditions_def seen [OF one] shown_def) blast
  qed (simp add: kept_conditions_def)
qed

lemma set_kept:
  assumes "kept_conditions ok cs" and "ok (ctype c) (cstatus c) (cobserved c)"
  shows "kept_conditions ok (lib_set (cm_lib cm) cs c)"
  using assms by (auto simp: kept_observed set_observed shown_def set_one_per_type)

lemma marks_kept:
  assumes "kept_conditions ok cs" and "admits_own ok (cm_generation cm)" and "ty \<in> set module_types"
  shows "kept_conditions ok (MarkTrue cm ty cs)" and "kept_conditions ok (MarkTrueWithReason cm ty r cs)"
    and "kept_conditions ok (MarkFalse cm ty r m cs)" and "kept_conditions ok (MarkUnknown cm ty cs)"
  using assms by (simp_all add: mark_defs set_kept admits_own_def)

lemma own_types [simp]:
  "ConditionMCPLifecycleOperatorAvailable \<in> set module_types"
  "ConditionMCPServerStorageMigrated \<in> set module_types"
  "ConditionMCPServerConversionVerified \<in> set module_types"
  "ConditionTypeReady \<in> set module_types" "ConditionTypeProvisioningSucceeded \<in> set module_types"
  "ConditionTypeDegraded \<in> set module_types"
  by (simp_all add: module_types_def)

lemma aggregate_kept:
  assumes "kept_conditions ok cs" and "admits_own ok (cm_generation cm)"
  shows "kept_conditions ok (AggregateReady cm cs)"
  using assms by (auto simp: AggregateReady_def Let_def marks_kept split: prod.splits)

lemma migration_kept:
  assumes "reconcileStorageMigration K U cm cr w = (res, cr', w')"
    and "kept_conditions ok (GetConditions cr)" and "admits_own ok (cm_generation cm)"
  shows "kept_conditions ok (GetConditions cr')"
  using reconcile_same_or_marked [OF assms(1)] assms(2,3)
  by (auto simp: migration_marked_def marks_kept)

lemma outcome_kept:
  assumes "outcome P r cm pc cr w (res, err, cr', w')"
    and "kept_conditions ok (GetConditions cr)" and "admits_own ok (cm_generation cm)"
  shows "kept_conditions ok (GetConditions cr')"
  using assms(1)
proof cases
  case (settled tls w1 res)
  from migration_kept [OF settled(5) _ assms(3)] show ?thesis
    using assms(2,3) by (simp add: marks_kept aggregate_kept)
next
  case (verified tls w1 w2 res)
  from migration_kept [OF verified(6) _ assms(3)] show ?thesis
    using assms(2,3) by (simp add: marks_kept aggregate_kept)
qed (use assms(2,3) in \<open>simp_all add: markUnavailable_def marks_kept aggregate_kept\<close>)

lemma removed_kept:
  assumes "handleRemoved K r cm cr w = (res, err, cr', w')"
    and "kept_conditions ok (GetConditions cr)" and "admits_own ok (cm_generation cm)"
  shows "kept_conditions ok (GetConditions cr')"
  using assms
  by (auto simp: handleRemoved_def markRemoved_def Let_def marks_kept split: prod.splits option.splits if_splits)

end

lemma own_conditions_schema:
  "0 \<le> g \<Longrightarrow> int64_range g \<Longrightarrow> admits_own condition_schema g"
  using module_types_pattern by (auto simp: admits_own_def condition_schema_def condition_status_defs)

section \<open>One step\<close>

text \<open>What a reconcile leaves, without the cases of its handlers.\<close>

lemma removed_keeps_distribution:
  assumes "reconcile P r cr w = Some (r', res, err, cr', w')" and "cr_management_state cr = Removed"
  shows "st_distribution (cr_status cr') = st_distribution (cr_status cr)"
  using reconcile_removed [OF assms]
  by (auto simp: handleRemoved_def markRemoved_def Let_def split: prod.splits option.splits if_splits)

lemma reconcile_parts:
  assumes "conditions_laws (pl_conditions P)" and "reconcile P r cr w = Some (r', res, err, cr', w')"
    and "kept_conditions ok (GetConditions cr)" and "admits_own ok (cr_generation cr)"
  obtains pc cr1 where "cr' = updateBaseStatus r (manager_of P cr) pc cr1"
    and "kept_conditions ok (GetConditions cr1)" and "cr_name cr1 = cr_name cr"
    and "cr_generation cr1 = cr_generation cr" and "cr_management_state cr1 = cr_management_state cr"
    and "st_releases (cr_status cr1) = st_releases (cr_status cr)"
proof (cases "cr_management_state cr = Removed")
  note lib = manager_laws [OF assms(1)]
  case True
  from reconcile_removed [OF assms(2) True] obtain w1 pc cr1
    where h: "handleRemoved (pl_kube P) r (manager_of P cr) cr w1 = (res, err, cr1, w')"
      and cr': "cr' = updateBaseStatus r (manager_of P cr) pc cr1" by blast
  from h have "cr_name cr1 = cr_name cr" "cr_generation cr1 = cr_generation cr"
    "cr_management_state cr1 = cr_management_state cr"
    "st_releases (cr_status cr1) = st_releases (cr_status cr)"
    by (auto simp: handleRemoved_def markRemoved_def Let_def split: prod.splits option.splits if_splits)
  with conditions_lib.removed_kept [OF lib h assms(3)] assms(4) cr' show thesis by (auto intro: that)
next
  note lib = manager_laws [OF assms(1)]
  case False
  obtain pc r1 cr1 w1 where p: "prepared P r cr w = (pc, r1, cr1, w1)" by (metis prod_cases4)
  from reconcile_outcome [OF assms(2) False p] obtain cr2
    where o: "outcome P r1 (manager_of P cr) pc cr1 w1 (res, err, cr2, w')"
      and cr': "cr' = updateBaseStatus r (manager_of P cr) pc cr2" .
  have "kept_conditions ok (GetConditions cr2)"
    using conditions_lib.outcome_kept [OF lib o] assms(3,4) prepared_frame(7) [OF p] by simp
  with outcome_frame [OF o] outcome_releases [OF o] prepared_frame [OF p] prepared_releases [OF p] cr'
  show thesis by (auto intro: that)
qed

lemma base_releases_distinct:
  assumes "distinct (map rel_name (st_releases (cr_status cr)))"
  shows "distinct (map rel_name (st_releases (cr_status (updateBaseStatus r cm pc cr))))"
  using assms
  by (simp add: updateBaseStatus_def setReleases_def SetReleaseStatus_def Let_def
      MCPLifecycleOperatorServiceName_def platformReleaseName_def)

definition conforming :: "operator_cr \<Rightarrow> bool" where
  "conforming cr \<longleftrightarrow> admitted cr \<and> one_per_type (GetConditions cr)"

lemma conforming_kept:
  "conforming cr \<longleftrightarrow>
     0 < cr_generation cr \<and> int64_range (cr_generation cr) \<and> cr_name cr = MCPLifecycleOperatorInstanceName \<and>
     List.member [[], ''Managed'', ''Removed''] (cr_management_state cr) \<and>
     kept_conditions condition_schema (GetConditions cr) \<and>
     int64_range (st_observed_generation (cr_status cr)) \<and>
     distinct (map rel_name (st_releases (cr_status cr)))"
  by (auto simp: conforming_def admitted_def resource_schema_def status_schema_def kept_conditions_def
      GetConditions_def list_all_iff)

lemma evolves_conforming:
  assumes "conditions_laws (pl_conditions P)" and "evolves P cr cr'" and "conforming cr"
  shows "conforming cr'"
  using assms(2)
proof cases
  case (edited g s)
  with assms(3) show ?thesis by (simp add: conforming_def GetConditions_def)
next
  case (reconciled r w r' res err w')
  have "admits_own condition_schema (cr_generation cr)"
    using assms(3) by (intro own_conditions_schema) (auto simp: conforming_kept)
  from reconcile_parts [OF assms(1) reconciled _ this] assms(3) obtain pc cr1 where
    "cr' = updateBaseStatus r (manager_of P cr) pc cr1" "kept_conditions condition_schema (GetConditions cr1)"
    "cr_name cr1 = cr_name cr" "cr_generation cr1 = cr_generation cr"
    "cr_management_state cr1 = cr_management_state cr"
    "st_releases (cr_status cr1) = st_releases (cr_status cr)" by (auto simp: conforming_kept)
  with assms(3) base_releases_distinct [of cr1] show ?thesis by (simp add: conforming_kept)
qed

section \<open>The parts of the status agree\<close>

text \<open>Availability, Ready and ProvisioningSucceeded have one status, and Degraded is not True.\<close>

definition together :: "conditions_manager \<Rightarrow> condition list \<Rightarrow> bool" where
  "together cm cs \<longleftrightarrow>
     (\<forall>s. status_is cm cs ConditionMCPLifecycleOperatorAvailable s \<longleftrightarrow> status_is cm cs ConditionTypeReady s) \<and>
     (\<forall>s. status_is cm cs ConditionTypeProvisioningSucceeded s \<longleftrightarrow> status_is cm cs ConditionTypeReady s) \<and>
     \<not> status_is cm cs ConditionTypeDegraded ConditionTrue"

lemma three_together: "all_three cm cr s \<Longrightarrow> not_degraded cm cr \<Longrightarrow> together cm (GetConditions cr)"
  by (auto simp: together_def all_three_def not_degraded_def status_is_def)

definition no_distribution :: distribution where
  "no_distribution = \<lparr>dist_name = [], dist_version = []\<rparr>"

definition listed_release :: "operator_cr \<Rightarrow> string \<Rightarrow> string option" where
  "listed_release cr n = map_of (map (\<lambda>rel. (rel_name rel, rel_version rel)) (st_releases (cr_status cr))) n"

definition committed_release :: "operator_cr \<Rightarrow> string option" where
  "committed_release cr =
     (let v = dist_version (st_distribution (cr_status cr)) in if v = [] then None else Some v)"

definition coherent :: "conditions_manager \<Rightarrow> operator_cr \<Rightarrow> bool" where
  "coherent cm cr \<longleftrightarrow>
     together cm (GetConditions cr) \<and>
     (st_phase (cr_status cr) = PhaseReady \<longleftrightarrow> status_is cm (GetConditions cr) ConditionTypeReady ConditionTrue) \<and>
     st_observed_generation (cr_status cr) \<le> cr_generation cr \<and>
     (\<forall>c \<in> set (GetConditions cr). cobserved c \<le> cr_generation cr) \<and>
     (st_distribution (cr_status cr) \<noteq> no_distribution \<longrightarrow>
        status_is cm (GetConditions cr) ConditionMCPServerConversionVerified ConditionTrue) \<and>
     listed_release cr platformReleaseName = committed_release cr"

lemma status_lib: "cm_lib cm = cm_lib cm' \<Longrightarrow> status_is cm cs t s = status_is cm' cs t s"
  by (simp add: status_is_def observed_def)

text \<open>The two signals of progress that later reconciles and consumers rely on.\<close>

definition durable_signals :: "string list" where
  "durable_signals = [ConditionMCPServerConversionVerified, ConditionMCPServerStorageMigrated]"

context conditions_lib
begin

lemma removed_parts:
  assumes "handleRemoved K r cm cr w = (res, err, cr', w')"
  shows "together cm (GetConditions cr) \<Longrightarrow> together cm (GetConditions cr')"
    and "t \<in> set durable_signals \<Longrightarrow> observed cm (GetConditions cr') t = observed cm (GetConditions cr) t"
    and "st_distribution (cr_status cr') = st_distribution (cr_status cr)"
proof -
  have "cr' = cr \<or> cr' = markRemoved cm cr"
    using assms by (auto simp: handleRemoved_def split: prod.splits option.splits if_splits)
  moreover have "together cm (GetConditions (markRemoved cm cr))"
    by (auto simp: together_def status_is_def markRemoved_def Let_def marks_observed)
  moreover have "t \<in> set durable_signals \<Longrightarrow>
      observed cm (GetConditions (markRemoved cm cr)) t = observed cm (GetConditions cr) t"
    by (auto simp: durable_signals_def markRemoved_def Let_def marks_observed)
  moreover have "st_distribution (cr_status (markRemoved cm cr)) = st_distribution (cr_status cr)"
    by (simp add: markRemoved_def Let_def)
  ultimately show "together cm (GetConditions cr) \<Longrightarrow> together cm (GetConditions cr')"
    and "t \<in> set durable_signals \<Longrightarrow> observed cm (GetConditions cr') t = observed cm (GetConditions cr) t"
    and "st_distribution (cr_status cr') = st_distribution (cr_status cr)" by auto
qed

lemma removed_keeps_signal:
  assumes "reconcile P r cr w = Some (r', res, err, cr', w')" and "cr_management_state cr = Removed"
    and "manager_of P cr = cm" and "t \<in> set durable_signals"
  shows "observed cm (GetConditions cr') t = observed cm (GetConditions cr) t"
  using reconcile_removed [OF assms(1,2)] removed_parts(2) assms(3,4) by fastforce

lemma migration_durable:
  assumes "reconcileStorageMigration K U cm cr w = (res, cr', w')" and "t \<in> set durable_signals"
    and "status_is cm (GetConditions cr) t ConditionTrue"
  shows "status_is cm (GetConditions cr') t ConditionTrue"
proof (cases "t = ConditionMCPServerStorageMigrated")
  case True
  with assms(3) have "storageMigrationSettled (cm_lib cm) cr"
    by (simp add: storageMigrationSettled_def succeeded_status)
  with assms(1,3) show ?thesis by (simp add: reconcileStorageMigration_def)
next
  case False
  with migration_frame [OF assms(1)] assms(3) show ?thesis by (simp add: status_is_def)
qed

lemma available_durable:
  "t \<in> set durable_signals \<Longrightarrow> status_is cm (GetConditions cr) t s \<Longrightarrow>
     status_is cm (GetConditions (markAvailable cm pc cr)) t s"
  by (auto simp: durable_signals_def status_is_def aggregate_frame marks_observed)

lemma verified_durable:
  "status_is cm (GetConditions cr) t ConditionTrue \<Longrightarrow> status_is cm (GetConditions (markVerified cm cr)) t ConditionTrue"
  by (simp add: status_is_def marks_observed)

lemma outcome_durable:
  assumes "outcome P r cm pc cr w (res, err, cr', w')" and "t \<in> set durable_signals"
    and "status_is cm (GetConditions cr) t ConditionTrue"
  shows "status_is cm (GetConditions cr') t ConditionTrue"
  using assms(1)
proof cases
  case (settled tls w1 res)
  from migration_durable [OF settled(5) assms(2) available_durable [OF assms(2,3)]] show ?thesis .
next
  case (verified tls w1 w2 res)
  from migration_durable [OF verified(6) assms(2) available_durable [OF assms(2) verified_durable [OF assms(3)]]]
  show ?thesis .
qed (use assms(2,3) in \<open>auto simp: durable_signals_def status_is_def unavailable_observed [OF laws]\<close>)

lemma outcome_committed:
  assumes "outcome P r cm pc cr w (res, err, cr', w')"
    and "st_distribution (cr_status cr') \<noteq> st_distribution (cr_status cr)"
  shows "status_is cm (GetConditions cr') ConditionMCPServerConversionVerified ConditionTrue"
  using assms(1)
proof cases
  case (settled tls w1 res)
  with assms(2) reconcile_migration_fields [OF settled(5)] show ?thesis
    by (cases "st_distribution (cr_status cr)") (auto simp: conversionHandshakeSettled_def)
next
  case (verified tls w1 w2 res)
  have signal: "ConditionMCPServerConversionVerified \<in> set durable_signals" by (simp add: durable_signals_def)
  have "status_is cm (GetConditions (markVerified cm cr)) ConditionMCPServerConversionVerified ConditionTrue"
    by (simp add: status_is_def marks_observed)
  from migration_durable [OF verified(6) signal available_durable [OF signal this]] show ?thesis .
qed (use assms(2) in simp_all)

lemma outcome_together:
  assumes "outcome P r cm pc cr w (res, err, cr', w')" and "one_per_type (GetConditions cr)"
  shows "together cm (GetConditions cr')"
  using outcome_conditions [OF assms] three_together by blast

end

text \<open>One reconcile, for the parts of the status.\<close>

lemma reconcile_status:
  assumes "conditions_laws (pl_conditions P)" and "reconcile P r cr w = Some (r', res, err, cr', w')"
    and "one_per_type (GetConditions cr)"
  obtains pc cr1 where "cr' = updateBaseStatus r (manager_of P cr) pc cr1"
    and "together (manager_of P cr) (GetConditions cr) \<longrightarrow> together (manager_of P cr) (GetConditions cr1)"
    and "\<forall>t \<in> set durable_signals. status_is (manager_of P cr) (GetConditions cr) t ConditionTrue \<longrightarrow>
      status_is (manager_of P cr) (GetConditions cr1) t ConditionTrue"
    and "st_distribution (cr_status cr1) \<noteq> st_distribution (cr_status cr) \<longrightarrow> pc_Available pc \<and>
      status_is (manager_of P cr) (GetConditions cr1) ConditionMCPServerConversionVerified ConditionTrue"
    and "st_releases (cr_status cr1) = st_releases (cr_status cr)" and "cr_generation cr1 = cr_generation cr"
proof (cases "cr_management_state cr = Removed")
  note lib = manager_laws [OF assms(1)]
  case True
  from reconcile_removed [OF assms(2) True] obtain w1 pc cr1
    where h: "handleRemoved (pl_kube P) r (manager_of P cr) cr w1 = (res, err, cr1, w')"
      and cr': "cr' = updateBaseStatus r (manager_of P cr) pc cr1" by blast
  from h have "st_releases (cr_status cr1) = st_releases (cr_status cr)" "cr_generation cr1 = cr_generation cr"
    by (auto simp: handleRemoved_def markRemoved_def Let_def split: prod.splits option.splits if_splits)
  with conditions_lib.removed_parts [OF lib h] cr' show thesis by (auto simp: status_is_def intro: that)
next
  note lib = manager_laws [OF assms(1)]
  case False
  obtain pc r1 cr1 w1 where p: "prepared P r cr w = (pc, r1, cr1, w1)" by (metis prod_cases4)
  from reconcile_outcome [OF assms(2) False p] obtain cr2
    where o: "outcome P r1 (manager_of P cr) pc cr1 w1 (res, err, cr2, w')"
      and cr': "cr' = updateBaseStatus r (manager_of P cr) pc cr2" .
  show thesis
  proof (rule that [OF cr'])
    show "together (manager_of P cr) (GetConditions cr) \<longrightarrow> together (manager_of P cr) (GetConditions cr2)"
      using conditions_lib.outcome_together [OF lib o] assms(3) prepared_frame(7) [OF p] by simp
    show "\<forall>t \<in> set durable_signals. status_is (manager_of P cr) (GetConditions cr) t ConditionTrue \<longrightarrow>
        status_is (manager_of P cr) (GetConditions cr2) t ConditionTrue"
      using conditions_lib.outcome_durable [OF lib o] prepared_frame(7) [OF p] by simp
    show "st_distribution (cr_status cr2) \<noteq> st_distribution (cr_status cr) \<longrightarrow> pc_Available pc \<and>
        status_is (manager_of P cr) (GetConditions cr2) ConditionMCPServerConversionVerified ConditionTrue"
      using outcome_distribution [OF o] conditions_lib.outcome_committed [OF lib o] prepared_frame(6) [OF p]
      by simp
  qed (use outcome_releases [OF o] prepared_releases [OF p] outcome_frame [OF o] prepared_frame [OF p] in simp_all)
qed

lemma base_release:
  "listed_release (updateBaseStatus r cm pc cr) platformReleaseName =
     (if pc_Available pc then committed_release cr else listed_release cr platformReleaseName)"
  "committed_release (updateBaseStatus r cm pc cr) = committed_release cr"
  by (auto simp: listed_release_def committed_release_def updateBaseStatus_def setReleases_def
      SetReleaseStatus_def Let_def MCPLifecycleOperatorServiceName_def platformReleaseName_def)

lemma reconcile_coherent:
  assumes "conditions_laws (pl_conditions P)" and "reconcile P r cr w = Some (r', res, err, cr', w')"
    and "one_per_type (GetConditions cr)" and "coherent (manager_of P cr) cr"
  shows "coherent (manager_of P cr) cr'"
proof -
  let ?cm = "manager_of P cr"
  obtain pc cr1 where cr': "cr' = updateBaseStatus r ?cm pc cr1"
    and parts: "together ?cm (GetConditions cr) \<longrightarrow> together ?cm (GetConditions cr1)"
      "\<forall>t \<in> set durable_signals. status_is ?cm (GetConditions cr) t ConditionTrue \<longrightarrow>
        status_is ?cm (GetConditions cr1) t ConditionTrue"
      "st_distribution (cr_status cr1) \<noteq> st_distribution (cr_status cr) \<longrightarrow> pc_Available pc \<and>
        status_is ?cm (GetConditions cr1) ConditionMCPServerConversionVerified ConditionTrue"
      "st_releases (cr_status cr1) = st_releases (cr_status cr)" "cr_generation cr1 = cr_generation cr"
    using reconcile_status [OF assms(1-3)] .
  have old: "kept_conditions (\<lambda>t s g. g \<le> cr_generation cr) (GetConditions cr)"
    using assms(3,4) by (simp add: kept_conditions_def coherent_def)
  have "admits_own (\<lambda>t s g. g \<le> cr_generation cr) (cr_generation cr)" by (simp add: admits_own_def)
  from reconcile_parts [OF assms(1,2) old this]
  have new: "kept_conditions (\<lambda>t s g. g \<le> cr_generation cr) (GetConditions cr1)"
    by (metis base_frame(7) cr')
  have verified: "st_distribution (cr_status cr1) \<noteq> no_distribution \<longrightarrow>
      status_is ?cm (GetConditions cr1) ConditionMCPServerConversionVerified ConditionTrue"
    using parts(2,3) assms(4)
    by (cases "st_distribution (cr_status cr1) = st_distribution (cr_status cr)")
      (simp_all add: coherent_def durable_signals_def)
  have release: "pc_Available pc \<or> listed_release cr1 platformReleaseName = committed_release cr1"
    using parts(3,4) assms(4) by (auto simp: coherent_def listed_release_def committed_release_def Let_def)
  have phase: "st_phase (cr_status cr') = PhaseReady \<longleftrightarrow> status_is ?cm (GetConditions cr1) ConditionTypeReady ConditionTrue"
    unfolding cr' by (rule base_phase) (simp add: assms(1))
  show ?thesis
    using parts(1,5) assms(4) new verified release phase
    by (auto simp: coherent_def cr' base_release kept_conditions_def)
qed

lemma coherent_lib: "cm_lib cm = cm_lib cm' \<Longrightarrow> coherent cm cr \<Longrightarrow> coherent cm' cr"
  using status_lib [of cm cm'] by (simp add: coherent_def together_def)

lemma evolves_coherent:
  assumes "conditions_laws (pl_conditions P)" and "evolves P cr cr'"
    and "one_per_type (GetConditions cr)" and "coherent (manager_of P cr) cr"
  shows "coherent (manager_of P cr') cr'"
  using assms(2)
proof cases
  case (edited g s)
  have "coherent (manager_of P cr') cr"
    by (rule coherent_lib [OF _ assms(4)]) simp
  with edited show ?thesis
    by (fastforce simp: coherent_def GetConditions_def listed_release_def committed_release_def)
next
  case (reconciled r w r' res err w')
  from reconcile_coherent [OF assms(1) reconciled assms(3,4)] show ?thesis
    by (rule coherent_lib [rotated]) simp
qed

lemma created_coherent:
  assumes "conditions_laws (pl_conditions P)" and "cr_status cr = empty_status" and "0 < cr_generation cr"
  shows "coherent (manager_of P cr) cr"
proof -
  have "observed (manager_of P cr) (GetConditions cr) t = None" for t
    using assms(2) conditions_lib.find_first [OF manager_laws [OF assms(1)]]
    by (simp add: observed_def GetConditions_def empty_status_def)
  with assms(2,3) show ?thesis
    by (simp add: coherent_def together_def status_is_def GetConditions_def empty_status_def PhaseReady_def
        no_distribution_def listed_release_def committed_release_def)
qed

lemma life_invariants:
  assumes "conditions_laws (pl_conditions P)" and "life P cr"
  shows "conforming cr \<and> coherent (manager_of P cr) cr"
  using assms(2)
proof (induction rule: life.induct)
  case (created cr)
  then have "one_per_type (GetConditions cr)"
    by (simp add: one_per_type_def GetConditions_def empty_status_def)
  with created created_coherent [OF assms(1)] show ?case by (simp add: conforming_def admitted_def)
next
  case (lived_on cr cr')
  with evolves_conforming [OF assms(1)] evolves_coherent [OF assms(1)] show ?case
    by (auto simp: conforming_def)
qed

lemma signals_stay:
  assumes "conditions_laws (pl_conditions P)" and "evolves P cr cr'" and "one_per_type (GetConditions cr)"
    and "t \<in> set durable_signals" and "status_is (manager_of P cr) (GetConditions cr) t ConditionTrue"
  shows "status_is (manager_of P cr') (GetConditions cr') t ConditionTrue"
  using assms(2)
proof cases
  case (edited g s)
  with assms(5) status_lib [of "manager_of P cr'" "manager_of P cr"] show ?thesis by (simp add: GetConditions_def)
next
  case (reconciled r w r' res err w')
  from reconcile_status [OF assms(1) reconciled assms(3)] assms(4,5)
  have "status_is (manager_of P cr) (GetConditions cr') t ConditionTrue" by (metis base_frame(7))
  with status_lib [of "manager_of P cr'" "manager_of P cr"] show ?thesis by simp
qed

section \<open>A sample life\<close>

definition created_cr :: operator_cr where
  "created_cr = (sample_cr ''Managed'')\<lparr>cr_status := empty_status\<rparr>"

lemma created_life: "life P created_cr"
proof (rule life.created)
  show "admitted created_cr" by code_simp
qed (simp add: created_cr_def)

lemma created_passes:
  "map_option (\<lambda>out. summary (snd out))
     (reconcile (sample_platform False) sample_reconciler created_cr (sample_cluster 1)) =
   Some (60000000000, True, ''Ready'', \<lparr>dist_name = ''Standalone'', dist_version = ''1.2.0''\<rparr>, True,
     [(''mcplifecycleoperator'', ''1.2.0''), (''platform'', ''1.2.0'')],
     [''create'', ''get'', ''discover'', ''list'', ''get-deployment'', ''collect'', ''deploy'',
      ''get-crd'', ''get-configmap''])"
  by code_simp

lemma ready_life:
  obtains cr' where "evolves (sample_platform False) created_cr cr'" and "st_phase (cr_status cr') = PhaseReady"
    and "st_distribution (cr_status cr') = \<lparr>dist_name = ''Standalone'', dist_version = ''1.2.0''\<rparr>"
    and "status_is (manager_of (sample_platform False) cr') (GetConditions cr')
      ConditionMCPServerConversionVerified ConditionTrue"
    and "cr_generation cr' = 3"
proof -
  from created_passes obtain r' res err cr' w' where run:
    "reconcile (sample_platform False) sample_reconciler created_cr (sample_cluster 1) = Some (r', res, err, cr', w')"
    and "st_phase (cr_status cr') = PhaseReady"
    and "st_distribution (cr_status cr') = \<lparr>dist_name = ''Standalone'', dist_version = ''1.2.0''\<rparr>"
    and v: "lib_is_true list_conditions (GetConditions cr') ConditionMCPServerConversionVerified"
    by (auto simp: summary_def PhaseReady_def)
  moreover have "status_is (manager_of (sample_platform False) cr') (GetConditions cr')
      ConditionMCPServerConversionVerified ConditionTrue"
    using v conditions_lib.is_true_status [OF manager_laws [OF sample_laws(1)]] by (simp add: sample_platform_def)
  moreover have "cr_generation cr' = cr_generation created_cr"
  proof (rule reconcile_parts [OF sample_laws(1) run, of "\<lambda>t s g. True"])
    show "kept_conditions (\<lambda>t s g. True) (GetConditions created_cr)"
      by (simp add: kept_conditions_def one_per_type_def created_cr_def GetConditions_def empty_status_def)
  qed (simp_all add: admits_own_def)
  ultimately show thesis using that evolves.reconciled [OF run] by (simp add: created_cr_def sample_cr_def)
qed

section \<open>Properties\<close>

text \<open>
  C6: Whatever a user does to the resource and whatever the cluster answers, every resource the
  operator can come to see satisfies the schema of the CRD, one condition per type, and so does
  what a reconcile of it hands to the status patch, also one that fails: condition types match the
  pattern and the length, statuses are True, False or Unknown, generations are 64 bit and not
  negative, and no release is listed twice. The schema never is a reason to refuse the status patch.
\<close>

theorem reachable_resource_conforms:
  assumes "conditions_laws (pl_conditions P)" and "life P cr"
  shows "resource_schema cr \<and> one_per_type (GetConditions cr) \<and>
    (\<forall>r w r' res err cr' w'. reconcile P r cr w = Some (r', res, err, cr', w') \<longrightarrow>
       resource_schema cr' \<and> one_per_type (GetConditions cr'))"
proof -
  have "resource_schema cr \<and> one_per_type (GetConditions cr)" if "life P cr" for cr
    using life_invariants [OF assms(1) that] by (simp add: conforming_def admitted_def)
  with assms(2) life.lived_on evolves.reconciled show ?thesis by metis
qed

theorem reachable_resource_conforms_witness:
  "\<exists>cr. life (sample_platform False) cr \<and> st_phase (cr_status cr) = PhaseReady \<and> resource_schema cr"
proof -
  obtain cr' where "evolves (sample_platform False) created_cr cr'" and "st_phase (cr_status cr') = PhaseReady"
    by (rule ready_life)
  with created_life life.lived_on have "life (sample_platform False) cr'" by blast
  with reachable_resource_conforms [OF sample_laws(1) this] \<open>st_phase (cr_status cr') = PhaseReady\<close>
  show ?thesis by blast
qed

text \<open>
  C4: In every reachable resource the parts of the status agree: availability, Ready and
  ProvisioningSucceeded have the same status, or none, and Degraded is not True; the phase is Ready
  exactly when the Ready condition is True; nothing was observed at a later generation than the
  resource has; a distribution is recorded only together with the marker of a verified conversion;
  and the platform release that is listed is the one of the recorded distribution.
\<close>

theorem reachable_status_coherent:
  assumes "conditions_laws (pl_conditions P)" and "life P cr"
  shows "let cm = manager_of P cr; cs = GetConditions cr in
    (\<forall>s. status_is cm cs ConditionMCPLifecycleOperatorAvailable s = status_is cm cs ConditionTypeReady s) \<and>
    (\<forall>s. status_is cm cs ConditionTypeProvisioningSucceeded s = status_is cm cs ConditionTypeReady s) \<and>
    \<not> status_is cm cs ConditionTypeDegraded ConditionTrue \<and>
    (st_phase (cr_status cr) = PhaseReady \<longleftrightarrow> status_is cm cs ConditionTypeReady ConditionTrue) \<and>
    st_observed_generation (cr_status cr) \<le> cr_generation cr \<and>
    (\<forall>c \<in> set cs. cobserved c \<le> cr_generation cr) \<and>
    (st_distribution (cr_status cr) \<noteq> no_distribution \<longrightarrow>
       status_is cm cs ConditionMCPServerConversionVerified ConditionTrue) \<and>
    listed_release cr platformReleaseName = committed_release cr"
  using life_invariants [OF assms] unfolding Let_def coherent_def together_def by blast

theorem reachable_status_coherent_witness:
  "\<exists>cr. life (sample_platform False) cr \<and> listed_release cr platformReleaseName = Some ''1.2.0''"
proof -
  obtain cr' where "evolves (sample_platform False) created_cr cr'"
    and d: "st_distribution (cr_status cr') = \<lparr>dist_name = ''Standalone'', dist_version = ''1.2.0''\<rparr>"
    by (rule ready_life)
  with created_life life.lived_on have "life (sample_platform False) cr'" by blast
  with reachable_status_coherent [OF sample_laws(1) this] d show ?thesis
    by (auto simp: committed_release_def Let_def)
qed

text \<open>
  C15: The two signals other steps wait for, a verified conversion and a completed storage
  migration, are never taken back: once True they are True after any number of edits and
  reconciles, through failures, upgrades and a removal.
\<close>

theorem signals_are_durable:
  assumes "conditions_laws (pl_conditions P)" and "life P cr" and "(evolves P)\<^sup>*\<^sup>* cr cr'"
    and "t = ConditionMCPServerConversionVerified \<or> t = ConditionMCPServerStorageMigrated"
    and "status_is (manager_of P cr) (GetConditions cr) t ConditionTrue"
  shows "status_is (manager_of P cr') (GetConditions cr') t ConditionTrue"
proof -
  have t: "t \<in> set durable_signals" using assms(4) by (auto simp: durable_signals_def)
  from assms(3) have "life P cr' \<and> status_is (manager_of P cr') (GetConditions cr') t ConditionTrue"
  proof (induction rule: rtranclp_induct)
    case base
    show ?case using assms(2,5) by simp
  next
    case (step cr1 cr2)
    with life_invariants [OF assms(1)] signals_stay [OF assms(1) step(2) _ t] life.lived_on
    show ?case by (auto simp: conforming_def)
  qed
  then show ?thesis ..
qed

theorem signals_are_durable_witness:
  "\<exists>cr. life (sample_platform False) cr \<and> cr_management_state cr = Removed \<and>
     status_is (manager_of (sample_platform False) cr) (GetConditions cr)
       ConditionMCPServerConversionVerified ConditionTrue"
proof -
  let ?P = "sample_platform False"
  obtain cr1 where g: "cr_generation cr1 = 3" and cr1: "evolves ?P created_cr cr1"
    and v: "status_is (manager_of ?P cr1) (GetConditions cr1) ConditionMCPServerConversionVerified ConditionTrue"
    by (rule ready_life)
  with created_life life.lived_on have life1: "life ?P cr1" by blast
  let ?cr2 = "cr1\<lparr>cr_management_state := Removed, cr_generation := 4\<rparr>"
  have "admitted ?cr2"
    using life_invariants [OF sample_laws(1) life1]
    by (simp add: conforming_def admitted_def resource_schema_def int64_range_def Removed_def)
  then have step: "evolves ?P cr1 ?cr2" by (intro evolves.edited) (simp_all add: g)
  then have steps: "(evolves ?P)\<^sup>*\<^sup>* cr1 ?cr2" ..
  have "status_is (manager_of ?P ?cr2) (GetConditions ?cr2) ConditionMCPServerConversionVerified ConditionTrue"
    by (rule signals_are_durable [OF sample_laws(1) life1 steps disjI1 [OF refl] v])
  moreover have "life ?P ?cr2" using life1 step by (rule life.lived_on)
  moreover have "cr_management_state ?cr2 = Removed" by simp
  ultimately show ?thesis by blast
qed

end
