(* ===== verification/Kustomize_Spec.thy ===== *)
theory Kustomize_Spec
  imports Kustomize
begin

text \<open>
  What the operand manifests are after loading and patching: the pipeline resource by resource,
  what a patch of the manager container leaves alone, and the two rewriting lists.
\<close>

section \<open>Loading\<close>

lemma decode_documents:
  "decodeDocuments docs None = Inr (List.map_filter (\<lambda>d. d) docs)"
  "decodeDocuments docs (Some e) = Inl (Wrapped ''decoding YAML document'' e)"
proof -
  show "decodeDocuments docs None = Inr (List.map_filter (\<lambda>d. d) docs)"
  proof (induction docs)
    case (Cons d docs)
    then show ?case by (cases d) (simp_all add: map_filter_simps)
  qed (simp add: map_filter_simps)
  show "decodeDocuments docs (Some e) = Inl (Wrapped ''decoding YAML document'' e)"
  proof (induction docs)
    case (Cons d docs)
    then show ?case by (cases d) simp_all
  qed simp
qed

section \<open>Containers a patch leaves alone\<close>

definition container_step :: "unstructured_api \<Rightarrow> transformer \<Rightarrow> gval \<Rightarrow> gval \<Rightarrow> bool" where
  "container_step U fn c c' \<longleftrightarrow>
     (case as_map c of
        None \<Rightarrow> c' = c
      | Some m \<Rightarrow>
          if stringField U m ''name'' = ''manager'' then \<exists>m'. fn m = Inr m' \<and> c' = VMap m' else c' = c)"

lemma patch_steps:
  "patchContainers U fn cs h = Inr (cs', h') \<Longrightarrow> list_all2 (container_step U fn) cs cs'"
proof (induction cs arbitrary: h cs')
  case Nil
  then show ?case by simp
next
  case (Cons c cs)
  from Cons.prems obtain c1 rest h1 where "patchContainers U fn cs h1 = Inr (rest, h')"
    and "cs' = c1 # rest" and "container_step U fn c c1"
    by (auto simp: container_step_def split: option.splits if_splits sum.splits prod.splits)
  with Cons.IH show ?case by simp
qed

lemma patch_rejects:
  "managers_in U cs = [] \<Longrightarrow> patchContainers U fn cs False = Inr (cs, False)"
  by (induction cs) (auto split: option.splits if_splits)

section \<open>Rewritten names\<close>

lemma rewrite_dns_names:
  "rewriteDNSNames a b names ch =
     (map (\<lambda>n. ReplaceAll n (''.'' @ a @ ''.'') (''.'' @ b @ ''.'')) names,
      ch \<or> (\<exists>n \<in> set names. ReplaceAll n (''.'' @ a @ ''.'') (''.'' @ b @ ''.'') \<noteq> n))"
  by (induction names arbitrary: ch) (auto simp: Let_def)

section \<open>The environment and the certificate references\<close>

context unstructured_lib
begin

lemma tls_environment:
  assumes "tlsPatch U name a b g c = Inr c'"
  shows "(\<forall>(k, v) \<in> set (tlsSettings a b g). envValue U (containerEnv U c') k = Some v) \<and>
    (\<forall>k. k \<notin> fst ` set (tlsSettings a b g) \<longrightarrow>
       envValue U (containerEnv U c') k = envValue U (containerEnv U c) k) \<and>
    same_except ''env'' c c' \<and>
    (\<forall>c''. tlsPatch U name a b g c' = Inr c'' \<longrightarrow> containerEnv U c'' = containerEnv U c')"
proof -
  note env' = tls_patch(1) [OF assms]
  have "envValue U (containerEnv U c') k = Some v" if "(k, v) \<in> set (tlsSettings a b g)" for k v
    unfolding envValue_read env' using that env_names_distinct by (intro env.get_puts) auto
  moreover have "envValue U (containerEnv U c') k = envValue U (containerEnv U c) k"
    if "k \<notin> fst ` set (tlsSettings a b g)" for k
    unfolding envValue_read env' using that by (intro env.get_puts_other) auto
  moreover have "containerEnv U c'' = containerEnv U c'" if "tlsPatch U name a b g c' = Inr c''" for c''
    unfolding tls_patch(1) [OF that] unfolding env'
    using env_names_distinct by (intro env.puts_idem) auto
  ultimately show ?thesis using tls_patch(2) [OF assms] by auto
qed

lemma inject_ca_fields:
  "apart [''metadata'', ''annotations''] q \<Longrightarrow> field (VMap (rewriteInjectCA U a b u)) q = field (VMap u) q"
  using annotations_frame by (simp add: rewriteInjectCA_def split: option.split)

lemma inject_ca_annotations:
  assumes "settable (VMap u) [''metadata'', ''annotations'']"
  shows "annotations_of U (rewriteInjectCA U a b u) =
    (case annotations_of U u certManagerInjectCAAnnotation of
       None \<Rightarrow> annotations_of U u
     | Some v \<Rightarrow>
         (case CutPrefix v (a @ ''/'') of
            None \<Rightarrow> annotations_of U u
          | Some rest \<Rightarrow> (annotations_of U u)(certManagerInjectCAAnnotation \<mapsto> b @ ''/'' @ rest)))"
proof (cases "u_GetAnnotations U u")
  case None
  then have "annotations_of U u = Map.empty" by (simp add: annotations_of_def)
  with None show ?thesis by (simp add: rewriteInjectCA_def)
next
  case (Some ann)
  then have "annotations_of U u = map_of ann" by (simp add: annotations_of_def)
  with Some show ?thesis
    by (simp add: rewriteInjectCA_def annotations_set [OF assms] split: option.split)
qed

lemma certificate_fields:
  assumes "rewriteCertificate U a b u = Inr u'" and "apart [''spec'', ''dnsNames''] q"
  shows "field (VMap u') q = field (VMap u) q"
  using assms set_strings(2)
  by (fastforce simp: rewriteCertificate_def split: if_splits sum.splits option.splits prod.splits)

lemma certificate_other:
  assumes "rewriteCertificate U a b u = Inr u'" and "u_GetKind U u \<noteq> ''Certificate''"
  shows "u' = u"
  using assms by (simp add: rewriteCertificate_def)

lemma certificate_annotations:
  assumes "rewriteCertificate U a b u = Inr u'"
  shows "annotations_of U u' = annotations_of U u"
proof -
  have "field (VMap u') [''metadata'', ''annotations''] = field (VMap u) [''metadata'', ''annotations'']"
    by (rule certificate_fields [OF assms]) (simp add: apart_def)
  from annotations_cong [OF this] show ?thesis by (simp add: annotations_of_def)
qed

lemma certificate_names:
  assumes "rewriteCertificate U a b u = Inr u'" and "u_GetKind U u = ''Certificate''"
    and "field (VMap u) [''spec'', ''dnsNames''] = Some (VList (map VStr names))"
  shows "field (VMap u') [''spec'', ''dnsNames''] =
    Some (VList (map (\<lambda>n. VStr (ReplaceAll n (''.'' @ a @ ''.'') (''.'' @ b @ ''.''))) names))"
proof -
  let ?r = "\<lambda>n. ReplaceAll n (''.'' @ a @ ''.'') (''.'' @ b @ ''.'')"
  from assms(3) have read: "u_NestedStringSlice U u [''spec'', ''dnsNames''] = Inr (Some names)"
    by (simp only: nested_strings_Some)
  show ?thesis
  proof (cases "\<exists>n \<in> set names. ?r n \<noteq> n")
    case True
    with assms(1,2) read have "u_SetNestedStringSlice U u (map ?r names) [''spec'', ''dnsNames''] = Inr u'"
      by (simp add: rewriteCertificate_def rewrite_dns_names split: sum.splits)
    from set_strings(1) [OF this] show ?thesis by (simp add: comp_def)
  next
    case False
    with assms(1,2) read have "u' = u" by (simp add: rewriteCertificate_def rewrite_dns_names)
    moreover from False have "map (\<lambda>n. VStr (?r n)) names = map VStr names" by simp
    ultimately show ?thesis using assms(3) by simp
  qed
qed

lemma certificate_dns:
  assumes "rewriteCertificate U a b u = Inr u'"
  shows "field (VMap u') [''spec'', ''dnsNames''] =
    (case field (VMap u) [''spec'', ''dnsNames''] of
       Some (VList names) \<Rightarrow>
         if u_GetKind U u = ''Certificate''
         then Some (VList (map (\<lambda>name. case name of
           VStr n \<Rightarrow> VStr (ReplaceAll n (''.'' @ a @ ''.'') (''.'' @ b @ ''.'')) | v \<Rightarrow> v) names))
         else Some (VList names)
     | unset \<Rightarrow> unset)"
proof (cases "u_GetKind U u = ''Certificate''")
  case False
  from certificate_other [OF assms False] False show ?thesis by (simp split: option.split gval.split)
next
  case True
  show ?thesis
  proof (cases "u_NestedStringSlice U u [''spec'', ''dnsNames'']")
    case (Inl e)
    with assms True show ?thesis by (simp add: rewriteCertificate_def)
  next
    case (Inr found)
    show ?thesis
    proof (cases found)
      case None
      with Inr assms True have "u' = u" by (simp add: rewriteCertificate_def)
      moreover have "field (VMap u) [''spec'', ''dnsNames''] = None"
        using nested_strings_None Inr None by blast
      ultimately show ?thesis by simp
    next
      case (Some names)
      with Inr have n: "field (VMap u) [''spec'', ''dnsNames''] = Some (VList (map VStr names))"
        by (simp add: nested_strings_Some)
      from certificate_names [OF assms True n] n True show ?thesis by (simp add: comp_def)
    qed
  qed
qed

end

section \<open>Properties\<close>

text \<open>
  C5: Rendering succeeds only as a whole, and then yields one resource per document that is not
  empty, in the order of the file: of the same kind, labelled as part of the module, and, for a
  Deployment, with at least one manager container, each of which runs the configured image, has
  the four TLS variables set to the resolved policy, and the restricted network-policy posture,
  also as a flag parser reads it, which takes the last argument, if the flag is named once.
\<close>

theorem manifests_patched:
  assumes "unstructured_laws U" and "manifestival_laws M" and "Manifests U M p ps = Inr rs"
    and "p_fs p operandYAMLPath = Inr data" and "p_decoder p data = (docs, None)"
    and "\<forall>u \<in> set (List.map_filter (\<lambda>d. d) docs). metadata_ok u"
  shows "list_all2 (\<lambda>u r. u_GetKind U r = u_GetKind U u \<and> part_of_module U r \<and>
      (u_GetKind U r = ''Deployment'' \<longrightarrow> deployment_patched U ps r))
    (List.map_filter (\<lambda>d. d) docs) rs"
proof -
  have loc: "manifest_provider U M"
    using assms(1,2) by (intro manifest_provider.intro unstructured_lib.intro manifest_provider_axioms.intro)
  define ns where "ns = (if OperandNamespace ps = [] then DefaultOperandNamespace else OperandNamespace ps)"
  obtain m m' where m: "mf_ManifestFrom M (List.map_filter (\<lambda>d. d) docs) = Inr m"
    and t: "mf_Transform M m (operandTransformers U M ns ps) = Inr m'" and rs: "rs = mf_Resources M m'"
    using assms(3-5) by (auto simp: Manifests_def loadResources_def decode_documents ns_def Let_def
        split: sum.splits)
  have "mf_Resources M m = List.map_filter (\<lambda>d. d) docs"
    using assms(2) m unfolding manifestival_laws_def by blast
  moreover have "map_result (apply_all (operandTransformers U M ns ps)) (mf_Resources M m) = Inr rs"
    using assms(2) t rs unfolding manifestival_laws_def by blast
  ultimately have "list_all2 (\<lambda>u r. apply_all (operandTransformers U M ns ps) u = Inr r)
      (List.map_filter (\<lambda>d. d) docs) rs"
    by (simp add: map_result_Inr)
  then show ?thesis
    using assms(6) by (auto simp: list_all2_conv_all_nth manifest_provider.pipeline [OF loc])
qed

definition test_deployment :: gmap where
  "test_deployment =
     [(''apiVersion'', VStr ''apps/v1''), (''kind'', VStr ''Deployment''),
      (''metadata'', VMap [(''name'', VStr ''op'')]),
      (''spec'', VMap [(''template'', VMap [(''spec'', VMap [(''containers'',
         VList [VMap [(''name'', VStr ''proxy'')],
           VMap [(''name'', VStr ''manager''), (''args'', VList [VStr networkPolicyPostureFlag])]])])])])]"

definition test_provider :: kustomize_provider where
  "test_provider = \<lparr>p_fs = (\<lambda>path. Inr []), p_decoder = (\<lambda>data. ([None, Some test_deployment], None))\<rparr>"

definition test_params :: params where
  "test_params = \<lparr>OperandNamespace = ''odh'', OperandImage = ''img'', TLSMinVersion = ''VersionTLS12'',
     TLSCipherSuites = [], TLSGroups = []\<rparr>"

theorem manifests_patched_witness:
  "\<exists>r. Manifests json_unstructured list_manifestival test_provider test_params = Inr [r] \<and>
     deployment_patched json_unstructured test_params r"
proof -
  let ?run = "Manifests json_unstructured list_manifestival test_provider test_params"
  have "case ?run of Inl e \<Rightarrow> False | Inr rs \<Rightarrow> length rs = 1" by code_simp
  then obtain r where run: "?run = Inr [r]" by (cases ?run) (auto simp: length_Suc_conv)
  have docs: "List.map_filter (\<lambda>d. d) [None, Some test_deployment] = [test_deployment]"
    by (simp add: map_filter_simps)
  have "p_fs test_provider operandYAMLPath = Inr []"
    and "p_decoder test_provider [] = ([None, Some test_deployment], None)"
    by (simp_all add: test_provider_def)
  note props = manifests_patched [OF json_unstructured_laws list_manifestival_laws run this, unfolded docs]
  have "metadata_ok test_deployment" and "u_GetKind json_unstructured test_deployment = ''Deployment''"
    by code_simp+
  with props run show ?thesis by simp
qed

text \<open>
  C31: A Deployment whose pod template has no container named manager is never passed through
  unpatched: every transformer that has something to set fails on it, so rendering fails.
\<close>

theorem missing_manager_rejected:
  assumes "unstructured_laws U" and "u_GetKind U u = ''Deployment''" and "managerContainers U u = []"
  shows "(img \<noteq> [] \<longrightarrow> (\<exists>e. replaceImage U img u = Inl e)) \<and>
    (a \<noteq> [] \<or> b \<noteq> [] \<or> g \<noteq> [] \<longrightarrow> (\<exists>e. injectTLSEnvVars U a b g u = Inl e)) \<and>
    (posture \<noteq> [] \<longrightarrow> (\<exists>e. injectNetworkPolicyPostureArg U posture u = Inl e))"
proof -
  have "\<exists>e. withManagerContainer U u fn = Inl e" for fn
  proof (cases "u_NestedSlice U u containersPath")
    case (Inr found)
    show ?thesis
    proof (cases found)
      case (Some cs)
      with Inr have "field (VMap u) containersPath = Some (VList cs)"
        using unstructured_lib.nested_slice_Some [OF unstructured_lib.intro [OF assms(1)]] by simp
      with assms(3) have "managers_in U cs = []" by (simp add: managerContainers_eq)
      with Inr Some assms(2) show ?thesis by (simp add: withManagerContainer_def patch_rejects)
    qed (use Inr assms(2) in \<open>simp add: withManagerContainer_def\<close>)
  qed (use assms(2) in \<open>simp add: withManagerContainer_def\<close>)
  then show ?thesis
    by (simp add: replaceImage_def injectTLSEnvVars_def injectNetworkPolicyPostureArg_def)
qed

theorem missing_manager_rejected_witness:
  "\<exists>e. injectNetworkPolicyPostureArg json_unstructured networkPolicyRestrictedPosture
     [(''kind'', VStr ''Deployment''), (''spec'', VMap [(''template'', VMap [(''spec'', VMap [(''containers'',
        VList [VMap [(''name'', VStr ''proxy'')]])])])])] = Inl e"
proof -
  let ?u = "[(''kind'', VStr ''Deployment''), (''spec'', VMap [(''template'', VMap [(''spec'', VMap [(''containers'',
        VList [VMap [(''name'', VStr ''proxy'')]])])])])]"
  have "u_GetKind json_unstructured ?u = ''Deployment''" and "managerContainers json_unstructured ?u = []"
    and "networkPolicyRestrictedPosture \<noteq> []"
    by code_simp+
  with missing_manager_rejected [OF json_unstructured_laws] show ?thesis by blast
qed

text \<open>
  A patch of the manager container touches nothing else: the containers keep their number and
  order, those of another name, and entries that are no container, are the same values, and every
  field apart from the containers is unchanged.
\<close>

theorem other_containers_untouched:
  assumes "unstructured_laws U" and "u_GetKind U u = ''Deployment''" and "withManagerContainer U u fn = Inr u'"
  shows "(\<exists>cs cs'. field (VMap u) containersPath = Some (VList cs) \<and>
      field (VMap u') containersPath = Some (VList cs') \<and> list_all2 (container_step U fn) cs cs') \<and>
    (\<forall>q. apart containersPath q \<longrightarrow> field (VMap u') q = field (VMap u) q)"
proof -
  note lib = unstructured_lib.intro [OF assms(1)]
  from assms(2,3) obtain cs cs' where cs: "u_NestedSlice U u containersPath = Inr (Some cs)"
    and p: "patchContainers U fn cs False = Inr (cs', True)"
    and set: "u_SetNestedSlice U u cs' containersPath = Inr u'"
    by (auto simp: withManagerContainer_def split: sum.splits option.splits prod.splits if_splits)
  from cs have "field (VMap u) containersPath = Some (VList cs)"
    by (simp add: unstructured_lib.nested_slice_Some [OF lib])
  with patch_steps [OF p] unstructured_lib.set_slice(1) [OF lib set]
    unstructured_lib.with_manager_frame [OF lib assms(3)]
  show ?thesis by blast
qed

theorem other_containers_untouched_witness:
  "\<exists>u'. withManagerContainer json_unstructured test_deployment (imagePatch ''img'') = Inr u' \<and>
     field (VMap u') [''kind''] = Some (VStr ''Deployment'')"
proof -
  let ?run = "withManagerContainer json_unstructured test_deployment (imagePatch ''img'')"
  have "case ?run of Inl e \<Rightarrow> False | Inr u' \<Rightarrow> True" by code_simp
  then obtain u' where run: "?run = Inr u'" by (auto split: sum.splits)
  have "u_GetKind json_unstructured test_deployment = ''Deployment''" by code_simp
  note untouched = other_containers_untouched [OF json_unstructured_laws this run, THEN conjunct2]
  have "apart containersPath [''kind'']" by (simp add: apart_def containersPath_def)
  with untouched have "field (VMap u') [''kind''] = field (VMap test_deployment) [''kind'']" by blast
  with run show ?thesis by (simp add: test_deployment_def)
qed

text \<open>
  Setting a flag argument makes the flag read as the given value and leaves the value of every
  other flag alone; a flag that is present, bare or with a value, is rewritten in place, an absent
  one is appended; setting it again changes nothing. Where the flag is named at most once, the new
  value is also what a flag parser reads, which takes the last argument of a flag.
\<close>

theorem flag_argument_set:
  assumes "noEquals flag"
  shows "flagValue (setFlagArg args flag v) flag = Some v \<and>
    (\<forall>other. noEquals other \<longrightarrow> other \<noteq> flag \<longrightarrow>
       flagValue (setFlagArg args flag v) other = flagValue args other) \<and>
    length (setFlagArg args flag v) = length args + (if list_ex (flagMatches flag) args then 0 else 1) \<and>
    (length (filter (flagMatches flag) args) \<le> 1 \<longrightarrow> flagParsed (setFlagArg args flag v) flag = Some v) \<and>
    setFlagArg (setFlagArg args flag v) flag v = setFlagArg args flag v"
proof -
  have "length (setFlagArg args flag v) = length args + (if list_ex (flagMatches flag) args then 0 else 1)"
    unfolding setFlagArg_length by (auto simp: find_None_iff list_ex_iff)
  then show ?thesis
    using assms parsed_once [of "setFlagArg args flag v" flag] setFlagArg_matches [of flag args v]
    by (simp add: namedOnce_def flagValue_read setFlagArg_insert flags.read_insert flags.read_insert_other
        flags.insert_read)
qed

theorem flag_argument_set_witness:
  "flagValue (setFlagArg [''--leader-elect'', networkPolicyPostureFlag @ ''=open''] networkPolicyPostureFlag
     ''restricted'') networkPolicyPostureFlag = Some ''restricted''"
  by (rule flag_argument_set [OF posture_flag_valid, THEN conjunct1])

text \<open>
  Injecting the TLS settings sets the four variables in the container's environment, dropping a
  reference they had as their source, keeps the value of every other variable and every other key of
  the container, and is idempotent: a second injection leaves the environment as it is.
\<close>

theorem tls_environment_set:
  assumes "unstructured_laws U" and "tlsPatch U name a b g c = Inr c'"
  shows "(\<forall>(k, v) \<in> set (tlsSettings a b g). envValue U (containerEnv U c') k = Some v) \<and>
    (\<forall>k. k \<notin> fst ` set (tlsSettings a b g) \<longrightarrow>
       envValue U (containerEnv U c') k = envValue U (containerEnv U c) k) \<and>
    same_except ''env'' c c' \<and>
    (\<forall>c''. tlsPatch U name a b g c' = Inr c'' \<longrightarrow> containerEnv U c'' = containerEnv U c')"
  using unstructured_lib.tls_environment [OF unstructured_lib.intro [OF assms(1)] assms(2)] by blast

theorem tls_environment_set_witness:
  "\<exists>c'. tlsPatch json_unstructured ''op'' ''1.2'' [] []
       [(''env'', VList [VMap [(''name'', VStr ''TLS_GROUPS''), (''valueFrom'', VMap [])]])] = Inr c' \<and>
     envValue json_unstructured (containerEnv json_unstructured c') envTLSGroups = Some []"
proof -
  let ?run = "tlsPatch json_unstructured ''op'' ''1.2'' [] []
       [(''env'', VList [VMap [(''name'', VStr ''TLS_GROUPS''), (''valueFrom'', VMap [])]])]"
  have "case ?run of Inl e \<Rightarrow> False | Inr c' \<Rightarrow> True" by code_simp
  then obtain c' where run: "?run = Inr c'" by (auto split: sum.splits)
  from tls_environment_set [OF json_unstructured_laws run] run show ?thesis by (simp add: tlsSettings_def)
qed

text \<open>
  C32: When the operand moves to another namespace, the cert-manager references follow it: an
  inject-ca-from annotation naming the old namespace names the new one and the same certificate, in
  a Certificate every occurrence of the old namespace as a label inside a DNS name is replaced, and
  nothing else changes, so in a resource of another kind, with or without dnsNames, nothing but that
  annotation. With the same namespace, or an empty old one, nothing changes at all.
\<close>

theorem cert_manager_references_follow:
  assumes "unstructured_laws U" and "rewriteCertManagerNamespace U a b u = Inr u'"
    and "settable (VMap u) [''metadata'', ''annotations'']"
  shows "if a = b \<or> a = [] then u' = u else
    annotations_of U u' =
      (case annotations_of U u ''cert-manager.io/inject-ca-from'' of
         None \<Rightarrow> annotations_of U u
       | Some v \<Rightarrow>
           (case CutPrefix v (a @ ''/'') of
              None \<Rightarrow> annotations_of U u
            | Some rest \<Rightarrow> (annotations_of U u)(''cert-manager.io/inject-ca-from'' \<mapsto> b @ ''/'' @ rest))) \<and>
    field (VMap u') [''spec'', ''dnsNames''] =
      (case field (VMap u) [''spec'', ''dnsNames''] of
         Some (VList names) \<Rightarrow>
           if u_GetKind U u = ''Certificate''
           then Some (VList (map (\<lambda>name. case name of
             VStr n \<Rightarrow> VStr (ReplaceAll n (''.'' @ a @ ''.'') (''.'' @ b @ ''.'')) | v \<Rightarrow> v) names))
           else Some (VList names)
       | unset \<Rightarrow> unset) \<and>
    (\<forall>q. apart [''metadata'', ''annotations''] q \<longrightarrow>
      u_GetKind U u \<noteq> ''Certificate'' \<or> apart [''spec'', ''dnsNames''] q \<longrightarrow>
      field (VMap u') q = field (VMap u) q)"
proof (cases "a = b \<or> a = []")
  case True
  with assms(2) show ?thesis by (auto simp: rewriteCertManagerNamespace_def)
next
  note lib = unstructured_lib.intro [OF assms(1)]
  let ?u1 = "rewriteInjectCA U a b u" and ?dns = "[''spec'', ''dnsNames'']"
  case False
  with assms(2) have c: "rewriteCertificate U a b ?u1 = Inr u'"
    by (simp add: rewriteCertManagerNamespace_def)
  have kind: "u_GetKind U ?u1 = u_GetKind U u" and dns: "field (VMap ?u1) ?dns = field (VMap u) ?dns"
    using unstructured_lib.inject_ca_fields [OF lib, of "[''kind'']" a b u]
      unstructured_lib.inject_ca_fields [OF lib, of ?dns a b u]
    by (simp_all add: unstructured_lib.kind_field [OF lib] str_field_def apart_def)
  have "annotations_of U u' = annotations_of U ?u1"
    using unstructured_lib.certificate_annotations [OF lib c] .
  moreover note unstructured_lib.inject_ca_annotations [OF lib assms(3), unfolded certManagerInjectCAAnnotation_def]
  moreover note unstructured_lib.certificate_dns [OF lib c, unfolded kind dns]
  moreover have "field (VMap u') q = field (VMap u) q" if "apart [''metadata'', ''annotations''] q"
    and "u_GetKind U u \<noteq> ''Certificate'' \<or> apart ?dns q" for q
    using that unstructured_lib.certificate_other [OF lib c] unstructured_lib.certificate_fields [OF lib c]
      unstructured_lib.inject_ca_fields [OF lib that(1)] kind by metis
  ultimately show ?thesis using False by simp
qed

definition test_certificate :: gmap where
  "test_certificate =
     [(''kind'', VStr ''Certificate''),
      (''metadata'', VMap [(''annotations'', VMap [(certManagerInjectCAAnnotation, VStr ''old/cert'')])]),
      (''spec'', VMap [(''dnsNames'', VList [VStr ''svc.old.svc'', VStr ''old.other''])])]"

theorem cert_manager_references_follow_witness:
  "\<exists>u'. rewriteCertManagerNamespace json_unstructured ''old'' ''new'' test_certificate = Inr u' \<and>
     annotations_of json_unstructured u' ''cert-manager.io/inject-ca-from'' = Some ''new/cert'' \<and>
     field (VMap u') [''spec'', ''dnsNames''] = Some (VList [VStr ''svc.new.svc'', VStr ''old.other''])"
proof -
  let ?run = "rewriteCertManagerNamespace json_unstructured ''old'' ''new'' test_certificate"
  have "case ?run of Inl e \<Rightarrow> False | Inr c' \<Rightarrow> True" by code_simp
  then obtain u' where run: "?run = Inr u'" by (auto split: sum.splits)
  have s: "settable (VMap test_certificate) [''metadata'', ''annotations'']" by code_simp
  have a: "annotations_of json_unstructured test_certificate ''cert-manager.io/inject-ca-from'' = Some ''old/cert''"
    by code_simp
  have n: "field (VMap test_certificate) [''spec'', ''dnsNames''] =
      Some (VList [VStr ''svc.old.svc'', VStr ''old.other''])"
    and k: "u_GetKind json_unstructured test_certificate = ''Certificate''"
    by (simp_all add: test_certificate_def json_unstructured_def str_field_def)
  have r: "ReplaceAll ''svc.old.svc'' ''.old.'' ''.new.'' = ''svc.new.svc''"
    "ReplaceAll ''old.other'' ''.old.'' ''.new.'' = ''old.other''"
    "CutPrefix ''old/cert'' ''old/'' = Some ''cert''"
    by code_simp+
  from cert_manager_references_follow [OF json_unstructured_laws run s] run show ?thesis
    by (simp add: a n k r del: field.simps ReplaceAll.simps)
qed

text \<open>
  The operand file is loaded completely or not at all: exactly its documents that are not
  empty, in order, once the decoder has reached the end of the file; a read error or a document
  that does not decode fails the loading, whatever was decoded before.
\<close>

theorem operand_file_loaded:
  assumes "p_fs p operandYAMLPath = found"
  shows "loadResources p =
    (case found of
       Inl e \<Rightarrow> Inl (Wrapped (''reading '' @ operandYAMLPath) e)
     | Inr data \<Rightarrow>
         (case snd (p_decoder p data) of
            Some e \<Rightarrow> Inl (Wrapped ''decoding YAML document'' e)
          | None \<Rightarrow> Inr (List.map_filter (\<lambda>d. d) (fst (p_decoder p data)))))"
  using assms by (auto simp: loadResources_def decode_documents split: sum.split prod.split option.split)

theorem operand_file_loaded_witness:
  "loadResources test_provider = Inr [test_deployment]"
  using operand_file_loaded [of test_provider "Inr []"]
  by (simp add: test_provider_def map_filter_simps)

end
