(* ===== verification/File_System.thy ===== *)
theory File_System
  imports Go_Prelude "HOL-Library.Word"
begin

unbundle bit_operations_syntax

text \<open>
  The part of package os the developer's tool uses (tools/source-update), over a file system of
  directories and regular files. A path is its list of components, so \<open>filepath.Join\<close> appends and
  \<open>filepath.Dir\<close> drops the last one. Every call may fail: the file system carries the answers the
  operating system will give, one per call. A call that fails may have done part of its work where
  package os says so: \<open>RemoveAll\<close> removes what it can, \<open>CopyFS\<close> and \<open>MkdirAll\<close> may stop halfway, and
  the paths that are left are part of the answer. Symbolic links are not modelled.
\<close>

type_synonym path = "string list"

datatype node = Directory | Regular go_bytes "9 word"

text \<open>A call works, with a random text for the calls that make up a name, or fails.\<close>

datatype answer = Works string | Fails string "path list"

record fsys =
  fs_nodes :: "(path \<times> node) list"
  fs_umask :: "9 word"
  fs_answers :: "answer list"

definition node_at :: "fsys \<Rightarrow> path \<Rightarrow> node option" where
  "node_at fs p = map_of (fs_nodes fs) p"

text \<open>What is at a path and below it.\<close>

definition tree :: "fsys \<Rightarrow> path \<Rightarrow> path \<Rightarrow> node option" where
  "tree fs p q = node_at fs (p @ q)"

definition next_answer :: "fsys \<Rightarrow> answer \<times> fsys" where
  "next_answer fs =
     (case fs_answers fs of
        [] \<Rightarrow> (Works [], fs)
      | a # as \<Rightarrow> (a, fs\<lparr>fs_answers := as\<rparr>))"

definition EIO :: "string \<Rightarrow> gerror" where "EIO msg = Foreign 5 msg None"
definition ENOENT :: gerror where "ENOENT = Foreign 2 ''no such file or directory'' None"
definition ErrNotExist :: gerror where "ErrNotExist = Foreign 2 ''file does not exist'' None"
definition EEXIST :: gerror where "EEXIST = Foreign 17 ''file exists'' None"
definition ENOTDIR :: gerror where "ENOTDIR = Foreign 20 ''not a directory'' None"
definition EISDIR :: gerror where "EISDIR = Foreign 21 ''is a directory'' None"
definition EINVAL :: gerror where "EINVAL = Foreign 22 ''invalid argument'' None"
definition ENOTEMPTY :: gerror where "ENOTEMPTY = Foreign 39 ''directory not empty'' None"

definition IsNotExist :: "gerror \<Rightarrow> bool" where
  "IsNotExist err = (case err of Foreign k m i \<Rightarrow> k = 2 | _ \<Rightarrow> False)"

definition filepath_Dir :: "path \<Rightarrow> path" where "filepath_Dir p = butlast p"
definition filepath_Base :: "path \<Rightarrow> string" where "filepath_Base p = last p"

text \<open>The text of a path on a Unix system.\<close>

definition path_text :: "path \<Rightarrow> string" where
  "path_text p = CHR ''/'' # Join p ''/''"

section \<open>The calls\<close>

definition isDirectory :: "fsys \<Rightarrow> path \<Rightarrow> bool" where
  "isDirectory fs p \<longleftrightarrow> node_at fs p = Some Directory"

definition set_node :: "path \<Rightarrow> node \<Rightarrow> fsys \<Rightarrow> fsys" where
  "set_node p n fs = fs\<lparr>fs_nodes := AList.update p n (fs_nodes fs)\<rparr>"

definition drop_nodes :: "(path \<Rightarrow> bool) \<Rightarrow> fsys \<Rightarrow> fsys" where
  "drop_nodes gone fs = fs\<lparr>fs_nodes := filter (\<lambda>(p, n). \<not> gone p) (fs_nodes fs)\<rparr>"

definition Lstat :: "path \<Rightarrow> fsys \<Rightarrow> node result \<times> fsys" where
  "Lstat p fs =
     (case next_answer fs of
        (Fails msg left, fs) \<Rightarrow> (Inl (EIO msg), fs)
      | (Works r, fs) \<Rightarrow>
          ((case node_at fs p of None \<Rightarrow> Inl ENOENT | Some n \<Rightarrow> Inr n), fs))"

fun makeDirs :: "path list \<Rightarrow> fsys \<Rightarrow> fsys" where
  "makeDirs [] fs = fs"
| "makeDirs (p # ps) fs = makeDirs ps (if node_at fs p = None then set_node p Directory fs else fs)"

definition MkdirAll :: "path \<Rightarrow> fsys \<Rightarrow> gerror option \<times> fsys" where
  "MkdirAll p fs =
     (case next_answer fs of
        (Fails msg left, fs) \<Rightarrow> (Some (EIO msg), makeDirs (filter (\<lambda>q. q \<in> set left) (prefixes p)) fs)
      | (Works r, fs) \<Rightarrow>
          if list_all (\<lambda>q. node_at fs q = None \<or> isDirectory fs q) (prefixes p)
          then (None, makeDirs (prefixes p) fs)
          else (Some ENOTDIR, fs))"

text \<open>\<open>MkdirTemp\<close> draws names until one is free, 10000 times at most.\<close>

function mkdirTempFrom :: "nat \<Rightarrow> path \<Rightarrow> string \<Rightarrow> fsys \<Rightarrow> path result \<times> fsys" where
  "mkdirTempFrom tries dir pattern fs =
     (case next_answer fs of
        (Fails msg left, fs) \<Rightarrow> (Inl (EIO msg), fs)
      | (Works r, fs) \<Rightarrow>
          if \<not> isDirectory fs dir then (Inl ENOENT, fs)
          else
            (let p = dir @ [pattern @ r] in
             if node_at fs p = None then (Inr p, set_node p Directory fs)
             else if tries + 1 < 10000 then mkdirTempFrom (tries + 1) dir pattern fs
             else (Inl EEXIST, fs)))"
  by pat_completeness auto
termination by (relation "measure (\<lambda>(tries, _). 10000 - tries)") auto

declare mkdirTempFrom.simps [simp del]

definition MkdirTemp :: "path \<Rightarrow> string \<Rightarrow> fsys \<Rightarrow> path result \<times> fsys" where
  "MkdirTemp dir pattern fs = mkdirTempFrom 0 dir pattern fs"

text \<open>
  A rename moves a whole tree and either happens or not. It replaces a file by a file; a directory
  as the new name is refused.
\<close>

definition moved :: "path \<Rightarrow> path \<Rightarrow> path \<Rightarrow> path" where
  "moved old new p = (if prefix old p then new @ drop (length old) p else p)"

definition move_nodes :: "path \<Rightarrow> path \<Rightarrow> fsys \<Rightarrow> fsys" where
  "move_nodes old new fs =
     fs\<lparr>fs_nodes := map (\<lambda>(p, n). (moved old new p, n))
       (filter (\<lambda>(p, n). \<not> prefix new p) (fs_nodes fs))\<rparr>"

definition Rename :: "path \<Rightarrow> path \<Rightarrow> fsys \<Rightarrow> gerror option \<times> fsys" where
  "Rename old new fs =
     (case next_answer fs of
        (Fails msg left, fs) \<Rightarrow> (Some (EIO msg), fs)
      | (Works r, fs) \<Rightarrow>
          (case node_at fs old of
             None \<Rightarrow> (Some ENOENT, fs)
           | Some n \<Rightarrow>
               if isDirectory fs new then (Some EEXIST, fs)
               else if old = new then (None, fs)
               else if prefix old new \<or> prefix new old then (Some EINVAL, fs)
               else if \<not> isDirectory fs (filepath_Dir new) then (Some ENOENT, fs)
               else if n = Directory \<and> node_at fs new \<noteq> None then (Some ENOTDIR, fs)
               else (None, move_nodes old new fs)))"

text \<open>Removing what does not exist is no error; a failure leaves some of the tree.\<close>

definition RemoveAll :: "path \<Rightarrow> fsys \<Rightarrow> gerror option \<times> fsys" where
  "RemoveAll p fs =
     (case next_answer fs of
        (Fails msg left, fs) \<Rightarrow> (Some (EIO msg), drop_nodes (\<lambda>q. prefix p q \<and> q \<notin> set left) fs)
      | (Works r, fs) \<Rightarrow> (None, drop_nodes (prefix p) fs))"

definition Remove :: "path \<Rightarrow> fsys \<Rightarrow> gerror option \<times> fsys" where
  "Remove p fs =
     (case next_answer fs of
        (Fails msg left, fs) \<Rightarrow> (Some (EIO msg), fs)
      | (Works r, fs) \<Rightarrow>
          if node_at fs p = None then (Some ENOENT, fs)
          else if list_ex (\<lambda>(q, n). strict_prefix p q) (fs_nodes fs) then (Some ENOTEMPTY, fs)
          else (None, drop_nodes (\<lambda>q. q = p) fs))"

definition ReadFile :: "path \<Rightarrow> fsys \<Rightarrow> go_bytes result \<times> fsys" where
  "ReadFile p fs =
     (case next_answer fs of
        (Fails msg left, fs) \<Rightarrow> (Inl (EIO msg), fs)
      | (Works r, fs) \<Rightarrow>
          ((case node_at fs p of
              None \<Rightarrow> Inl ENOENT
            | Some Directory \<Rightarrow> Inl EISDIR
            | Some (Regular data mode) \<Rightarrow> Inr data), fs))"

definition node_mode :: "node \<Rightarrow> 9 word" where
  "node_mode n = (case n of Directory \<Rightarrow> 0x1ED | Regular data mode \<Rightarrow> mode)"

text \<open>A file that exists keeps its mode and is truncated; a failed write may leave it empty.\<close>

definition WriteFile :: "path \<Rightarrow> go_bytes \<Rightarrow> 9 word \<Rightarrow> fsys \<Rightarrow> gerror option \<times> fsys" where
  "WriteFile p data perm fs =
     (case next_answer fs of
        (Fails msg left, fs) \<Rightarrow>
          (Some (EIO msg),
           if p \<in> set left \<and> node_at fs p \<noteq> Some Directory
           then set_node p (Regular [] (perm AND NOT (fs_umask fs))) fs else fs)
      | (Works r, fs) \<Rightarrow>
          (case node_at fs p of
             Some Directory \<Rightarrow> (Some EISDIR, fs)
           | Some (Regular old mode) \<Rightarrow> (None, set_node p (Regular data mode) fs)
           | None \<Rightarrow>
               if isDirectory fs (filepath_Dir p)
               then (None, set_node p (Regular data (perm AND NOT (fs_umask fs))) fs)
               else (Some ENOENT, fs)))"

text \<open>
  \<open>CopyFS\<close> creates every file anew, with the permissions 0666 and those of the file copied, less the
  umask; 0x1B6 is 0666 and 0x1ED is 0755.
\<close>

definition copied_node :: "9 word \<Rightarrow> node \<Rightarrow> node" where
  "copied_node umask n =
     (case n of
        Directory \<Rightarrow> Directory
      | Regular data mode \<Rightarrow> Regular data ((0x1B6 OR mode) AND NOT umask))"

definition copied_nodes :: "path \<Rightarrow> path \<Rightarrow> fsys \<Rightarrow> (path \<times> node) list" where
  "copied_nodes source target fs =
     map (\<lambda>(p, n). (target @ drop (length source) p, copied_node (fs_umask fs) n))
       (filter (\<lambda>(p, n). prefix source p) (fs_nodes fs))"

definition add_nodes :: "(path \<times> node) list \<Rightarrow> fsys \<Rightarrow> fsys" where
  "add_nodes pns fs = fs\<lparr>fs_nodes := pns @ fs_nodes fs\<rparr>"

definition CopyFS :: "path \<Rightarrow> path \<Rightarrow> fsys \<Rightarrow> gerror option \<times> fsys" where
  "CopyFS target source fs =
     (case next_answer fs of
        (Fails msg left, fs) \<Rightarrow>
          (Some (EIO msg),
           add_nodes (filter (\<lambda>(p, n). p \<in> set left \<and> node_at fs p = None) (copied_nodes source target fs)) fs)
      | (Works r, fs) \<Rightarrow>
          if \<not> isDirectory fs source then (Some ENOENT, fs)
          else if list_ex (\<lambda>(p, n). node_at fs p \<noteq> None \<and> \<not> (n = Directory \<and> isDirectory fs p))
                    (copied_nodes source target fs)
          then (Some EEXIST, fs)
          else if list_all (\<lambda>q. node_at fs q = None \<or> isDirectory fs q) (prefixes target)
          then (None, add_nodes (copied_nodes source target fs) (makeDirs (prefixes target) fs))
          else (Some ENOTDIR, fs))"

text \<open>
  Files written through a handle: \<open>CreateTemp\<close> draws names as \<open>MkdirTemp\<close> does, and a write that
  fails has written as many bytes as the answer has entries.
\<close>

function createTempFrom :: "nat \<Rightarrow> path \<Rightarrow> string \<Rightarrow> fsys \<Rightarrow> path result \<times> fsys" where
  "createTempFrom tries dir pattern fs =
     (case next_answer fs of
        (Fails msg left, fs) \<Rightarrow> (Inl (EIO msg), fs)
      | (Works r, fs) \<Rightarrow>
          if \<not> isDirectory fs dir then (Inl ENOENT, fs)
          else
            (let p = dir @ [pattern @ r] in
             if node_at fs p = None then (Inr p, set_node p (Regular [] (0x180 AND NOT (fs_umask fs))) fs)
             else if tries + 1 < 10000 then createTempFrom (tries + 1) dir pattern fs
             else (Inl EEXIST, fs)))"
  by pat_completeness auto
termination by (relation "measure (\<lambda>(tries, _). 10000 - tries)") auto

declare createTempFrom.simps [simp del]

definition CreateTemp :: "path \<Rightarrow> string \<Rightarrow> fsys \<Rightarrow> path result \<times> fsys" where
  "CreateTemp dir pattern fs = createTempFrom 0 dir pattern fs"

definition append_bytes :: "path \<Rightarrow> go_bytes \<Rightarrow> fsys \<Rightarrow> fsys" where
  "append_bytes p data fs =
     (case node_at fs p of
        Some (Regular old mode) \<Rightarrow> set_node p (Regular (old @ data) mode) fs
      | _ \<Rightarrow> fs)"

definition Write :: "path \<Rightarrow> go_bytes \<Rightarrow> fsys \<Rightarrow> gerror option \<times> fsys" where
  "Write p data fs =
     (case next_answer fs of
        (Fails msg left, fs) \<Rightarrow> (Some (EIO msg), append_bytes p (take (length left) data) fs)
      | (Works r, fs) \<Rightarrow> (None, append_bytes p data fs))"

definition Chmod :: "path \<Rightarrow> 9 word \<Rightarrow> fsys \<Rightarrow> gerror option \<times> fsys" where
  "Chmod p mode fs =
     (case next_answer fs of
        (Fails msg left, fs) \<Rightarrow> (Some (EIO msg), fs)
      | (Works r, fs) \<Rightarrow>
          (None, case node_at fs p of Some (Regular data old) \<Rightarrow> set_node p (Regular data mode) fs | _ \<Rightarrow> fs))"

definition Close :: "fsys \<Rightarrow> gerror option \<times> fsys" where
  "Close fs =
     (case next_answer fs of
        (Fails msg left, fs) \<Rightarrow> (Some (EIO msg), fs)
      | (Works r, fs) \<Rightarrow> (None, fs))"

text \<open>\<open>OpenFile\<close> with \<open>O_APPEND|O_WRONLY\<close>: the file must exist.\<close>

definition OpenAppend :: "path \<Rightarrow> fsys \<Rightarrow> gerror option \<times> fsys" where
  "OpenAppend p fs =
     (case next_answer fs of
        (Fails msg left, fs) \<Rightarrow> (Some (EIO msg), fs)
      | (Works r, fs) \<Rightarrow>
          ((case node_at fs p of None \<Rightarrow> Some ENOENT | Some Directory \<Rightarrow> Some EISDIR | Some (Regular d m) \<Rightarrow> None), fs))"

section \<open>What the calls change\<close>

lemma umask_kept [simp]:
  "fs_umask (set_node p n fs) = fs_umask fs"
  "fs_umask (drop_nodes gone fs) = fs_umask fs"
  "fs_umask (move_nodes old new fs) = fs_umask fs"
  "fs_umask (add_nodes pns fs) = fs_umask fs"
  "fs_umask (makeDirs ps fs) = fs_umask fs"
  by (simp_all add: set_node_def drop_nodes_def move_nodes_def add_nodes_def)
    (induction ps arbitrary: fs; simp add: set_node_def)

lemma next_answer_nodes [simp]:
  "next_answer fs = (a, fs') \<Longrightarrow> node_at fs' p = node_at fs p"
  "next_answer fs = (a, fs') \<Longrightarrow> fs_nodes fs' = fs_nodes fs"
  "next_answer fs = (a, fs') \<Longrightarrow> fs_umask fs' = fs_umask fs"
  by (auto simp: next_answer_def node_at_def split: list.splits)

lemma node_set [simp]:
  "node_at (set_node p n fs) q = (if q = p then Some n else node_at fs q)"
  by (simp add: set_node_def node_at_def)

lemma map_of_keys: "map_of (filter (\<lambda>(k, v). P k) xs) k = (if P k then map_of xs k else None)"
  by (induction xs) auto

lemma node_drop [simp]:
  "node_at (drop_nodes gone fs) p = (if gone p then None else node_at fs p)"
  by (simp add: drop_nodes_def node_at_def map_of_keys)

lemma moved_eq:
  assumes "old \<parallel> new" and "\<not> prefix new k"
  shows "moved old new k = p \<longleftrightarrow>
    (if prefix new p then k = old @ drop (length new) p else k = p \<and> \<not> prefix old p)"
  using assms by (auto simp: moved_def prefix_def parallel_def)

lemma node_move:
  assumes "old \<parallel> new"
  shows "node_at (move_nodes old new fs) p =
    (if prefix new p then node_at fs (old @ drop (length new) p)
     else if prefix old p then None else node_at fs p)"
proof -
  have "map_of (map (\<lambda>(p, n). (moved old new p, n)) (filter (\<lambda>(p, n). \<not> prefix new p) xs)) p =
      (if prefix new p then map_of xs (old @ drop (length new) p)
       else if prefix old p then None else map_of xs p)" for xs
  proof (induction xs)
    case (Cons x xs)
    obtain k n where x: "x = (k, n)" by fastforce
    have apart: "\<not> prefix new (old @ r)" for r
      using assms by (metis parallel_def prefixI prefix_same_cases)
    show ?case
    proof (cases "prefix new k")
      case True
      with apart have "k \<noteq> old @ drop (length new) p" by metis
      with True Cons x show ?thesis by (cases "prefix new p") auto
    next
      case False
      note at = moved_eq [OF assms this, of p]
      show ?thesis
      proof (cases "moved old new k = p")
        case True
        with at have "if prefix new p then k = old @ drop (length new) p else k = p \<and> \<not> prefix old p" by simp
        with True False x show ?thesis by (auto split: if_splits)
      next
        case other: False
        with at have "\<not> (if prefix new p then k = old @ drop (length new) p else k = p \<and> \<not> prefix old p)"
          by simp
        with other False x Cons show ?thesis by (auto split: if_splits)
      qed
    qed
  qed simp
  from this [of "fs_nodes fs"] show ?thesis unfolding move_nodes_def node_at_def by simp
qed

lemma node_add: "node_at (add_nodes pns fs) p = (case map_of pns p of None \<Rightarrow> node_at fs p | Some n \<Rightarrow> Some n)"
  by (simp add: add_nodes_def node_at_def map_add_def split: option.split)

lemma copied_lookup:
  "map_of (copied_nodes source target fs) p =
     (if prefix target p then map_option (copied_node (fs_umask fs)) (node_at fs (source @ drop (length target) p))
      else None)"
proof -
  have "map_of (map (\<lambda>(p, n). (target @ drop (length source) p, f n)) (filter (\<lambda>(p, n). prefix source p) xs)) p =
     (if prefix target p then map_option f (map_of xs (source @ drop (length target) p)) else None)"
    for xs and f :: "node \<Rightarrow> node"
    by (induction xs) (auto simp: prefix_def)
  then show ?thesis by (simp add: copied_nodes_def node_at_def)
qed

lemma make_dirs:
  "node_at (makeDirs ps fs) p = (if node_at fs p = None \<and> p \<in> set ps then Some Directory else node_at fs p)"
  by (induction ps arbitrary: fs) auto

text \<open>
  A call changes nothing outside the trees it works on; a tree at a path apart from them is the
  same afterwards.
\<close>

definition changes_below :: "path set \<Rightarrow> fsys \<Rightarrow> fsys \<Rightarrow> bool" where
  "changes_below T fs fs' \<longleftrightarrow> (\<forall>p. (\<forall>t \<in> T. \<not> prefix t p) \<longrightarrow> node_at fs' p = node_at fs p)"

lemma changes_below_refl [simp]: "changes_below T fs fs"
  by (simp add: changes_below_def)

lemma changes_below_same: "node_at fs' = node_at fs \<Longrightarrow> changes_below T fs fs'"
  by (simp add: changes_below_def)

lemma changes_below_trans:
  "changes_below T fs fs' \<Longrightarrow> changes_below T' fs' fs'' \<Longrightarrow> changes_below (T \<union> T') fs fs''"
  by (simp add: changes_below_def)

lemma changes_below_mono: "changes_below T fs fs' \<Longrightarrow> T \<subseteq> T' \<Longrightarrow> changes_below T' fs fs'"
  by (auto simp: changes_below_def)

text \<open>Changes in a tree of \<open>T\<close> or below one of its trees.\<close>

lemma changes_below_narrow:
  "changes_below T fs fs' \<Longrightarrow> (\<And>t. t \<in> T \<Longrightarrow> \<exists>t' \<in> T'. prefix t' t) \<Longrightarrow> changes_below T' fs fs'"
  unfolding changes_below_def by (meson prefix_order.trans)

lemma prefix_apart: "t \<parallel> p \<Longrightarrow> \<not> prefix t (p @ q)"
  by (metis parallel_def prefixI prefix_same_cases)

lemma tree_unchanged:
  assumes "changes_below T fs fs'" and "\<And>t. t \<in> T \<Longrightarrow> t \<parallel> p"
  shows "tree fs' p = tree fs p"
proof
  fix q
  show "tree fs' p q = tree fs p q"
    using assms prefix_apart unfolding changes_below_def tree_def by blast
qed

lemma tree_same: "node_at fs' = node_at fs \<Longrightarrow> tree fs' = tree fs"
  by (simp add: tree_def fun_eq_iff)

definition no_tree :: "path \<Rightarrow> node option" where
  "no_tree = (\<lambda>q. None)"

text \<open>Every node lies in a directory of the file system.\<close>

definition rooted :: "fsys \<Rightarrow> bool" where
  "rooted fs \<longleftrightarrow> (\<forall>p q. node_at fs p = None \<longrightarrow> node_at fs (p @ q) = None)"

lemma rooted_no_tree: "rooted fs \<Longrightarrow> node_at fs p = None \<longleftrightarrow> tree fs p = no_tree"
  by (auto simp: rooted_def tree_def no_tree_def fun_eq_iff dest: spec [of _ "[]"])

lemma Lstat_result:
  assumes "Lstat p fs = (r, fs')"
  shows "node_at fs' = node_at fs" and "fs_umask fs' = fs_umask fs"
    and "r = Inr n \<Longrightarrow> node_at fs p = Some n"
    and "r = Inl e \<Longrightarrow> IsNotExist e \<Longrightarrow> node_at fs p = None"
  using assms
  by (auto simp: Lstat_def EIO_def IsNotExist_def fun_eq_iff
      split: prod.splits answer.splits option.splits)

lemma RemoveAll_result:
  assumes "RemoveAll p fs = (r, fs')"
  shows "changes_below {p} fs fs'" and "fs_umask fs' = fs_umask fs"
    and "r = None \<Longrightarrow> tree fs' p = no_tree"
  using assms
  by (auto simp: RemoveAll_def changes_below_def tree_def no_tree_def fun_eq_iff
      split: prod.splits answer.splits)

lemma Rename_result:
  assumes "old \<parallel> new" and "Rename old new fs = (r, fs')"
  shows "changes_below {old, new} fs fs'" and "fs_umask fs' = fs_umask fs"
    and "r = None \<Longrightarrow> tree fs' new = tree fs old"
    and "r = Some e \<Longrightarrow> node_at fs' = node_at fs"
proof -
  obtain a fs1 where answer: "next_answer fs = (a, fs1)" by fastforce
  then have same: "node_at fs1 = node_at fs" and umask: "fs_umask fs1 = fs_umask fs" by auto
  have "old \<noteq> new" using assms(1) by auto
  have ends: "r \<noteq> None \<and> fs' = fs1 \<or> r = None \<and> fs' = move_nodes old new fs1"
    using assms(2) answer \<open>old \<noteq> new\<close>
    by (auto simp: Rename_def split: answer.splits option.splits if_splits)
  then show "changes_below {old, new} fs fs'"
    by (auto simp: changes_below_def same node_move [OF assms(1)])
  show "fs_umask fs' = fs_umask fs" using ends umask by auto
  show "tree fs' new = tree fs old" if "r = None"
    using ends that by (auto simp: tree_def fun_eq_iff same node_move [OF assms(1)])
  show "node_at fs' = node_at fs" if "r = Some e"
    using ends that same by simp
qed

text \<open>\<open>MkdirAll\<close> and \<open>MkdirTemp\<close> only add directories.\<close>

lemma MkdirAll_result:
  assumes "MkdirAll p fs = (r, fs')"
  shows "fs_umask fs' = fs_umask fs"
    and "node_at fs' q = node_at fs q \<or> node_at fs q = None \<and> node_at fs' q = Some Directory \<and> prefix q p"
  using assms
  by (auto simp: MkdirAll_def make_dirs split: prod.splits answer.splits if_splits)

lemma mkdir_temp_from:
  "mkdirTempFrom tries dir pattern fs = (r, fs') \<Longrightarrow>
     fs_umask fs' = fs_umask fs \<and>
     (case r of
        Inl e \<Rightarrow> node_at fs' = node_at fs
      | Inr p \<Rightarrow> (\<exists>name. p = dir @ [pattern @ name]) \<and> node_at fs p = None \<and>
          node_at fs' = (node_at fs)(p \<mapsto> Directory) \<and> isDirectory fs dir)"
proof (induction tries dir pattern fs rule: mkdirTempFrom.induct)
  case (1 tries dir pattern fs)
  obtain a fs1 where answer: "next_answer fs = (a, fs1)" by fastforce
  then have same: "node_at fs1 = node_at fs" "fs_umask fs1 = fs_umask fs" by auto
  show ?case
  proof (cases a)
    case (Fails msg left)
    with "1.prems" answer same show ?thesis by (auto simp: mkdirTempFrom.simps [of tries])
  next
    case (Works name)
    note IH = "1.IH" [OF answer [symmetric] Works]
    show ?thesis
      using "1.prems" answer same Works IH
      by (auto simp: mkdirTempFrom.simps [of tries] Let_def fun_eq_iff isDirectory_def split: if_splits sum.splits)
  qed
qed

lemma MkdirTemp_result:
  assumes "MkdirTemp dir pattern fs = (r, fs')"
  shows "fs_umask fs' = fs_umask fs"
    and "r = Inl e \<Longrightarrow> node_at fs' = node_at fs"
    and "r = Inr p \<Longrightarrow> \<exists>name. p = dir @ [pattern @ name]"
    and "r = Inr p \<Longrightarrow> node_at fs p = None"
    and "r = Inr p \<Longrightarrow> node_at fs' = (node_at fs)(p \<mapsto> Directory)"
    and "r = Inr p \<Longrightarrow> isDirectory fs dir"
  using mkdir_temp_from [OF assms [unfolded MkdirTemp_def]] by auto

text \<open>Copies and writes.\<close>

lemma CopyFS_result:
  assumes "CopyFS target source fs = (r, fs')"
  shows "fs_umask fs' = fs_umask fs"
    and "\<not> prefix target p \<Longrightarrow> node_at fs' p = node_at fs p \<or>
      node_at fs p = None \<and> node_at fs' p = Some Directory \<and> prefix p target"
    and "r = None \<Longrightarrow> tree fs target = no_tree \<Longrightarrow>
      tree fs' target = (\<lambda>q. map_option (copied_node (fs_umask fs)) (tree fs source q))"
proof -
  obtain a fs1 where answer: "next_answer fs = (a, fs1)" by fastforce
  then have same: "node_at fs1 = node_at fs" and umask: "fs_umask fs1 = fs_umask fs" by auto
  let ?copy = "copied_nodes source target fs1"
  have ends: "r \<noteq> None \<and> fs' = fs1 \<or>
      (\<exists>left. r \<noteq> None \<and> fs' = add_nodes (filter (\<lambda>(p, n). p \<in> set left \<and> node_at fs1 p = None) ?copy) fs1) \<or>
      r = None \<and> node_at fs source = Some Directory \<and> fs' = add_nodes ?copy (makeDirs (prefixes target) fs1)"
    using assms answer same
    by (auto simp: CopyFS_def isDirectory_def split: answer.splits if_splits)
  then show "fs_umask fs' = fs_umask fs" using umask by auto
  have partial: "map_of (filter (\<lambda>(p, n). p \<in> A \<and> P p) ?copy) p = (if p \<in> A \<and> P p then map_of ?copy p else None)"
    for A P by (rule map_of_keys)
  show "node_at fs' p = node_at fs p \<or> node_at fs p = None \<and> node_at fs' p = Some Directory \<and> prefix p target"
    if "\<not> prefix target p"
    using ends that by (auto simp: node_add partial copied_lookup make_dirs same split: option.splits if_splits)
  show "tree fs' target = (\<lambda>q. map_option (copied_node (fs_umask fs)) (tree fs source q))"
    if "r = None" and "tree fs target = no_tree"
  proof
    fix q
    have fs': "fs' = add_nodes ?copy (makeDirs (prefixes target) fs1)"
      and source: "node_at fs source = Some Directory" using ends that(1) by auto
    have "node_at fs (target @ q) = None" using fun_cong [OF that(2), of q] by (simp add: tree_def no_tree_def)
    moreover have "q = []" if "prefix (target @ q) target" using that by (auto simp: prefix_def)
    ultimately show "tree fs' target q = map_option (copied_node (fs_umask fs)) (tree fs source q)"
      using source
      by (cases "q = []")
        (auto simp: tree_def fs' node_add copied_lookup make_dirs same umask copied_node_def split: option.split)
  qed
qed

lemma ReadFile_result:
  assumes "ReadFile p fs = (r, fs')"
  shows "node_at fs' = node_at fs" and "fs_umask fs' = fs_umask fs"
    and "r = Inr data \<Longrightarrow> \<exists>mode. node_at fs p = Some (Regular data mode)"
    and "r = Inl e \<Longrightarrow> IsNotExist e \<Longrightarrow> node_at fs p = None"
  using assms
  by (auto simp: ReadFile_def EIO_def EISDIR_def IsNotExist_def fun_eq_iff
      split: prod.splits answer.splits option.splits node.splits)

lemma WriteFile_writes:
  "WriteFile p data perm fs = (None, fs') \<Longrightarrow> \<exists>mode. node_at fs' p = Some (Regular data mode)"
  by (auto simp: WriteFile_def split: prod.splits answer.splits option.splits node.splits if_splits)

lemma WriteFile_result:
  assumes "WriteFile p data perm fs = (r, fs')"
  shows "fs_umask fs' = fs_umask fs" and "q \<noteq> p \<Longrightarrow> node_at fs' q = node_at fs q"
    and "r = None \<Longrightarrow> node_at fs p = None \<Longrightarrow>
      node_at fs' p = Some (Regular data (perm AND NOT (fs_umask fs)))"
  using assms
  by (auto simp: WriteFile_def split: prod.splits answer.splits option.splits node.splits if_splits)

text \<open>The calls on handles.\<close>

lemma create_temp_from:
  "createTempFrom tries dir pattern fs = (r, fs') \<Longrightarrow>
     fs_umask fs' = fs_umask fs \<and>
     (case r of
        Inl e \<Rightarrow> node_at fs' = node_at fs
      | Inr p \<Rightarrow> (\<exists>name. p = dir @ [pattern @ name]) \<and> node_at fs p = None \<and>
          node_at fs' = (node_at fs)(p \<mapsto> Regular [] (0x180 AND NOT (fs_umask fs))))"
proof (induction tries dir pattern fs rule: createTempFrom.induct)
  case (1 tries dir pattern fs)
  obtain a fs1 where answer: "next_answer fs = (a, fs1)" by fastforce
  then have same: "node_at fs1 = node_at fs" "fs_umask fs1 = fs_umask fs" by auto
  show ?case
  proof (cases a)
    case (Fails msg left)
    with "1.prems" answer same show ?thesis by (auto simp: createTempFrom.simps [of tries])
  next
    case (Works name)
    note IH = "1.IH" [OF answer [symmetric] Works]
    show ?thesis
      using "1.prems" answer same Works IH
      by (auto simp: createTempFrom.simps [of tries] Let_def fun_eq_iff split: if_splits sum.splits)
  qed
qed

lemma CreateTemp_result:
  assumes "CreateTemp dir pattern fs = (r, fs')"
  shows "fs_umask fs' = fs_umask fs"
    and "r = Inl e \<Longrightarrow> node_at fs' = node_at fs"
    and "r = Inr p \<Longrightarrow> \<exists>name. p = dir @ [pattern @ name]"
    and "r = Inr p \<Longrightarrow> node_at fs p = None"
    and "r = Inr p \<Longrightarrow> node_at fs' = (node_at fs)(p \<mapsto> Regular [] (0x180 AND NOT (fs_umask fs)))"
  using create_temp_from [OF assms [unfolded CreateTemp_def]] by auto

lemma handle_results:
  assumes "node_at fs p = Some (Regular old m)"
  shows "Write p data fs = (r, fs') \<Longrightarrow> fs_umask fs' = fs_umask fs \<and>
      (\<exists>written. node_at fs' = (node_at fs)(p \<mapsto> Regular (old @ written) m) \<and> (r = None \<longrightarrow> written = data))"
    and "Chmod p mode fs = (r, fs') \<Longrightarrow> fs_umask fs' = fs_umask fs \<and>
      (\<exists>m'. node_at fs' = (node_at fs)(p \<mapsto> Regular old m') \<and> (r = None \<longrightarrow> m' = mode))"
  using assms
  by (auto simp: Write_def Chmod_def append_bytes_def fun_eq_iff fun_upd_def
      split: prod.splits answer.splits)

lemma Close_result:
  "Close fs = (r, fs') \<Longrightarrow> node_at fs' = node_at fs \<and> fs_umask fs' = fs_umask fs"
  by (auto simp: Close_def fun_eq_iff split: prod.splits answer.splits)

lemma OpenAppend_result:
  "OpenAppend p fs = (r, fs') \<Longrightarrow> node_at fs' = node_at fs \<and> fs_umask fs' = fs_umask fs"
  by (auto simp: OpenAppend_def fun_eq_iff split: prod.splits answer.splits)

lemma Remove_result:
  assumes "Remove p fs = (r, fs')"
  shows "fs_umask fs' = fs_umask fs" and "q \<noteq> p \<Longrightarrow> node_at fs' q = node_at fs q"
    and "r = None \<Longrightarrow> node_at fs' p = None"
    and "r = Some e \<Longrightarrow> node_at fs' p = node_at fs p"
    and "r = Some e \<Longrightarrow> IsNotExist e \<Longrightarrow> node_at fs p = None"
  using assms
  by (auto simp: Remove_def EIO_def ENOTEMPTY_def IsNotExist_def split: prod.splits answer.splits if_splits)

section \<open>Calls that keep the file system rooted\<close>

lemma rooted_same: "node_at fs' = node_at fs \<Longrightarrow> rooted fs \<Longrightarrow> rooted fs'"
  by (simp add: rooted_def)

lemma rooted_new:
  assumes "rooted fs" and "node_at fs (filepath_Dir p) \<noteq> None" and "node_at fs' = (node_at fs)(p \<mapsto> n)"
  shows "rooted fs'"
  unfolding rooted_def
proof (intro allI impI)
  fix a q assume none: "node_at fs' a = None"
  then have a: "a \<noteq> p" "node_at fs a = None" using assms(3) by (auto split: if_splits)
  have "a @ q \<noteq> p"
  proof
    assume p: "a @ q = p"
    with a(1) have "q \<noteq> []" by auto
    with p have "filepath_Dir p = a @ butlast q" by (auto simp: filepath_Dir_def butlast_append)
    with assms(1,2) a(2) show False by (simp add: rooted_def)
  qed
  with a assms(1,3) show "node_at fs' (a @ q) = None" by (simp add: rooted_def)
qed

lemma MkdirTemp_rooted: "MkdirTemp dir pattern fs = (Inr p, fs') \<Longrightarrow> rooted fs \<Longrightarrow> rooted fs'"
  using MkdirTemp_result(3,5,6) [of dir pattern fs "Inr p" fs' p]
  by (auto intro!: rooted_new [of fs p] simp: filepath_Dir_def isDirectory_def)

lemma MkdirAll_rooted:
  assumes "MkdirAll p fs = (None, fs')" and "rooted fs"
  shows "rooted fs'"
proof -
  have "node_at fs' q = (if node_at fs q = None \<and> prefix q p then Some Directory else node_at fs q)" for q
    using assms(1) by (auto simp: MkdirAll_def make_dirs split: prod.splits answer.splits if_splits)
  with assms(2) show ?thesis unfolding rooted_def by (auto dest: append_prefixD split: if_splits)
qed

lemma rooted_set:
  assumes "rooted fs" and "node_at fs p \<noteq> None" and "node_at fs' = (node_at fs)(p \<mapsto> n)"
  shows "rooted fs'"
proof -
  have "node_at fs (filepath_Dir p) \<noteq> None"
  proof (cases p rule: rev_cases)
    case (snoc xs x)
    with assms(1,2) show ?thesis by (auto simp: filepath_Dir_def rooted_def)
  qed (use assms(2) in \<open>simp add: filepath_Dir_def\<close>)
  from rooted_new [OF assms(1) this assms(3)] show ?thesis .
qed

lemma WriteFile_rooted:
  assumes "WriteFile p data perm fs = (None, fs')" and "rooted fs"
  shows "rooted fs'"
proof -
  have "\<exists>n. node_at fs' = (node_at fs)(p \<mapsto> n) \<and> (node_at fs p \<noteq> None \<or> node_at fs (filepath_Dir p) \<noteq> None)"
    using assms(1)
    by (auto simp: WriteFile_def isDirectory_def fun_eq_iff fun_upd_def
        split: prod.splits answer.splits option.splits node.splits if_splits)
  with assms(2) rooted_set rooted_new show ?thesis by blast
qed

lemma CopyFS_rooted:
  assumes "CopyFS target source fs = (None, fs')" and "rooted fs"
  shows "rooted fs'"
proof -
  have at: "node_at fs' p = (case if prefix target p
        then map_option (copied_node (fs_umask fs)) (node_at fs (source @ drop (length target) p)) else None of
      None \<Rightarrow> (if node_at fs p = None \<and> prefix p target then Some Directory else node_at fs p) | Some n \<Rightarrow> Some n)" for p
    using assms(1)
    by (auto simp: CopyFS_def node_add copied_lookup make_dirs split: prod.splits answer.splits option.splits if_splits)
  show ?thesis
    unfolding rooted_def
  proof (intro allI impI)
    fix a q assume none: "node_at fs' a = None"
    then have a: "node_at fs a = None" "\<not> prefix a target" by (auto simp: at split: option.splits if_splits)
    then have aq: "node_at fs (a @ q) = None" "\<not> prefix (a @ q) target"
      using assms(2) by (auto simp: rooted_def dest: append_prefixD)
    have "prefix target (a @ q) \<Longrightarrow> prefix target a" using a(2) by (metis prefixI prefix_same_cases)
    moreover have "node_at fs (source @ drop (length target) (a @ q)) = None" if "prefix target a"
    proof -
      have "node_at fs (source @ drop (length target) a) = None" using none that by (auto simp: at split: option.splits)
      moreover have "drop (length target) (a @ q) = drop (length target) a @ q" using that by (auto simp: prefix_def)
      ultimately show ?thesis using assms(2) by (metis append.assoc rooted_def)
    qed
    ultimately show "node_at fs' (a @ q) = None" using aq by (simp add: at)
  qed
qed

end
