(* ===== verification/Image_Pin.thy ===== *)
theory Image_Pin
  imports File_System Go_JSON
begin

text \<open>
  The image pin of tools/source-update/image.go and fullSHA of source.go: which commits and image
  references are accepted, and reading and writing the record that pins them. The parser of a JSON
  stream is a parameter: the next value of a text and what follows it.
\<close>

definition imageRepositoryPath :: string where
  "imageRepositoryPath = ''opendatahub/odh-mcp-lifecycle-operator''"

definition imageRepository :: string where
  "imageRepository = ''quay.io/'' @ imageRepositoryPath"

definition maxRegistryResponse :: nat where
  "maxRegistryResponse = 8388608"

section \<open>Commits and digests\<close>

definition lower_hex :: "char \<Rightarrow> bool" where
  "lower_hex c \<longleftrightarrow> is_digit c \<or> 97 \<le> (of_char c :: nat) \<and> (of_char c :: nat) \<le> 102"

definition any_hex :: "char \<Rightarrow> bool" where
  "any_hex c \<longleftrightarrow> lower_hex c \<or> 65 \<le> (of_char c :: nat) \<and> (of_char c :: nat) \<le> 70"

text \<open>\<open>hex.DecodeString\<close> fails on an odd length or a byte that is no hexadecimal digit.\<close>

definition hex_decodes :: "string \<Rightarrow> bool" where
  "hex_decodes s \<longleftrightarrow> even (length s) \<and> list_all any_hex s"

definition fullSHA :: "string \<Rightarrow> bool" where
  "fullSHA s = (if length s \<noteq> 40 \<and> length s \<noteq> 64 then False else hex_decodes s)"

text \<open>The regular expression \<open>^sha256:[0-9a-f]{64}$\<close>.\<close>

definition digestPattern :: "string \<Rightarrow> bool" where
  "digestPattern s \<longleftrightarrow>
     (case CutPrefix s ''sha256:'' of None \<Rightarrow> False | Some hex \<Rightarrow> length hex = 64 \<and> list_all lower_hex hex)"

definition validImageReference :: "string \<Rightarrow> bool" where
  "validImageReference ref \<longleftrightarrow>
     (case Cut ref ''@'' of
        None \<Rightarrow> False
      | Some (repository, digest) \<Rightarrow> repository = imageRepository \<and> digestPattern digest)"

record imagePinRecord =
  SourceCommit :: string
  PinImage :: string

definition validateImagePin :: "imagePinRecord \<Rightarrow> gerror option" where
  "validateImagePin record =
     (if \<not> fullSHA (SourceCommit record) then
        Some (Message (''invalid operand image pin source commit '' @ Quote (SourceCommit record) @
          ''; expected full commit SHA''))
      else if \<not> validImageReference (PinImage record) then
        Some (Message (''invalid pinned operand image '' @ Quote (PinImage record) @ ''; expected '' @
          imageRepository @ ''@sha256:<64 lowercase hex>''))
      else None)"

section \<open>The record on disk\<close>

datatype json_read = JValue gval go_bytes | JEnd | JBad gerror

definition io_EOF :: gerror where "io_EOF = Message ''EOF''"

definition readBoundedFile :: "path \<Rightarrow> nat \<Rightarrow> fsys \<Rightarrow> go_bytes result \<times> fsys" where
  "readBoundedFile filename limit fs =
     (case ReadFile filename fs of
        (Inl err, fs) \<Rightarrow> (Inl err, fs)
      | (Inr content, fs) \<Rightarrow>
          (let data = take (limit + 1) content
           in if length data > limit
              then (Inl (Message (''file exceeds '' @ Itoa (int limit) @ '' bytes'')), fs)
              else (Inr data, fs)))"

definition decode_pin :: "string \<Rightarrow> gval \<Rightarrow> imagePinRecord \<Rightarrow> imagePinRecord result" where
  "decode_pin k v r =
     (if json_key k ''sourceCommit'' then into (decode_string v (SourceCommit r)) (\<lambda>s. r\<lparr>SourceCommit := s\<rparr>)
      else if json_key k ''image'' then into (decode_string v (PinImage r)) (\<lambda>s. r\<lparr>PinImage := s\<rparr>)
      else Inl (Message (''json: unknown field '' @ Quote k)))"

definition ensureJSONEOF :: "(go_bytes \<Rightarrow> json_read) \<Rightarrow> go_bytes \<Rightarrow> gerror option" where
  "ensureJSONEOF json_next rest =
     (case json_next rest of
        JEnd \<Rightarrow> None
      | JValue extra rest' \<Rightarrow> Some (Message ''unexpected data after JSON record'')
      | JBad err \<Rightarrow> Some err)"

definition readImagePin :: "(go_bytes \<Rightarrow> json_read) \<Rightarrow> path \<Rightarrow> fsys \<Rightarrow> imagePinRecord result \<times> fsys" where
  "readImagePin json_next filename fs =
     (case readBoundedFile filename maxRegistryResponse fs of
        (Inl err, fs) \<Rightarrow> (Inl (Wrapped ''read operand image pin'' err), fs)
      | (Inr data, fs) \<Rightarrow>
          ((case json_next data of
              JEnd \<Rightarrow> Inl (Wrapped ''decode operand image pin'' io_EOF)
            | JBad err \<Rightarrow> Inl (Wrapped ''decode operand image pin'' err)
            | JValue v rest \<Rightarrow>
                (case decode_struct decode_pin v \<lparr>SourceCommit = [], PinImage = []\<rparr> of
                   Inl err \<Rightarrow> Inl (Wrapped ''decode operand image pin'' err)
                 | Inr record \<Rightarrow>
                     (case ensureJSONEOF json_next rest of
                        Some err \<Rightarrow> Inl (Wrapped ''decode operand image pin'' err)
                      | None \<Rightarrow>
                          (case validateImagePin record of
                             Some err \<Rightarrow> Inl err
                           | None \<Rightarrow> Inr record)))), fs))"

text \<open>
  The string literals of encoding/json, on ASCII: quotes, backslashes and control characters are
  escaped, and also the characters that mean something in HTML.
\<close>

definition json_char :: "char \<Rightarrow> string" where
  "json_char c =
     (let n = (of_char c :: nat) in
      if c = CHR 0x22 \<or> c = CHR 0x5C then [CHR 0x5C, c]
      else if n = 8 then CHR 0x5C # ''b'' else if n = 12 then CHR 0x5C # ''f''
      else if n = 10 then CHR 0x5C # ''n'' else if n = 13 then CHR 0x5C # ''r''
      else if n = 9 then CHR 0x5C # ''t''
      else if n < 32 \<or> c \<in> {CHR ''<'', CHR ''>'', CHR ''&''}
        then CHR 0x5C # ''u00'' @ [hex_char (n div 16), hex_char (n mod 16)]
      else [c])"

definition json_literal :: "string \<Rightarrow> string" where
  "json_literal s = CHR 0x22 # concat (map json_char s) @ [CHR 0x22]"

text \<open>\<open>json.MarshalIndent\<close> of the record with an indent of two spaces.\<close>

definition marshalPin :: "imagePinRecord \<Rightarrow> go_bytes" where
  "marshalPin record =
     ''{'' @ [CHR 0x0A] @
     ''  '' @ json_literal ''sourceCommit'' @ '': '' @ json_literal (SourceCommit record) @ '','' @ [CHR 0x0A] @
     ''  '' @ json_literal ''image'' @ '': '' @ json_literal (PinImage record) @ [CHR 0x0A] @ ''}''"

definition writeImagePin :: "path \<Rightarrow> imagePinRecord \<Rightarrow> fsys \<Rightarrow> gerror option \<times> fsys" where
  "writeImagePin filename record fs =
     (case validateImagePin record of
        Some err \<Rightarrow> (Some err, fs)
      | None \<Rightarrow> WriteFile filename (marshalPin record @ [CHR 0x0A]) 0x1A4 fs)"

section \<open>What is accepted\<close>

lemma digest_pattern: "digestPattern s \<longleftrightarrow> (\<exists>hex. s = ''sha256:'' @ hex \<and> length hex = 64 \<and> list_all lower_hex hex)"
  by (auto simp: digestPattern_def CutPrefix_Some_iff split: option.splits)
    (metis CutPrefix_append append_Cons append_Nil option.distinct(1))

lemma repository_plain: "CHR ''@'' \<notin> set imageRepository"
  by (simp add: imageRepository_def imageRepositoryPath_def)

lemma valid_reference:
  "validImageReference ref \<longleftrightarrow> (\<exists>digest. ref = imageRepository @ ''@'' @ digest \<and> digestPattern digest)"
proof
  assume "validImageReference ref"
  then obtain repository digest where "Cut ref ''@'' = Some (repository, digest)"
    and "repository = imageRepository" "digestPattern digest"
    by (auto simp: validImageReference_def split: option.splits)
  with Cut_split show "\<exists>digest. ref = imageRepository @ ''@'' @ digest \<and> digestPattern digest" by blast
next
  assume "\<exists>digest. ref = imageRepository @ ''@'' @ digest \<and> digestPattern digest"
  then show "validImageReference ref"
    using Cut_char [OF repository_plain] by (auto simp: validImageReference_def)
qed

lemma validate_pin_None:
  "validateImagePin record = None \<longleftrightarrow> fullSHA (SourceCommit record) \<and> validImageReference (PinImage record)"
  by (simp add: validateImagePin_def)

lemma read_pin_valid:
  "readImagePin json_next filename fs = (Inr record, fs') \<Longrightarrow>
     fullSHA (SourceCommit record) \<and> validImageReference (PinImage record)"
  by (auto simp: readImagePin_def validate_pin_None
      split: prod.splits sum.splits json_read.splits option.splits)

section \<open>Properties\<close>

lemma json_literal_length: "length (json_literal s) \<le> 6 * length s + 2"
proof -
  have "length (json_char c) \<le> 6" for c by (simp add: json_char_def Let_def)
  then have "length (concat (map json_char s)) \<le> 6 * length s"
    by (induction s) (auto intro: add_mono)
  then show ?thesis by (simp add: json_literal_def)
qed

lemma valid_pin_short:
  assumes "validateImagePin record = None"
  shows "length (marshalPin record @ [CHR 0x0A]) \<le> maxRegistryResponse"
proof -
  have "fullSHA (SourceCommit record)" and "validImageReference (PinImage record)"
    using assms by (simp_all add: validate_pin_None)
  then have "length (SourceCommit record) \<le> 64" and "length (PinImage record) \<le> 130"
    by (auto simp: fullSHA_def valid_reference digest_pattern imageRepository_def imageRepositoryPath_def
        split: if_splits)
  then show ?thesis
    using json_literal_length [of "SourceCommit record"] json_literal_length [of "PinImage record"]
      json_literal_length [of "''sourceCommit''"] json_literal_length [of "''image''"]
    by (simp add: marshalPin_def maxRegistryResponse_def)
qed

text \<open>What the parser of JSON reads back as it was printed is the record.\<close>

lemma pin_read_back:
  assumes "validateImagePin record = None"
    and "json_next (marshalPin record @ [CHR 0x0A]) =
      JValue (VMap [(''sourceCommit'', VStr (SourceCommit record)), (''image'', VStr (PinImage record))]) rest"
    and "json_next rest = JEnd"
    and "ReadFile filename fs = (Inr (marshalPin record @ [CHR 0x0A]), fs')"
  shows "readImagePin json_next filename fs = (Inr record, fs')"
proof -
  have keys: "\<not> json_key ''image'' ''sourceCommit''" "json_key ''image'' ''image''"
      "json_key ''sourceCommit'' ''sourceCommit''"
    by (simp_all add: json_key_def fold_ascii_def HasPrefix_def Let_def)
  have "decode_struct decode_pin
      (VMap [(''sourceCommit'', VStr (SourceCommit record)), (''image'', VStr (PinImage record))])
      \<lparr>SourceCommit = [], PinImage = []\<rparr> = Inr record"
    by (simp add: decode_pin_def keys into_def)
  with valid_pin_short [OF assms(1)] assms show ?thesis
    by (simp add: readImagePin_def readBoundedFile_def ensureJSONEOF_def Let_def)
qed

text \<open>
  C40: The pin survives being stored: what writeImagePin wrote, readImagePin returns, unless the file
  cannot be read; the parser of JSON is assumed to read back the object that was printed. A record
  that names no full commit or no image of the repository by its digest is not written at all.
\<close>

theorem image_pin_round_trip:
  assumes "writeImagePin filename record fs = (None, fs1)"
    and "json_next (marshalPin record @ [CHR 0x0A]) =
      JValue (VMap [(''sourceCommit'', VStr (SourceCommit record)), (''image'', VStr (PinImage record))]) rest"
    and "json_next rest = JEnd"
    and "readImagePin json_next filename fs1 = (res, fs2)"
  shows "fullSHA (SourceCommit record) \<and> validImageReference (PinImage record) \<and>
    (res = Inr record \<or> (\<exists>err. res = Inl (Wrapped ''read operand image pin'' err)))"
proof -
  have valid: "validateImagePin record = None" and
    written: "WriteFile filename (marshalPin record @ [CHR 0x0A]) 0x1A4 fs = (None, fs1)"
    using assms(1) by (auto simp: writeImagePin_def split: option.splits)
  obtain content fs3 where read: "ReadFile filename fs1 = (content, fs3)" by fastforce
  have "res = Inr record" if "content = Inr data" for data
  proof -
    have "data = marshalPin record @ [CHR 0x0A]"
      using ReadFile_result(3) [OF read that] WriteFile_writes [OF written] by auto
    with pin_read_back [OF valid assms(2,3)] read that assms(4) show ?thesis by simp
  qed
  moreover have "\<exists>err. res = Inl (Wrapped ''read operand image pin'' err)" if "content = Inl err" for err
    using that assms(4) read by (auto simp: readImagePin_def readBoundedFile_def)
  ultimately show ?thesis using valid by (cases content) (auto simp: validate_pin_None)
qed

definition sample_pin :: imagePinRecord where
  "sample_pin = \<lparr>SourceCommit = replicate 40 CHR ''a'',
     PinImage = imageRepository @ ''@sha256:'' @ replicate 64 CHR ''0''\<rparr>"

text \<open>A parser that knows one document.\<close>

definition sample_json :: "go_bytes \<Rightarrow> json_read" where
  "sample_json data =
     (if data = marshalPin sample_pin @ [CHR 0x0A]
      then JValue (VMap [(''sourceCommit'', VStr (SourceCommit sample_pin)), (''image'', VStr (PinImage sample_pin))])
        [CHR 0x0A]
      else JEnd)"

definition one_directory :: fsys where
  "one_directory = \<lparr>fs_nodes = [([], Directory)], fs_umask = 0x12, fs_answers = []\<rparr>"

lemma sample_pin_valid: "validateImagePin sample_pin = None"
proof -
  have hex: "lower_hex CHR ''a''" "lower_hex CHR ''0''" by (simp_all add: lower_hex_def is_digit_def)
  then have "fullSHA (replicate 40 CHR ''a'')" by (simp add: fullSHA_def hex_decodes_def any_hex_def list_all_iff)
  moreover have "validImageReference (imageRepository @ ''@'' @ ''sha256:'' @ replicate 64 CHR ''0'')"
  proof -
    have "length (replicate 64 CHR ''0'') = 64" by (rule length_replicate)
    moreover have "list_all lower_hex (replicate 64 CHR ''0'')" using hex by (simp only: list_all_iff set_replicate_conv_if) simp
    ultimately show ?thesis unfolding valid_reference digest_pattern by blast
  qed
  ultimately show ?thesis by (simp add: validate_pin_None sample_pin_def)
qed

lemma sample_pin_written:
  "writeImagePin [''pin''] sample_pin one_directory =
     (None, set_node [''pin''] (Regular (marshalPin sample_pin @ [CHR 0x0A]) 0x1A4) one_directory)"
  by (simp add: writeImagePin_def sample_pin_valid WriteFile_def next_answer_def one_directory_def node_at_def
      isDirectory_def filepath_Dir_def)

lemma sample_pin_read:
  "fst (readImagePin sample_json [''pin'']
     (set_node [''pin''] (Regular (marshalPin sample_pin @ [CHR 0x0A]) 0x1A4) one_directory)) \<noteq>
   Inl (Wrapped ''read operand image pin'' err)"
  using valid_pin_short [OF sample_pin_valid]
  by (auto simp: readImagePin_def readBoundedFile_def ReadFile_def next_answer_def one_directory_def
      set_node_def node_at_def Let_def validateImagePin_def split: json_read.splits sum.splits option.splits if_splits)

theorem image_pin_round_trip_witness:
  "\<exists>fs1 fs2. writeImagePin [''pin''] sample_pin one_directory = (None, fs1) \<and>
     readImagePin sample_json [''pin''] fs1 = (Inr sample_pin, fs2)"
proof -
  obtain fs1 where written: "writeImagePin [''pin''] sample_pin one_directory = (None, fs1)"
    and "fs1 = set_node [''pin''] (Regular (marshalPin sample_pin @ [CHR 0x0A]) 0x1A4) one_directory"
    using sample_pin_written by blast
  moreover obtain res fs2 where read: "readImagePin sample_json [''pin''] fs1 = (res, fs2)" by fastforce
  ultimately have "res \<noteq> Inl (Wrapped ''read operand image pin'' err)" for err
    using sample_pin_read [of err] by (metis fst_conv)
  moreover have "sample_json (marshalPin sample_pin @ [CHR 0x0A]) =
      JValue (VMap [(''sourceCommit'', VStr (SourceCommit sample_pin)), (''image'', VStr (PinImage sample_pin))])
        [CHR 0x0A]"
    by (simp add: sample_json_def)
  moreover have "sample_json [CHR 0x0A] = JEnd" by (simp add: sample_json_def marshalPin_def)
  ultimately show ?thesis using image_pin_round_trip [OF written _ _ read] written read by auto
qed

end
