(* ===== verification/Source_Pin.thy ===== *)
theory Source_Pin
  imports Image_Pin Upsert
begin

text \<open>
  tools/source-update/source.go, and the commands of generate.go it runs: which module version the
  go.mod file pins, what a reference may be, and the environment the child processes get. Processes,
  the checks of golang.org/x/mod and of go/version, the parser of JSON, and the one call that makes a
  symbolic link are parameters.
\<close>

section \<open>Child processes\<close>

text \<open>
  A process gets its environment, its directory (or the current one), its name and its arguments; it
  may change the file system, and leaves an error or none and what it wrote to its two outputs.
\<close>

record toolchain =
  tc_environ :: "string list"
  tc_exec :: "string list \<Rightarrow> path option \<Rightarrow> string \<Rightarrow> string list \<Rightarrow> fsys
    \<Rightarrow> (gerror option \<times> go_bytes \<times> go_bytes) \<times> fsys"
  tc_ModuleCheck :: "string \<Rightarrow> string \<Rightarrow> gerror option"
  tc_VersionValid :: "string \<Rightarrow> bool"
  tc_VersionCompare :: "string \<Rightarrow> string \<Rightarrow> int"
  tc_TempDir :: path
  tc_Symlink :: "path \<Rightarrow> path \<Rightarrow> fsys \<Rightarrow> gerror option \<times> fsys"
  tc_ParseJSON :: "go_bytes \<Rightarrow> gval result"
  tc_NextJSON :: "go_bytes \<Rightarrow> json_read"

definition white :: "char \<Rightarrow> bool" where
  "white c \<longleftrightarrow> c \<in> {CHR '' '', CHR 0x09, CHR 0x0A, CHR 0x0B, CHR 0x0C, CHR 0x0D}"

text \<open>\<open>strings.TrimSpace\<close> and \<open>strings.Fields\<close>, on ASCII.\<close>

definition TrimSpace :: "string \<Rightarrow> string" where
  "TrimSpace s = rev (dropWhile white (rev (dropWhile white s)))"

function Fields :: "string \<Rightarrow> string list" where
  "Fields s =
     (let s = dropWhile white s
      in if s = [] then [] else takeWhile (\<lambda>c. \<not> white c) s # Fields (dropWhile (\<lambda>c. \<not> white c) s))"
  by pat_completeness auto
termination
proof (relation "measure length")
  fix s x :: string
  assume x: "x = dropWhile white s" and "x \<noteq> []"
  then have "\<not> white (hd x)" by (simp add: hd_dropWhile)
  with \<open>x \<noteq> []\<close> obtain c cs where "x = c # cs" and "\<not> white c" by (cases x) auto
  then have "length (dropWhile (\<lambda>c. \<not> white c) x) \<le> length cs" by (simp add: length_dropWhile_le)
  moreover have "length x \<le> length s" by (simp add: x length_dropWhile_le)
  ultimately show "(dropWhile (\<lambda>c. \<not> white c) x, s) \<in> measure length" using \<open>x = c # cs\<close> by simp
qed simp

declare Fields.simps [simp del]

definition setEnv :: "string list \<Rightarrow> string \<Rightarrow> string \<Rightarrow> string list" where
  "setEnv env key val =
     (let prefix = key @ ''=''
      in replace_or_append (\<lambda>e. HasPrefix e prefix) (\<lambda>e. prefix @ val) (prefix @ val) env)"

definition localToolchainEnv :: "toolchain \<Rightarrow> string list" where
  "localToolchainEnv T = setEnv (setEnv (tc_environ T) ''GOTOOLCHAIN'' ''local'') ''GOWORK'' ''off''"

definition makeVariables :: "string list" where
  "makeVariables = [''MAKEFLAGS'', ''MFLAGS'', ''MAKEOVERRIDES'', ''GNUMAKEFLAGS'', ''MAKEFILES'']"

definition envKey :: "string \<Rightarrow> string" where
  "envKey item = (case Cut item ''='' of None \<Rightarrow> item | Some (key, rest) \<Rightarrow> key)"

definition generatorEnv :: "toolchain \<Rightarrow> string list" where
  "generatorEnv T = filter (\<lambda>item. envKey item \<notin> set makeVariables) (localToolchainEnv T)"

definition runCommandEnv ::
    "toolchain \<Rightarrow> path option \<Rightarrow> bool \<Rightarrow> string list \<Rightarrow> string \<Rightarrow> string list \<Rightarrow> fsys
      \<Rightarrow> go_bytes result \<times> fsys" where
  "runCommandEnv T dir capture env name args fs =
     (case tc_exec T env dir name args fs of
        ((None, out, stderr), fs) \<Rightarrow> (Inr (if capture then out else []), fs)
      | ((Some err, out, stderr), fs) \<Rightarrow>
          (Inl (if capture then Wrapped (name @ '' '' @ Join args '' '' @ '': '' @ TrimSpace stderr) err
                else Wrapped (name @ '' '' @ Join args '' '') err), fs))"

definition runCommand ::
    "toolchain \<Rightarrow> path option \<Rightarrow> bool \<Rightarrow> string \<Rightarrow> string list \<Rightarrow> fsys \<Rightarrow> go_bytes result \<times> fsys" where
  "runCommand T dir capture name args fs = runCommandEnv T dir capture (localToolchainEnv T) name args fs"

definition generatorCommand ::
    "toolchain \<Rightarrow> path option \<Rightarrow> bool \<Rightarrow> string \<Rightarrow> string list \<Rightarrow> fsys \<Rightarrow> go_bytes result \<times> fsys" where
  "generatorCommand T dir capture name args fs = runCommandEnv T dir capture (generatorEnv T) name args fs"

section \<open>The pinned version\<close>

definition canonical :: string where "canonical = ''github.com/kubernetes-sigs/mcp-lifecycle-operator''"
definition fork :: string where "fork = ''github.com/opendatahub-io/mcp-lifecycle-operator''"
definition placeholderVersion :: string where "placeholderVersion = ''v0.0.0''"
definition repo :: string where "repo = ''https://github.com/opendatahub-io/mcp-lifecycle-operator.git''"

record mod_version =
  mv_Path :: string
  mv_Version :: string

record mod_replace =
  mr_Old :: mod_version
  mr_New :: mod_version

record mod_file =
  mod_Require :: "mod_version list"
  mod_Replace :: "mod_replace list"

definition zero_version :: mod_version where "zero_version = \<lparr>mv_Path = [], mv_Version = []\<rparr>"
definition zero_replace :: mod_replace where "zero_replace = \<lparr>mr_Old = zero_version, mr_New = zero_version\<rparr>"

definition decode_version :: "string \<Rightarrow> gval \<Rightarrow> mod_version \<Rightarrow> mod_version result" where
  "decode_version k v m =
     (if json_key k ''Path'' then into (decode_string v (mv_Path m)) (\<lambda>s. m\<lparr>mv_Path := s\<rparr>)
      else if json_key k ''Version'' then into (decode_string v (mv_Version m)) (\<lambda>s. m\<lparr>mv_Version := s\<rparr>)
      else Inr m)"

definition decode_replace :: "string \<Rightarrow> gval \<Rightarrow> mod_replace \<Rightarrow> mod_replace result" where
  "decode_replace k v r =
     (if json_key k ''Old'' then into (decode_struct decode_version v (mr_Old r)) (\<lambda>m. r\<lparr>mr_Old := m\<rparr>)
      else if json_key k ''New'' then into (decode_struct decode_version v (mr_New r)) (\<lambda>m. r\<lparr>mr_New := m\<rparr>)
      else Inr r)"

definition decode_mod :: "string \<Rightarrow> gval \<Rightarrow> mod_file \<Rightarrow> mod_file result" where
  "decode_mod k v f =
     (if json_key k ''Require''
        then into (decode_slice (decode_struct decode_version) zero_version v (mod_Require f))
               (\<lambda>rs. f\<lparr>mod_Require := rs\<rparr>)
      else if json_key k ''Replace''
        then into (decode_slice (decode_struct decode_replace) zero_replace v (mod_Replace f))
               (\<lambda>rs. f\<lparr>mod_Replace := rs\<rparr>)
      else Inr f)"

text \<open>The loop over the requirements: how many name the module, and the last one's version.\<close>

fun scanRequires :: "mod_version list \<Rightarrow> nat \<Rightarrow> string \<Rightarrow> nat \<times> string" where
  "scanRequires [] n required = (n, required)"
| "scanRequires (item # items) n required =
     (if mv_Path item = canonical then scanRequires items (n + 1) (mv_Version item)
      else scanRequires items n required)"

fun scanReplaces :: "mod_replace list \<Rightarrow> nat \<Rightarrow> string \<Rightarrow> (nat \<times> string) result" where
  "scanReplaces [] n replacement = Inr (n, replacement)"
| "scanReplaces (item # items) n replacement =
     (if mv_Path (mr_Old item) = canonical then
        (if mv_Version (mr_Old item) \<noteq> [] \<or> mv_Path (mr_New item) \<noteq> fork
         then Inl (Message (''go.mod replacement must be unversioned '' @ canonical @ '' => '' @ fork @ ''@version''))
         else scanReplaces items (n + 1) (mv_Version (mr_New item)))
      else scanReplaces items n replacement)"

definition sourcePin :: "toolchain \<Rightarrow> go_bytes \<Rightarrow> string result" where
  "sourcePin T data =
     (case tc_ParseJSON T data of
        Inl err \<Rightarrow> Inl err
      | Inr v \<Rightarrow>
          (case decode_struct decode_mod v \<lparr>mod_Require = [], mod_Replace = []\<rparr> of
             Inl err \<Rightarrow> Inl err
           | Inr f \<Rightarrow>
               (case scanRequires (mod_Require f) 0 [] of
                  (requireCount, required) \<Rightarrow>
                    if requireCount \<noteq> 1
                    then Inl (Message (''go.mod must require '' @ canonical @ '' exactly once''))
                    else
                      (case scanReplaces (mod_Replace f) 0 [] of
                         Inl err \<Rightarrow> Inl err
                       | Inr (replaceCount, replacement) \<Rightarrow>
                           if replaceCount \<noteq> 1 \<or> replacement = [] \<or> tc_ModuleCheck T fork replacement \<noteq> None \<or>
                              replacement = placeholderVersion
                           then Inl (Message (''go.mod must contain one replacement for '' @ canonical @
                                  '' pinned to a real '' @ fork @ '' version''))
                           else if required \<noteq> placeholderVersion
                           then Inl (Message (''go.mod must require '' @ canonical @ '' at placeholder version '' @
                                  placeholderVersion))
                           else Inr replacement))))"

record mod_info =
  mi_Path :: string
  mi_Version :: string
  mi_Hash :: string

definition decode_origin :: "string \<Rightarrow> gval \<Rightarrow> string \<Rightarrow> string result" where
  "decode_origin k v cur = (if json_key k ''Hash'' then decode_string v cur else Inr cur)"

definition decode_info :: "string \<Rightarrow> gval \<Rightarrow> mod_info \<Rightarrow> mod_info result" where
  "decode_info k v i =
     (if json_key k ''Path'' then into (decode_string v (mi_Path i)) (\<lambda>s. i\<lparr>mi_Path := s\<rparr>)
      else if json_key k ''Version'' then into (decode_string v (mi_Version i)) (\<lambda>s. i\<lparr>mi_Version := s\<rparr>)
      else if json_key k ''Origin'' then into (decode_struct decode_origin v (mi_Hash i)) (\<lambda>s. i\<lparr>mi_Hash := s\<rparr>)
      else Inr i)"

text \<open>The version and the commit; the path is the fork's.\<close>

definition moduleInfo :: "toolchain \<Rightarrow> go_bytes \<Rightarrow> (string \<times> string) result" where
  "moduleInfo T data =
     (case tc_ParseJSON T data of
        Inl err \<Rightarrow> Inl err
      | Inr v \<Rightarrow>
          (case decode_struct decode_info v \<lparr>mi_Path = [], mi_Version = [], mi_Hash = []\<rparr> of
             Inl err \<Rightarrow> Inl err
           | Inr i \<Rightarrow>
               if mi_Path i \<noteq> fork \<or> mi_Version i = [] \<or> mi_Version i = placeholderVersion \<or>
                  tc_ModuleCheck T fork (mi_Version i) \<noteq> None \<or> length (mi_Hash i) \<noteq> 40 \<or> \<not> fullSHA (mi_Hash i)
               then Inl (Message (''could not resolve immutable source provenance for '' @ fork))
               else Inr (mi_Version i, mi_Hash i)))"

definition moduleVersion :: "toolchain \<Rightarrow> string \<Rightarrow> path \<Rightarrow> fsys \<Rightarrow> (string \<times> string) result \<times> fsys" where
  "moduleVersion T query root fs =
     (case runCommand T (Some root) True ''go'' [''list'', ''-m'', ''-json'', fork @ ''@'' @ query] fs of
        (Inl err, fs) \<Rightarrow> (Inl err, fs)
      | (Inr out, fs) \<Rightarrow> (moduleInfo T out, fs))"

section \<open>References\<close>

definition validateRef :: "toolchain \<Rightarrow> string \<Rightarrow> fsys \<Rightarrow> gerror option \<times> fsys" where
  "validateRef T ref fs =
     (if ref = [] \<or> HasPrefix ref ''-'' \<or> ref = ''HEAD'' \<or> list_ex (\<lambda>c. (of_char c :: nat) < 32) ref
      then (Some (Message ''source ref must be a branch, tag, or full commit SHA''), fs)
      else if fullSHA ref then (None, fs)
      else
        (case runCommand T None False ''git'' [''check-ref-format'', ''--allow-onelevel'', ref] fs of
           (Inl err, fs) \<Rightarrow> (Some (Wrapped (''invalid source ref '' @ Quote ref) err), fs)
         | (Inr out, fs) \<Rightarrow> (None, fs)))"

definition sourceCommit :: "toolchain \<Rightarrow> string \<Rightarrow> path \<Rightarrow> string \<Rightarrow> fsys \<Rightarrow> string result \<times> fsys" where
  "sourceCommit T ref checkout remote fs =
     (case runCommand T None False ''git'' [''init'', path_text checkout] fs of
        (Inl err, fs) \<Rightarrow> (Inl err, fs)
      | (Inr out, fs) \<Rightarrow>
          (case runCommand T None False ''git'' [''-C'', path_text checkout, ''remote'', ''add'', ''origin'', remote] fs of
             (Inl err, fs) \<Rightarrow> (Inl err, fs)
           | (Inr out, fs) \<Rightarrow>
               (case runCommand T None False ''git''
                       [''-C'', path_text checkout, ''fetch'', ''--depth=1'', ''origin'', ref] fs of
                  (Inl err, fs) \<Rightarrow> (Inl err, fs)
                | (Inr out, fs) \<Rightarrow>
                    (case runCommand T None True ''git''
                            [''-C'', path_text checkout, ''rev-parse'', ''FETCH_HEAD^{commit}''] fs of
                       (Inl err, fs) \<Rightarrow> (Inl err, fs)
                     | (Inr out, fs) \<Rightarrow>
                         (let commit = TrimSpace out
                          in if length commit \<noteq> 40 \<or> \<not> fullSHA commit
                             then (Inl (Message (''resolved source commit '' @ Quote commit @
                                    '' is not a full 40-character SHA'')), fs)
                             else (Inr commit, fs))))))"

end
