(* ===== verification/Install.thy ===== *)
theory Install
  imports File_System
begin

text \<open>
  tools/source-update/install.go, with copyTree and copyFile of generate.go: the three generated
  outputs are staged beside their targets and then swapped in by renames; if a step fails, the
  swaps made so far are undone. An entry of the installation is a record; the two loops over the
  entries are \<open>each_entry\<close> of a step.
\<close>

definition configPath :: path where
  "configPath = [''config'', ''manifests'', ''mcp-lifecycle-operator'']"

definition installerPath :: path where
  "installerPath = [''internal'', ''controller'', ''resources'', ''mcp-lifecycle-operator.yaml'']"

definition imagePinPath :: path where
  "imagePinPath = [''operand-image.json'']"

record installEntry =
  target :: path
  workspace :: path
  output_path :: path
  backup :: path
  backedUp :: bool
  installed :: bool

section \<open>Staging\<close>

definition copyTree :: "path \<Rightarrow> path \<Rightarrow> fsys \<Rightarrow> gerror option \<times> fsys" where
  "copyTree source dest fs = CopyFS dest source fs"

definition copyFile :: "path \<Rightarrow> path \<Rightarrow> fsys \<Rightarrow> gerror option \<times> fsys" where
  "copyFile source dest fs =
     (case ReadFile source fs of
        (Inl err, fs) \<Rightarrow> (Some err, fs)
      | (Inr data, fs) \<Rightarrow>
          (case Lstat source fs of
             (Inl err, fs) \<Rightarrow> (Some err, fs)
           | (Inr info, fs) \<Rightarrow> WriteFile dest data (node_mode info) fs))"

fun each_entry ::
    "(installEntry \<Rightarrow> fsys \<Rightarrow> 'a \<times> installEntry \<times> fsys) \<Rightarrow> installEntry list \<Rightarrow> fsys
      \<Rightarrow> 'a list \<times> installEntry list \<times> fsys" where
  "each_entry step [] fs = ([], [], fs)"
| "each_entry step (entry # entries) fs =
     (case step entry fs of
        (out, entry, fs) \<Rightarrow>
          (case each_entry step entries fs of
             (outs, entries, fs) \<Rightarrow> (out # outs, entry # entries, fs)))"

definition cleanupEntry :: "installEntry \<Rightarrow> fsys \<Rightarrow> gerror option \<times> installEntry \<times> fsys" where
  "cleanupEntry entry fs =
     (case RemoveAll (workspace entry) fs of
        (Some err, fs) \<Rightarrow> (Some (Wrapped (''cleanup '' @ path_text (workspace entry)) err), entry, fs)
      | (None, fs) \<Rightarrow> (None, entry, fs))"

definition cleanupEntries :: "installEntry list \<Rightarrow> fsys \<Rightarrow> gerror option \<times> fsys" where
  "cleanupEntries entries fs =
     (case each_entry cleanupEntry entries fs of (errs, _, fs) \<Rightarrow> (errors_Join errs, fs))"

definition newEntry :: "path \<Rightarrow> path \<Rightarrow> installEntry" where
  "newEntry t ws =
     \<lparr>target = t, workspace = ws, output_path = ws @ [''output''], backup = ws @ [''backup''],
      backedUp = False, installed = False\<rparr>"

text \<open>An item to install is its target, what was staged for it, and whether that is a directory.\<close>

fun stageEntries ::
    "installEntry list \<Rightarrow> (path \<times> path \<times> bool) list \<Rightarrow> fsys
      \<Rightarrow> (gerror option + installEntry list) \<times> fsys" where
  "stageEntries entries [] fs = (Inr entries, fs)"
| "stageEntries entries ((t, staged, dir) # items) fs =
     (case MkdirAll (filepath_Dir t) fs of
        (Some err, fs) \<Rightarrow>
          (case cleanupEntries entries fs of (cerr, fs) \<Rightarrow> (Inl (errors_Join [Some err, cerr]), fs))
      | (None, fs) \<Rightarrow>
          (case MkdirTemp (filepath_Dir t) ''.operand-install-'' fs of
             (Inl err, fs) \<Rightarrow>
               (case cleanupEntries entries fs of (cerr, fs) \<Rightarrow> (Inl (errors_Join [Some err, cerr]), fs))
           | (Inr ws, fs) \<Rightarrow>
               (let entry = newEntry t ws in
                case (if dir then copyTree staged (output_path entry) fs
                      else copyFile staged (output_path entry) fs) of
                  (Some err, fs) \<Rightarrow>
                    (case RemoveAll ws fs of
                       (rerr, fs) \<Rightarrow>
                         (case cleanupEntries entries fs of
                            (cerr, fs) \<Rightarrow> (Inl (errors_Join [Some err, rerr, cerr]), fs)))
                | (None, fs) \<Rightarrow> stageEntries (entries @ [entry]) items fs)))"

section \<open>Rolling back\<close>

definition rollbackEntry :: "installEntry \<Rightarrow> fsys \<Rightarrow> string list \<times> installEntry \<times> fsys" where
  "rollbackEntry entry fs =
     (case (if installed entry then RemoveAll (target entry) fs else (None, fs)) of
        (Some err, fs) \<Rightarrow>
          ([''remove '' @ path_text (target entry) @ '': '' @ Error err @
            (if backedUp entry then ''; original retained at '' @ path_text (backup entry) else [])],
           entry, fs)
      | (None, fs) \<Rightarrow>
          if backedUp entry then
            (case Rename (backup entry) (target entry) fs of
               (Some err, fs) \<Rightarrow>
                 ([''original retained at '' @ path_text (backup entry) @ '' (restore failed: '' @
                   Error err @ '')''], entry, fs)
             | (None, fs) \<Rightarrow> ([], entry\<lparr>backedUp := False\<rparr>, fs))
          else ([], entry, fs))"

definition cleanupRestored :: "installEntry \<Rightarrow> fsys \<Rightarrow> string list \<times> installEntry \<times> fsys" where
  "cleanupRestored entry fs =
     (if backedUp entry then ([], entry, fs)
      else
        (case cleanupEntries [entry] fs of
           (Some err, fs) \<Rightarrow> ([Error err], entry, fs)
         | (None, fs) \<Rightarrow> ([], entry, fs)))"

definition rollbackInstall :: "installEntry list \<Rightarrow> gerror \<Rightarrow> fsys \<Rightarrow> gerror \<times> fsys" where
  "rollbackInstall entries cause fs =
     (case each_entry rollbackEntry (rev entries) fs of
        (undone, entries, fs) \<Rightarrow>
          (case each_entry cleanupRestored (rev entries) fs of
             (cleaned, entries, fs) \<Rightarrow>
               (let recovery = concat undone @ concat cleaned
                in if recovery = [] then (cause, fs)
                   else (Message (Error cause @ ''; rollback incomplete: '' @ Join recovery ''; ''), fs))))"

section \<open>Swapping in\<close>

text \<open>One round of the loop; its second half renames the output to the target.\<close>

definition installEntryAt :: "installEntry \<Rightarrow> fsys \<Rightarrow> gerror option \<times> installEntry \<times> fsys" where
  "installEntryAt entry fs =
     (case Rename (output_path entry) (target entry) fs of
        (Some err, fs) \<Rightarrow> (Some (Wrapped (''install '' @ path_text (target entry)) err), entry, fs)
      | (None, fs) \<Rightarrow> (None, entry\<lparr>installed := True\<rparr>, fs))"

definition swapEntry :: "installEntry \<Rightarrow> fsys \<Rightarrow> gerror option \<times> installEntry \<times> fsys" where
  "swapEntry entry fs =
     (case Lstat (target entry) fs of
        (Inr info, fs) \<Rightarrow>
          (case Rename (target entry) (backup entry) fs of
             (Some err, fs) \<Rightarrow> (Some (Wrapped (''backup '' @ path_text (target entry)) err), entry, fs)
           | (None, fs) \<Rightarrow> installEntryAt (entry\<lparr>backedUp := True\<rparr>) fs)
      | (Inl err, fs) \<Rightarrow>
          if \<not> IsNotExist err then (Some err, entry, fs) else installEntryAt entry fs)"

fun swapEntries ::
    "installEntry list \<Rightarrow> installEntry list \<Rightarrow> fsys \<Rightarrow> gerror option \<times> fsys" where
  "swapEntries swapped [] fs =
     (case cleanupEntries swapped fs of (warning, fs) \<Rightarrow> (None, fs))"
| "swapEntries swapped (entry # entries) fs =
     (case swapEntry entry fs of
        (Some cause, entry, fs) \<Rightarrow>
          (case rollbackInstall (swapped @ entry # entries) cause fs of (err, fs) \<Rightarrow> (Some err, fs))
      | (None, entry, fs) \<Rightarrow> swapEntries (swapped @ [entry]) entries fs)"

definition installItems :: "path \<Rightarrow> path \<Rightarrow> path \<Rightarrow> path \<Rightarrow> (path \<times> path \<times> bool) list" where
  "installItems root stagedConfig stagedInstaller stagedPin =
     [(root @ configPath, stagedConfig, True),
      (root @ installerPath, stagedInstaller, False),
      (root @ imagePinPath, stagedPin, False)]"

definition installOutputs ::
    "path \<Rightarrow> path \<Rightarrow> path \<Rightarrow> path \<Rightarrow> fsys \<Rightarrow> gerror option \<times> fsys" where
  "installOutputs root stagedConfig stagedInstaller stagedPin fs =
     (case stageEntries [] (installItems root stagedConfig stagedInstaller stagedPin) fs of
        (Inl err, fs) \<Rightarrow> (err, fs)
      | (Inr entries, fs) \<Rightarrow> swapEntries [] entries fs)"

end
