(* ===== verification/Registry.thy ===== *)
theory Registry
  imports Image_Pin
begin

text \<open>
  Resolving the operand image of a commit from the registry: the rest of
  tools/source-update/image.go. The HTTP client, SHA-256 and the parsers of URLs and of JSON are
  parameters; the world \<open>w\<close> is threaded through the requests. The registry's own URL has no query,
  as the endpoint built into the tool has none.
\<close>

definition imageRegistry :: string where
  "imageRegistry = ''https://quay.io''"

section \<open>Packages path and net/url\<close>

fun split_slash :: "string \<Rightarrow> string list" where
  "split_slash [] = [[]]"
| "split_slash (c # cs) =
     (if c = CHR ''/'' then [] # split_slash cs
      else (case split_slash cs of [] \<Rightarrow> [[c]] | p # ps \<Rightarrow> (c # p) # ps))"

text \<open>\<open>path.Clean\<close>: the stack holds the components kept so far, the last one first.\<close>

fun clean_components :: "bool \<Rightarrow> string list \<Rightarrow> string list \<Rightarrow> string list" where
  "clean_components absolute stack [] = rev stack"
| "clean_components absolute stack (p # ps) =
     (if p = [] \<or> p = ''.'' then clean_components absolute stack ps
      else if p = ''..'' then
        (case stack of
           [] \<Rightarrow> clean_components absolute (if absolute then [] else [''..'']) ps
         | q # qs \<Rightarrow>
             if q = ''..'' then clean_components absolute (''..'' # stack) ps
             else clean_components absolute qs ps)
      else clean_components absolute (p # stack) ps)"

definition path_Clean :: "string \<Rightarrow> string" where
  "path_Clean s =
     (let absolute = HasPrefix s ''/'';
          text = Join (clean_components absolute [] (split_slash s)) ''/''
      in if absolute then CHR ''/'' # text else if text = [] then ''.'' else text)"

definition path_Join :: "string list \<Rightarrow> string" where
  "path_Join elems =
     (let present = filter (\<lambda>e. e \<noteq> []) elems
      in if present = [] then [] else path_Clean (Join present ''/''))"

record url =
  url_Scheme :: string
  url_Host :: string
  url_Path :: string
  url_RawQuery :: string

definition upper_hex_char :: "nat \<Rightarrow> char" where
  "upper_hex_char d = char_of (if d < 10 then 48 + d else 55 + d)"

definition unreserved :: "char \<Rightarrow> bool" where
  "unreserved c \<longleftrightarrow> is_digit c \<or> (let n = (of_char c :: nat) in 65 \<le> n \<and> n \<le> 90 \<or> 97 \<le> n \<and> n \<le> 122) \<or>
     c \<in> set ''-_.~''"

definition percent :: "char \<Rightarrow> string" where
  "percent c = (let n = (of_char c :: nat) in [CHR ''%'', upper_hex_char (n div 16), upper_hex_char (n mod 16)])"

definition escapePath :: "string \<Rightarrow> string" where
  "escapePath s = concat (map (\<lambda>c. if unreserved c \<or> c \<in> set ''$&+,/:;=@'' then [c] else percent c) s)"

definition QueryEscape :: "string \<Rightarrow> string" where
  "QueryEscape s = concat (map (\<lambda>c. if unreserved c then [c] else if c = CHR '' '' then ''+'' else percent c) s)"

definition url_String :: "url \<Rightarrow> string" where
  "url_String u = url_Scheme u @ ''://'' @ url_Host u @ escapePath (url_Path u) @
     (if url_RawQuery u = [] then [] else CHR ''?'' # url_RawQuery u)"

section \<open>The client\<close>

record http_request =
  rq_URL :: url
  rq_Accept :: string
  rq_Authorization :: string

text \<open>The body is what reading it yields, an error included; the header is under canonical keys.\<close>

record http_response =
  rs_Status :: int
  rs_Header :: "string go_map"
  rs_Body :: "go_bytes result"

record 'w registry_api =
  ra_Do :: "http_request \<Rightarrow> 'w \<Rightarrow> http_response result \<times> 'w"
  ra_ParseURL :: "string \<Rightarrow> url result"
  ra_ParseJSON :: "go_bytes \<Rightarrow> gval result"
  ra_SHA256 :: "go_bytes \<Rightarrow> string"

definition StatusOK :: int where "StatusOK = 200"
definition StatusUnauthorized :: int where "StatusUnauthorized = 401"

definition header_Get :: "string go_map \<Rightarrow> string \<Rightarrow> string" where
  "header_Get h k = (case map_of h k of None \<Rightarrow> [] | Some v \<Rightarrow> v)"

definition registryRequest ::
    "'w registry_api \<Rightarrow> url \<Rightarrow> string \<Rightarrow> string \<Rightarrow> 'w
      \<Rightarrow> (go_bytes \<times> string go_map \<times> int) result \<times> 'w" where
  "registryRequest R endpoint accept token w =
     (case ra_Do R \<lparr>rq_URL = endpoint, rq_Accept = accept,
              rq_Authorization = (if token \<noteq> [] then ''Bearer '' @ token else [])\<rparr> w of
        (Inl err, w) \<Rightarrow> (Inl err, w)
      | (Inr response, w) \<Rightarrow>
          (case rs_Body response of
             Inl err \<Rightarrow> (Inl err, w)
           | Inr content \<Rightarrow>
               (let body = take (maxRegistryResponse + 1) content
                in if length body > maxRegistryResponse
                   then (Inl (Message (''registry response exceeds '' @ Itoa (int maxRegistryResponse) @ '' bytes'')), w)
                   else (Inr (body, rs_Header response, rs_Status response), w))))"

section \<open>The pull token\<close>

definition is_letter :: "char \<Rightarrow> bool" where
  "is_letter c \<longleftrightarrow> (let n = (of_char c :: nat) in 65 \<le> n \<and> n \<le> 90 \<or> 97 \<le> n \<and> n \<le> 122)"

text \<open>
  A match of the regular expression \<open>([A-Za-z]+)="([^"]*)"\<close> at the start of a text, and what follows
  it. The run of letters is the longest, since a shorter one is followed by a letter.
\<close>

definition authParamMatch :: "string \<Rightarrow> ((string \<times> string) \<times> string) option" where
  "authParamMatch s =
     (let key = takeWhile is_letter s; rest = dropWhile is_letter s
      in if key = [] then None
         else (case CutPrefix rest [CHR ''='', CHR 0x22] of
                 None \<Rightarrow> None
               | Some rest \<Rightarrow>
                   (case Cut rest [CHR 0x22] of
                      None \<Rightarrow> None
                    | Some (value, rest) \<Rightarrow> Some ((key, value), rest))))"

lemma authParamMatch_shorter: "authParamMatch s = Some (kv, rest) \<Longrightarrow> length rest < length s"
proof -
  assume match: "authParamMatch s = Some (kv, rest)"
  then obtain tail val where "dropWhile is_letter s = [CHR ''='', CHR 0x22] @ tail"
    and "tail = val @ [CHR 0x22] @ rest"
    by (auto simp: authParamMatch_def Let_def CutPrefix_Some_iff dest!: Cut_split split: if_splits option.splits)
  then have "length (dropWhile is_letter s) > length rest" by simp
  then show ?thesis using length_dropWhile_le [of is_letter s] by simp
qed

function authParams :: "string \<Rightarrow> (string \<times> string) list" where
  "authParams [] = []"
| "authParams (c # cs) =
     (case authParamMatch (c # cs) of
        Some (kv, rest) \<Rightarrow> kv # authParams rest
      | None \<Rightarrow> authParams cs)"
  by pat_completeness auto
termination
  by (relation "measure length") (auto dest: authParamMatch_shorter)

definition paramValue :: "(string \<times> string) list \<Rightarrow> string \<Rightarrow> string" where
  "paramValue params k = header_Get (rev params) k"

record token_response =
  tk_Token :: string
  tk_AccessToken :: string

definition decode_token :: "string \<Rightarrow> gval \<Rightarrow> token_response \<Rightarrow> token_response result" where
  "decode_token k v t =
     (if json_key k ''token'' then into (decode_string v (tk_Token t)) (\<lambda>s. t\<lparr>tk_Token := s\<rparr>)
      else if json_key k ''access_token''
        then into (decode_string v (tk_AccessToken t)) (\<lambda>s. t\<lparr>tk_AccessToken := s\<rparr>)
      else Inr t)"

text \<open>\<open>json.Unmarshal\<close> of a document into the zero value of a struct.\<close>

definition Unmarshal ::
    "'w registry_api \<Rightarrow> (string \<Rightarrow> gval \<Rightarrow> 'a \<Rightarrow> 'a result) \<Rightarrow> 'a \<Rightarrow> go_bytes \<Rightarrow> 'a result" where
  "Unmarshal R f zero data =
     (case ra_ParseJSON R data of Inl err \<Rightarrow> Inl err | Inr v \<Rightarrow> decode_struct f v zero)"

definition pullScope :: string where
  "pullScope = ''repository:'' @ imageRepositoryPath @ '':pull''"

definition authURL :: "url \<Rightarrow> url" where
  "authURL base = base\<lparr>url_Path := path_Join [url_Path base, ''/v2/auth'']\<rparr>"

text \<open>\<open>url.Values.Encode\<close> writes the keys in order.\<close>

definition tokenURL :: "url \<Rightarrow> url" where
  "tokenURL base = (authURL base)\<lparr>url_RawQuery :=
     ''scope='' @ QueryEscape pullScope @ ''&service='' @ QueryEscape ''quay.io''\<rparr>"

definition registryToken :: "'w registry_api \<Rightarrow> url \<Rightarrow> string \<Rightarrow> 'w \<Rightarrow> string result \<times> 'w" where
  "registryToken R base challenge w =
     (case Cut challenge '' '' of
        None \<Rightarrow> (Inl (Message ''registry requires unsupported authentication''), w)
      | Some (kind, params) \<Rightarrow>
          if \<not> json_key kind ''Bearer''
          then (Inl (Message ''registry requires unsupported authentication''), w)
          else
            (let values = paramValue (authParams params)
             in if values ''realm'' \<noteq> url_String (authURL base) \<or> values ''service'' \<noteq> ''quay.io'' \<or>
                   values ''scope'' \<noteq> pullScope
                then (Inl (Message
                       ''registry authentication challenge does not match trusted Quay repository''), w)
                else
                  (case registryRequest R (tokenURL base) ''application/json'' [] w of
                     (Inl err, w) \<Rightarrow> (Inl err, w)
                   | (Inr (body, header, status), w) \<Rightarrow>
                       if status \<noteq> StatusOK
                       then (Inl (Message (''Quay token request returned HTTP '' @ Itoa status)), w)
                       else
                         (case Unmarshal R decode_token \<lparr>tk_Token = [], tk_AccessToken = []\<rparr> body of
                            Inl err \<Rightarrow> (Inl (Wrapped ''decode Quay token response'' err), w)
                          | Inr t \<Rightarrow>
                              (let token = (if tk_Token t = [] then tk_AccessToken t else tk_Token t)
                               in if token = [] then (Inl (Message ''Quay returned an empty pull token''), w)
                                  else (Inr token, w))))))"

definition resourceURL :: "url \<Rightarrow> string \<Rightarrow> url" where
  "resourceURL base resource =
     base\<lparr>url_Path := path_Join [url_Path base, ''/v2'', imageRepositoryPath, resource]\<rparr>"

definition registryGet ::
    "'w registry_api \<Rightarrow> url \<Rightarrow> string \<Rightarrow> string \<Rightarrow> 'w
      \<Rightarrow> (go_bytes \<times> string go_map) result \<times> 'w" where
  "registryGet R base resource accept w =
     (let answer = (\<lambda>body header status.
        if status \<noteq> StatusOK
        then Inl (Message (''registry GET '' @ resource @ '' returned HTTP '' @ Itoa status))
        else Inr (body, header))
      in
        (case registryRequest R (resourceURL base resource) accept [] w of
           (Inl err, w) \<Rightarrow> (Inl err, w)
         | (Inr (body, header, status), w) \<Rightarrow>
             if status = StatusUnauthorized then
               (case registryToken R base (header_Get header ''Www-Authenticate'') w of
                  (Inl err, w) \<Rightarrow> (Inl err, w)
                | (Inr token, w) \<Rightarrow>
                    (case registryRequest R (resourceURL base resource) accept token w of
                       (Inl err, w) \<Rightarrow> (Inl err, w)
                     | (Inr (body, header, status), w) \<Rightarrow> (answer body header status, w)))
             else (answer body header status, w)))"

section \<open>Manifests and configs\<close>

record platform_desc =
  pf_OS :: string
  pf_Architecture :: string

record registryDescriptor =
  rd_MediaType :: string
  rd_Digest :: string
  rd_Platform :: platform_desc

record config_desc =
  cd_MediaType :: string
  cd_Digest :: string

record registryManifest =
  rm_SchemaVersion :: int
  rm_MediaType :: string
  rm_Manifests :: "registryDescriptor list"
  rm_Config :: config_desc

record imageConfig =
  ic_OS :: string
  ic_Architecture :: string
  ic_Labels :: "string go_map"

definition zero_descriptor :: registryDescriptor where
  "zero_descriptor = \<lparr>rd_MediaType = [], rd_Digest = [], rd_Platform = \<lparr>pf_OS = [], pf_Architecture = []\<rparr>\<rparr>"

definition zero_manifest :: registryManifest where
  "zero_manifest = \<lparr>rm_SchemaVersion = 0, rm_MediaType = [], rm_Manifests = [],
     rm_Config = \<lparr>cd_MediaType = [], cd_Digest = []\<rparr>\<rparr>"

definition zero_config :: imageConfig where
  "zero_config = \<lparr>ic_OS = [], ic_Architecture = [], ic_Labels = []\<rparr>"

definition decode_platform :: "string \<Rightarrow> gval \<Rightarrow> platform_desc \<Rightarrow> platform_desc result" where
  "decode_platform k v p =
     (if json_key k ''os'' then into (decode_string v (pf_OS p)) (\<lambda>s. p\<lparr>pf_OS := s\<rparr>)
      else if json_key k ''architecture''
        then into (decode_string v (pf_Architecture p)) (\<lambda>s. p\<lparr>pf_Architecture := s\<rparr>)
      else Inr p)"

definition decode_descriptor :: "string \<Rightarrow> gval \<Rightarrow> registryDescriptor \<Rightarrow> registryDescriptor result" where
  "decode_descriptor k v d =
     (if json_key k ''mediaType'' then into (decode_string v (rd_MediaType d)) (\<lambda>s. d\<lparr>rd_MediaType := s\<rparr>)
      else if json_key k ''digest'' then into (decode_string v (rd_Digest d)) (\<lambda>s. d\<lparr>rd_Digest := s\<rparr>)
      else if json_key k ''platform''
        then into (decode_struct decode_platform v (rd_Platform d)) (\<lambda>p. d\<lparr>rd_Platform := p\<rparr>)
      else Inr d)"

definition decode_config_desc :: "string \<Rightarrow> gval \<Rightarrow> config_desc \<Rightarrow> config_desc result" where
  "decode_config_desc k v c =
     (if json_key k ''mediaType'' then into (decode_string v (cd_MediaType c)) (\<lambda>s. c\<lparr>cd_MediaType := s\<rparr>)
      else if json_key k ''digest'' then into (decode_string v (cd_Digest c)) (\<lambda>s. c\<lparr>cd_Digest := s\<rparr>)
      else Inr c)"

definition decode_manifest :: "string \<Rightarrow> gval \<Rightarrow> registryManifest \<Rightarrow> registryManifest result" where
  "decode_manifest k v m =
     (if json_key k ''schemaVersion''
        then into (decode_int v (rm_SchemaVersion m)) (\<lambda>n. m\<lparr>rm_SchemaVersion := n\<rparr>)
      else if json_key k ''mediaType''
        then into (decode_string v (rm_MediaType m)) (\<lambda>s. m\<lparr>rm_MediaType := s\<rparr>)
      else if json_key k ''manifests''
        then into (decode_slice (decode_struct decode_descriptor) zero_descriptor v (rm_Manifests m))
               (\<lambda>ds. m\<lparr>rm_Manifests := ds\<rparr>)
      else if json_key k ''config''
        then into (decode_struct decode_config_desc v (rm_Config m)) (\<lambda>c. m\<lparr>rm_Config := c\<rparr>)
      else Inr m)"

definition decode_labels :: "string \<Rightarrow> gval \<Rightarrow> string go_map \<Rightarrow> string go_map result" where
  "decode_labels k v labels = (if json_key k ''Labels'' then decode_string_map v labels else Inr labels)"

definition decode_image_config :: "string \<Rightarrow> gval \<Rightarrow> imageConfig \<Rightarrow> imageConfig result" where
  "decode_image_config k v c =
     (if json_key k ''os'' then into (decode_string v (ic_OS c)) (\<lambda>s. c\<lparr>ic_OS := s\<rparr>)
      else if json_key k ''architecture''
        then into (decode_string v (ic_Architecture c)) (\<lambda>s. c\<lparr>ic_Architecture := s\<rparr>)
      else if json_key k ''config''
        then into (decode_struct decode_labels v (ic_Labels c)) (\<lambda>m. c\<lparr>ic_Labels := m\<rparr>)
      else Inr c)"

definition ociIndex :: string where "ociIndex = ''application/vnd.oci.image.index.v1+json''"
definition dockerIndex :: string where
  "dockerIndex = ''application/vnd.docker.distribution.manifest.list.v2+json''"
definition ociImage :: string where "ociImage = ''application/vnd.oci.image.manifest.v1+json''"
definition dockerImage :: string where
  "dockerImage = ''application/vnd.docker.distribution.manifest.v2+json''"

definition manifestAccept :: string where
  "manifestAccept = ociIndex @ '', '' @ dockerIndex @ '', '' @ ociImage @ '', '' @ dockerImage"

definition isIndexMediaType :: "string \<Rightarrow> bool" where
  "isIndexMediaType mediaType \<longleftrightarrow> mediaType = ociIndex \<or> mediaType = dockerIndex"

definition isImageMediaType :: "string \<Rightarrow> bool" where
  "isImageMediaType mediaType \<longleftrightarrow> mediaType = ociImage \<or> mediaType = dockerImage"

definition isConfigMediaType :: "string \<Rightarrow> bool" where
  "isConfigMediaType mediaType \<longleftrightarrow>
     mediaType = ''application/vnd.oci.image.config.v1+json'' \<or>
     mediaType = ''application/vnd.docker.container.image.v1+json''"

definition normalizeArchitecture :: "string \<Rightarrow> string" where
  "normalizeArchitecture arch =
     (if arch = ''x86_64'' then ''amd64'' else if arch = ''aarch64'' then ''arm64'' else arch)"

section \<open>Checking the image\<close>

text \<open>\<open>ra_SHA256\<close> gives the digest of a content in hexadecimal.\<close>

definition checkedDigest :: "'w registry_api \<Rightarrow> go_bytes \<Rightarrow> string \<Rightarrow> string result" where
  "checkedDigest R body claimed =
     (if \<not> digestPattern claimed
      then Inl (Message (''missing or malformed sha256 content digest '' @ Quote claimed))
      else
        (let actual = ''sha256:'' @ ra_SHA256 R body
         in if claimed \<noteq> actual
            then Inl (Message (''content digest mismatch: header '' @ claimed @ '', body '' @ actual))
            else Inr actual))"

fun checkLabels :: "string list \<Rightarrow> string go_map \<Rightarrow> string \<Rightarrow> bool \<Rightarrow> bool result" where
  "checkLabels [] labels sourceCommit hasSource = Inr hasSource"
| "checkLabels (key # keys) labels sourceCommit hasSource =
     (case map_of labels key of
        None \<Rightarrow> checkLabels keys labels sourceCommit hasSource
      | Some value \<Rightarrow>
          if value \<noteq> sourceCommit
          then Inl (Message (''image config label '' @ key @ '' is '' @ Quote value @ '', expected source '' @
                 sourceCommit))
          else checkLabels keys labels sourceCommit True)"

definition sourceLabels :: "string list" where
  "sourceLabels = [''git.commit'', ''org.opencontainers.image.revision'', ''vcs-ref'']"

definition sourceURL :: string where
  "sourceURL = ''https://github.com/opendatahub-io/mcp-lifecycle-operator''"

text \<open>The checks of a fetched config: its platform and its labels.\<close>

definition checkConfig :: "imageConfig \<Rightarrow> registryDescriptor \<Rightarrow> string \<Rightarrow> gerror option" where
  "checkConfig config descriptor sourceCommit =
     (let os = pf_OS (rd_Platform descriptor); arch = pf_Architecture (rd_Platform descriptor);
          labels = ic_Labels config
      in if ic_OS config \<noteq> os \<or>
            normalizeArchitecture (ic_Architecture config) \<noteq> normalizeArchitecture arch
         then Some (Message (''config platform '' @ ic_OS config @ ''/'' @ ic_Architecture config @
                '' does not match index '' @ os @ ''/'' @ arch))
         else
           (case checkLabels sourceLabels labels sourceCommit False of
              Inl err \<Rightarrow> Some err
            | Inr hasSource \<Rightarrow>
                if \<not> hasSource then Some (Message ''image config has no recognized source label'')
                else if header_Get labels ''git.url'' \<noteq> sourceURL
                then Some (Message (''image config git.url is '' @ Quote (header_Get labels ''git.url'') @
                       '', expected MCPLO source repository''))
                else None))"

definition validatePlatformImage ::
    "'w registry_api \<Rightarrow> url \<Rightarrow> registryDescriptor \<Rightarrow> string \<Rightarrow> 'w \<Rightarrow> gerror option \<times> 'w" where
  "validatePlatformImage R base descriptor sourceCommit w =
     (if \<not> isImageMediaType (rd_MediaType descriptor) \<or> \<not> digestPattern (rd_Digest descriptor)
      then (Some (Message (''invalid child manifest digest '' @ Quote (rd_Digest descriptor))), w)
      else
        (case registryGet R base (''manifests/'' @ rd_Digest descriptor) manifestAccept w of
           (Inl err, w) \<Rightarrow> (Some err, w)
         | (Inr (body, header), w) \<Rightarrow>
             (case checkedDigest R body (header_Get header ''Docker-Content-Digest'') of
                Inl err \<Rightarrow> (Some (Message (''child manifest digest mismatch: got '' @ Quote [] @
                    '', expected '' @ Quote (rd_Digest descriptor))), w)
              | Inr got \<Rightarrow>
                  if got \<noteq> rd_Digest descriptor
                  then (Some (Message (''child manifest digest mismatch: got '' @ Quote got @
                      '', expected '' @ Quote (rd_Digest descriptor))), w)
                  else
                    (case Unmarshal R decode_manifest zero_manifest body of
                       Inl err \<Rightarrow> (Some (Wrapped ''decode child manifest'' err), w)
                     | Inr manifest \<Rightarrow>
                         if rm_SchemaVersion manifest \<noteq> 2 \<or>
                            rm_MediaType manifest \<noteq> rd_MediaType descriptor \<or>
                            \<not> isImageMediaType (rm_MediaType manifest) \<or>
                            \<not> isConfigMediaType (cd_MediaType (rm_Config manifest)) \<or>
                            \<not> digestPattern (cd_Digest (rm_Config manifest))
                         then (Some (Message ''invalid image manifest/config''), w)
                         else
                           (case registryGet R base (''blobs/'' @ cd_Digest (rm_Config manifest))
                                   ''application/octet-stream'' w of
                              (Inl err, w) \<Rightarrow> (Some err, w)
                            | (Inr (config, header), w) \<Rightarrow>
                                (case checkedDigest R config (cd_Digest (rm_Config manifest)) of
                                   Inl err \<Rightarrow> (Some (Wrapped ''image config digest mismatch'' err), w)
                                 | Inr got \<Rightarrow>
                                     if got \<noteq> cd_Digest (rm_Config manifest)
                                     then (Some (Message (''image config digest mismatch: got '' @ Quote got @
                                         '', expected '' @ Quote (cd_Digest (rm_Config manifest)))), w)
                                     else
                                       (case Unmarshal R decode_image_config zero_config config of
                                          Inl err \<Rightarrow> (Some (Wrapped ''decode image config'' err), w)
                                        | Inr img \<Rightarrow> (checkConfig img descriptor sourceCommit, w))))))))"

text \<open>The loop over the children of the index; it counts the platforms it checked.\<close>

fun checkChildren ::
    "'w registry_api \<Rightarrow> url \<Rightarrow> string \<Rightarrow> registryDescriptor list \<Rightarrow> nat \<Rightarrow> 'w \<Rightarrow> nat result \<times> 'w" where
  "checkChildren R base sourceCommit [] checked w = (Inr checked, w)"
| "checkChildren R base sourceCommit (child # children) checked w =
     (let os = pf_OS (rd_Platform child); arch = pf_Architecture (rd_Platform child)
      in if os = ''unknown'' \<and> arch = ''unknown''
         then checkChildren R base sourceCommit children checked w
         else if os = [] \<or> arch = []
         then (Inl (Message (''source-SHA image index child has incomplete platform '' @ Quote os @ ''/'' @
                Quote arch)), w)
         else
           (case validatePlatformImage R base child sourceCommit w of
              (Some err, w) \<Rightarrow> (Inl (Wrapped (''validate '' @ os @ ''/'' @ arch @ '' image'') err), w)
            | (None, w) \<Rightarrow> checkChildren R base sourceCommit children (checked + 1) w))"

definition resolveOperandImageAt ::
    "'w registry_api \<Rightarrow> string \<Rightarrow> string \<Rightarrow> 'w \<Rightarrow> string result \<times> 'w" where
  "resolveOperandImageAt R registry sourceCommit w =
     (if \<not> fullSHA sourceCommit
      then (Inl (Message (''invalid source commit '' @ Quote sourceCommit)), w)
      else
        (case ra_ParseURL R registry of
           Inl err \<Rightarrow> (Inl (Message ''invalid registry endpoint''), w)
         | Inr base \<Rightarrow>
             if url_Scheme base \<noteq> ''https'' \<and> url_Scheme base \<noteq> ''http'' \<or> url_Host base = []
             then (Inl (Message ''invalid registry endpoint''), w)
             else
               (case registryGet R base (''manifests/'' @ sourceCommit) manifestAccept w of
                  (Inl err, w) \<Rightarrow> (Inl (Wrapped (''resolve MCPLO image for '' @ sourceCommit) err), w)
                | (Inr (root, header), w) \<Rightarrow>
                    (case checkedDigest R root (header_Get header ''Docker-Content-Digest'') of
                       Inl err \<Rightarrow> (Inl (Wrapped ''validate source-SHA image manifest'' err), w)
                     | Inr rootDigest \<Rightarrow>
                         (case Unmarshal R decode_manifest zero_manifest root of
                            Inl err \<Rightarrow> (Inl (Wrapped ''decode source-SHA image manifest'' err), w)
                          | Inr manifest \<Rightarrow>
                              if rm_SchemaVersion manifest \<noteq> 2 \<or> \<not> isIndexMediaType (rm_MediaType manifest) \<or>
                                 rm_Manifests manifest = []
                              then (Inl (Message
                                     ''source-SHA image is not a nonempty OCI/Docker image index''), w)
                              else if length (rm_Manifests manifest) > 128
                              then (Inl (Message (''source-SHA image index has too many manifests: '' @
                                     Itoa (int (length (rm_Manifests manifest))))), w)
                              else
                                (case checkChildren R base sourceCommit (rm_Manifests manifest) 0 w of
                                   (Inl err, w) \<Rightarrow> (Inl err, w)
                                 | (Inr checked, w) \<Rightarrow>
                                     if checked = 0
                                     then (Inl (Message
                                            ''source-SHA image index has no runnable platform manifests''), w)
                                     else (Inr (imageRepository @ ''@'' @ rootDigest), w)))))))"

definition resolveOperandImage :: "'w registry_api \<Rightarrow> string \<Rightarrow> 'w \<Rightarrow> string result \<times> 'w" where
  "resolveOperandImage R sourceCommit w = resolveOperandImageAt R imageRegistry sourceCommit w"

end
