(* ===== verification/Source_Update.thy ===== *)
theory Source_Update
  imports Source_Pin Install Registry "HOL-Library.List_Lexorder" "HOL-Library.Char_ord"
begin

text \<open>
  tools/source-update/update.go, with restoreFile of install.go and the generation of generate.go:
  synchronising the operand sources with a commit (\<open>update\<close>), and checking that what is committed
  still matches them (\<open>verify\<close>). Every function threads the file system; \<open>update\<close> also threads the
  world of the registry.
\<close>

section \<open>Comparing trees\<close>

text \<open>
  A path relative to its root is a list of components, as every path is; its text, which \<open>filepath.Rel\<close>
  and \<open>filepath.ToSlash\<close> make, is taken where the differences are printed.
\<close>

definition rel_text :: "path \<Rightarrow> string" where
  "rel_text q = (if q = [] then ''.'' else Join q ''/'')"

text \<open>
  \<open>filepath.WalkDir\<close> visits a tree in lexical order; reading a directory or a file is a call.
\<close>

definition walk_paths :: "path \<Rightarrow> fsys \<Rightarrow> path list" where
  "walk_paths root fs = sort (filter (prefix root) (remdups (map fst (fs_nodes fs))))"

fun readTree :: "path \<Rightarrow> path list \<Rightarrow> fsys \<Rightarrow> (path \<times> go_bytes) list result \<times> fsys" where
  "readTree root [] fs = (Inr [], fs)"
| "readTree root (p # ps) fs =
     (if isDirectory fs p then
        (case next_answer fs of
           (Fails msg left, fs) \<Rightarrow> (Inl (EIO msg), fs)
         | (Works r, fs) \<Rightarrow> readTree root ps fs)
      else
        (case ReadFile p fs of
           (Inl err, fs) \<Rightarrow> (Inl err, fs)
         | (Inr data, fs) \<Rightarrow>
             (case readTree root ps fs of
                (Inl err, fs) \<Rightarrow> (Inl err, fs)
              | (Inr files, fs) \<Rightarrow> (Inr ((drop (length root) p, data) # files), fs))))"

definition treeFiles :: "path \<Rightarrow> fsys \<Rightarrow> (path \<times> go_bytes) list result \<times> fsys" where
  "treeFiles root fs =
     (case Lstat root fs of
        (Inl err, fs) \<Rightarrow> (Inl err, fs)
      | (Inr info, fs) \<Rightarrow> readTree root (walk_paths root fs) fs)"

definition diffFiles :: "(path \<times> go_bytes) list \<Rightarrow> (path \<times> go_bytes) list \<Rightarrow> string list" where
  "diffFiles want got =
     sort (List.map_filter (\<lambda>(name, data).
         case map_of got name of
           None \<Rightarrow> Some (''missing: '' @ rel_text name)
         | Some actualData \<Rightarrow> if data \<noteq> actualData then Some (''changed: '' @ rel_text name) else None) want @
       List.map_filter (\<lambda>(name, data).
         case map_of want name of None \<Rightarrow> Some (''added: '' @ rel_text name) | Some d \<Rightarrow> None) got)"

definition treeDiff :: "path \<Rightarrow> path \<Rightarrow> fsys \<Rightarrow> string list result \<times> fsys" where
  "treeDiff expected actual fs =
     (case treeFiles expected fs of
        (Inl err, fs) \<Rightarrow> (Inl err, fs)
      | (Inr want, fs) \<Rightarrow>
          (case Lstat actual fs of
             (Inr info, fs) \<Rightarrow>
               (case treeFiles actual fs of
                  (Inl err, fs) \<Rightarrow> (Inl err, fs)
                | (Inr got, fs) \<Rightarrow> (Inr (diffFiles want got), fs))
           | (Inl err, fs) \<Rightarrow>
               if \<not> IsNotExist err then (Inl err, fs) else (Inr (diffFiles want []), fs)))"

definition installerDiffers :: "path \<Rightarrow> path \<Rightarrow> fsys \<Rightarrow> bool \<times> fsys" where
  "installerDiffers actual expected fs =
     (case ReadFile actual fs of
        (actualData, fs) \<Rightarrow>
          (case ReadFile expected fs of
             (expectedData, fs) \<Rightarrow>
               (case (actualData, expectedData) of
                  (Inr a, Inr b) \<Rightarrow> (a \<noteq> b, fs)
                | _ \<Rightarrow> (True, fs))))"

section \<open>Snapshots\<close>

text \<open>\<open>Stat\<close> reads what \<open>Lstat\<close> reads, there being no symbolic links.\<close>

definition fill_and_rename :: "path \<Rightarrow> path \<Rightarrow> go_bytes \<Rightarrow> 9 word \<Rightarrow> fsys \<Rightarrow> gerror option \<times> fsys" where
  "fill_and_rename tmp p data mode fs =
     (case Write tmp data fs of
        (Some err, fs) \<Rightarrow> (Some err, snd (Close fs))
      | (None, fs) \<Rightarrow>
          (case Chmod tmp mode fs of
             (Some err, fs) \<Rightarrow> (Some err, snd (Close fs))
           | (None, fs) \<Rightarrow>
               (case Close fs of
                  (Some err, fs) \<Rightarrow> (Some err, fs)
                | (None, fs) \<Rightarrow> Rename tmp p fs)))"

text \<open>The temporary file is removed when the function returns, whether it was renamed or not.\<close>

definition restoreFile :: "path \<Rightarrow> go_bytes \<Rightarrow> 9 word \<Rightarrow> fsys \<Rightarrow> gerror option \<times> fsys" where
  "restoreFile p data mode fs =
     (case CreateTemp (filepath_Dir p) ''.operand-restore-'' fs of
        (Inl err, fs) \<Rightarrow> (Some err, fs)
      | (Inr tmp, fs) \<Rightarrow>
          (case fill_and_rename tmp p data mode fs of (result, fs) \<Rightarrow> (result, snd (Remove tmp fs))))"

record file_snapshot =
  sn_path :: path
  sn_data :: go_bytes
  sn_mode :: "9 word"
  sn_exists :: bool

definition snapshotWorkflowOutput :: "path option \<Rightarrow> fsys \<Rightarrow> file_snapshot option result \<times> fsys" where
  "snapshotWorkflowOutput filename fs =
     (case filename of
        None \<Rightarrow> (Inr None, fs)
      | Some p \<Rightarrow>
          (case ReadFile p fs of
             (Inr data, fs) \<Rightarrow>
               (case Lstat p fs of
                  (Inl statErr, fs) \<Rightarrow> (Inl statErr, fs)
                | (Inr info, fs) \<Rightarrow>
                    (Inr (Some \<lparr>sn_path = p, sn_data = data, sn_mode = node_mode info, sn_exists = True\<rparr>), fs))
           | (Inl err, fs) \<Rightarrow>
               if \<not> IsNotExist err then (Inl err, fs)
               else (Inr (Some \<lparr>sn_path = p, sn_data = [], sn_mode = 0, sn_exists = False\<rparr>), fs)))"

definition removeFile :: "path \<Rightarrow> fsys \<Rightarrow> gerror option \<times> fsys" where
  "removeFile p fs =
     (case Remove p fs of
        (None, fs) \<Rightarrow> (None, fs)
      | (Some err, fs) \<Rightarrow> (if IsNotExist err then None else Some err, fs))"

definition restoreWorkflowOutput :: "file_snapshot option \<Rightarrow> fsys \<Rightarrow> gerror option \<times> fsys" where
  "restoreWorkflowOutput snapshot fs =
     (case snapshot of
        None \<Rightarrow> (None, fs)
      | Some s \<Rightarrow>
          if sn_exists s then restoreFile (sn_path s) (sn_data s) (sn_mode s) fs
          else removeFile (sn_path s) fs)"

definition snapshotModuleFile :: "path \<Rightarrow> string \<Rightarrow> fsys \<Rightarrow> file_snapshot result \<times> fsys" where
  "snapshotModuleFile root name fs =
     (let p = root @ [name] in
      case ReadFile p fs of
        (Inl err, fs) \<Rightarrow>
          if \<not> IsNotExist err then (Inl err, fs)
          else if name = ''go.mod'' then (Inl (Wrapped ''read go.mod'' ErrNotExist), fs)
          else (Inr \<lparr>sn_path = p, sn_data = [], sn_mode = 0, sn_exists = False\<rparr>, fs)
      | (Inr data, fs) \<Rightarrow>
          (case Lstat p fs of
             (Inl err, fs) \<Rightarrow> (Inl err, fs)
           | (Inr info, fs) \<Rightarrow>
               (Inr \<lparr>sn_path = p, sn_data = data, sn_mode = node_mode info, sn_exists = True\<rparr>, fs)))"

definition snapshotModuleFiles :: "path \<Rightarrow> fsys \<Rightarrow> file_snapshot list result \<times> fsys" where
  "snapshotModuleFiles root fs =
     (case snapshotModuleFile root ''go.mod'' fs of
        (Inl err, fs) \<Rightarrow> (Inl err, fs)
      | (Inr gomod, fs) \<Rightarrow>
          (case snapshotModuleFile root ''go.sum'' fs of
             (Inl err, fs) \<Rightarrow> (Inl err, fs)
           | (Inr gosum, fs) \<Rightarrow> (Inr [gomod, gosum], fs)))"

definition restoreModuleFile :: "file_snapshot \<Rightarrow> fsys \<Rightarrow> gerror option \<times> fsys" where
  "restoreModuleFile s fs =
     (if sn_exists s then
        (case restoreFile (sn_path s) (sn_data s) (sn_mode s) fs of
           (err, fs) \<Rightarrow> (map_option (Wrapped (''restore '' @ filepath_Base (sn_path s))) err, fs))
      else
        (case removeFile (sn_path s) fs of
           (err, fs) \<Rightarrow> (map_option (Wrapped (''remove '' @ filepath_Base (sn_path s))) err, fs)))"

fun restoreEach :: "file_snapshot list \<Rightarrow> fsys \<Rightarrow> gerror option list \<times> fsys" where
  "restoreEach [] fs = ([], fs)"
| "restoreEach (s # files) fs =
     (case restoreModuleFile s fs of
        (err, fs) \<Rightarrow> (case restoreEach files fs of (errs, fs) \<Rightarrow> (err # errs, fs)))"

definition restoreModuleFiles :: "file_snapshot list \<Rightarrow> fsys \<Rightarrow> gerror option \<times> fsys" where
  "restoreModuleFiles files fs = (case restoreEach files fs of (errs, fs) \<Rightarrow> (errors_Join errs, fs))"

section \<open>Applying an update\<close>

definition rollbackUpdate :: "file_snapshot list \<Rightarrow> gerror \<Rightarrow> fsys \<Rightarrow> gerror option \<times> fsys" where
  "rollbackUpdate moduleFiles cause fs =
     (case restoreModuleFiles moduleFiles fs of (err, fs) \<Rightarrow> (errors_Join [Some cause, err], fs))"

text \<open>The commands that pin the version in go.mod, and reading the pin back.\<close>

definition pinModule :: "toolchain \<Rightarrow> path \<Rightarrow> string \<Rightarrow> fsys \<Rightarrow> gerror option \<times> fsys" where
  "pinModule T root version fs =
     (case runCommand T (Some root) False ''go''
             [''mod'', ''edit'', ''-require='' @ canonical @ ''@'' @ placeholderVersion,
              ''-replace='' @ canonical @ ''='' @ fork @ ''@'' @ version] fs of
        (Inl err, fs) \<Rightarrow> (Some err, fs)
      | (Inr out, fs) \<Rightarrow>
          (case runCommand T (Some root) False ''go'' [''mod'', ''tidy''] fs of
             (Inl err, fs) \<Rightarrow> (Some err, fs)
           | (Inr out, fs) \<Rightarrow>
               (case runCommand T (Some root) True ''go'' [''mod'', ''edit'', ''-json''] fs of
                  (Inl err, fs) \<Rightarrow> (Some err, fs)
                | (Inr modJSON, fs) \<Rightarrow>
                    (case sourcePin T modJSON of
                       Inl err \<Rightarrow> (Some err, fs)
                     | Inr pinned \<Rightarrow>
                         if pinned \<noteq> version
                         then (Some (Message ''go mod tidy changed the synchronized source pin''), fs)
                         else (None, fs)))))"

definition joined :: "gerror option list \<Rightarrow> gerror" where
  "joined errs = Joined (map the (filter (\<lambda>e. e \<noteq> None) errs))"

text \<open>Appending the outputs of the workflow step; an error is the join the code makes of it.\<close>

definition writeWorkflowOutput ::
    "path option \<Rightarrow> file_snapshot option \<Rightarrow> string \<Rightarrow> string \<Rightarrow> string \<Rightarrow> fsys \<Rightarrow> gerror option \<times> fsys" where
  "writeWorkflowOutput outputPath snapshot version commit selectedImage fs =
     (case outputPath of
        None \<Rightarrow> (None, fs)
      | Some p \<Rightarrow>
          (case OpenAppend p fs of
             (Some err, fs) \<Rightarrow>
               (case restoreWorkflowOutput snapshot fs of (rerr, fs) \<Rightarrow> (Some (joined [Some err, rerr]), fs))
           | (None, fs) \<Rightarrow>
               (case Write p (''source_commit='' @ commit @ [CHR 0x0A] @ ''source_version='' @ version @
                       [CHR 0x0A] @ ''operand_image='' @ selectedImage @ [CHR 0x0A]) fs of
                  (writeErr, fs) \<Rightarrow>
                    (case Close fs of
                       (closeErr, fs) \<Rightarrow>
                         if writeErr \<noteq> None \<or> closeErr \<noteq> None then
                           (case restoreWorkflowOutput snapshot fs of
                              (rerr, fs) \<Rightarrow> (Some (joined [writeErr, closeErr, rerr]), fs))
                         else (None, fs)))))"

definition applyUpdate ::
    "toolchain \<Rightarrow> path option \<Rightarrow> path \<Rightarrow> string \<Rightarrow> string \<Rightarrow> string \<Rightarrow> path \<Rightarrow> path \<Rightarrow> path
      \<Rightarrow> fsys \<Rightarrow> gerror option \<times> fsys" where
  "applyUpdate T outputPath root version commit selectedImage configStage installerStage pinStage fs =
     (case snapshotModuleFiles root fs of
        (Inl err, fs) \<Rightarrow> (Some err, fs)
      | (Inr moduleFiles, fs) \<Rightarrow>
          (case pinModule T root version fs of
             (Some err, fs) \<Rightarrow> rollbackUpdate moduleFiles err fs
           | (None, fs) \<Rightarrow>
               (case snapshotWorkflowOutput outputPath fs of
                  (Inl err, fs) \<Rightarrow> rollbackUpdate moduleFiles err fs
                | (Inr snapshot, fs) \<Rightarrow>
                    (case writeWorkflowOutput outputPath snapshot version commit selectedImage fs of
                       (Some err, fs) \<Rightarrow> rollbackUpdate moduleFiles err fs
                     | (None, fs) \<Rightarrow>
                         (case installOutputs root configStage installerStage pinStage fs of
                            (Some err, fs) \<Rightarrow>
                              (case restoreWorkflowOutput snapshot fs of
                                 (rerr, fs) \<Rightarrow> rollbackUpdate moduleFiles (joined [Some err, rerr]) fs)
                          | (None, fs) \<Rightarrow> (None, fs))))))"

end
