(* ===== verification/Install_Swap.thy ===== *)
theory Install_Swap
  imports Install
begin

text \<open>
  The swap of the staged outputs and its rollback. What a step may change is stated once, in the
  locale \<open>territorial\<close>: its own target and its own workspace. The loops over the entries follow from
  it, since the entries are apart.
\<close>

section \<open>Territories\<close>

text \<open>An entry works in two trees: its target and its workspace, where output and backup lie.\<close>

definition ground :: "installEntry \<Rightarrow> path set" where
  "ground e = {target e, workspace e}"

definition well_placed :: "installEntry \<Rightarrow> bool" where
  "well_placed e \<longleftrightarrow> target e \<parallel> workspace e \<and>
     output_path e = workspace e @ [''output''] \<and> backup e = workspace e @ [''backup'']"

definition apart :: "installEntry \<Rightarrow> installEntry \<Rightarrow> bool" where
  "apart e e' \<longleftrightarrow> (\<forall>p \<in> ground e. \<forall>q \<in> ground e'. p \<parallel> q)"

definition same_place :: "installEntry \<Rightarrow> installEntry \<Rightarrow> bool" where
  "same_place e e' \<longleftrightarrow> target e' = target e \<and> workspace e' = workspace e \<and>
     output_path e' = output_path e \<and> backup e' = backup e"

definition same_trees :: "installEntry \<Rightarrow> fsys \<Rightarrow> fsys \<Rightarrow> bool" where
  "same_trees e fs fs' \<longleftrightarrow> tree fs' (target e) = tree fs (target e) \<and>
     tree fs' (output_path e) = tree fs (output_path e) \<and> tree fs' (backup e) = tree fs (backup e)"

lemma same_place_refl [simp]: "same_place e e"
  by (simp add: same_place_def)

lemma same_place_ground: "same_place e e' \<Longrightarrow> ground e' = ground e \<and> (well_placed e' \<longleftrightarrow> well_placed e)"
  by (simp add: same_place_def ground_def well_placed_def)

lemma apart_sym: "apart e e' \<Longrightarrow> apart e' e"
  by (auto simp: apart_def parallel_commute)

lemma below_workspace: "t \<parallel> ws \<Longrightarrow> t \<parallel> ws @ p"
  using parallel_append [of t ws "[]" p] by simp

lemma elsewhere_same_trees:
  assumes "changes_below T fs fs'" and "well_placed e" and "\<And>t p. t \<in> T \<Longrightarrow> p \<in> ground e \<Longrightarrow> t \<parallel> p"
  shows "same_trees e fs fs'"
proof -
  have "tree fs' p = tree fs p" if "\<And>t. t \<in> T \<Longrightarrow> t \<parallel> p" for p
    using tree_unchanged [OF assms(1)] that by blast
  moreover have "t \<parallel> target e" "t \<parallel> workspace e @ p" if "t \<in> T" for t p
    using assms(3) [OF that, of "target e"] assms(3) [OF that, of "workspace e"] below_workspace
    by (simp_all add: ground_def)
  ultimately show ?thesis using assms(2) by (simp add: same_trees_def well_placed_def)
qed

locale territorial =
  fixes step :: "installEntry \<Rightarrow> fsys \<Rightarrow> 'a \<times> installEntry \<times> fsys"
    and P :: "fsys \<Rightarrow> installEntry \<Rightarrow> bool" and Q :: "fsys \<Rightarrow> 'a \<Rightarrow> installEntry \<Rightarrow> bool"
  assumes stays: "well_placed e \<Longrightarrow> step e fs = (out, e', fs') \<Longrightarrow>
      same_place e e' \<and> changes_below (ground e) fs fs'"
    and establishes: "well_placed e \<Longrightarrow> P fs e \<Longrightarrow> step e fs = (out, e', fs') \<Longrightarrow> Q fs' out e'"
    and P_frame: "P fs e \<Longrightarrow> same_trees e fs fs' \<Longrightarrow> P fs' e"
    and Q_frame: "Q fs out e \<Longrightarrow> same_trees e fs fs' \<Longrightarrow> Q fs' out e"
begin

lemma each_establishes:
  assumes "each_entry step es fs = (outs, es', fs')" and "sorted_wrt apart es"
    and "list_all well_placed es" and "list_all (P fs) es"
  shows "list_all2 (Q fs') outs es' \<and> list_all2 same_place es es' \<and>
    changes_below (\<Union> (ground ` set es)) fs fs'"
  using assms
proof (induction es arbitrary: fs outs es' fs')
  case Nil
  then show ?case by simp
next
  case (Cons e es)
  obtain out e1 fs1 where step: "step e fs = (out, e1, fs1)" by (metis prod_cases3)
  obtain outs2 es2 fs2 where rest: "each_entry step es fs1 = (outs2, es2, fs2)" by (metis prod_cases3)
  from Cons.prems(1) step rest have out: "outs = out # outs2" "es' = e1 # es2" "fs' = fs2" by simp_all
  from Cons.prems(3) stays [OF _ step] have place: "same_place e e1" and first: "changes_below (ground e) fs fs1"
    by simp_all
  have "P fs1 x" if "x \<in> set es" for x
  proof -
    from that Cons.prems(2,3) have "apart e x" and "well_placed x" by (simp_all add: list_all_iff)
    then have "same_trees x fs fs1"
      using elsewhere_same_trees [OF first] unfolding apart_def by blast
    moreover have "P fs x" using that Cons.prems(4) by (simp add: list_all_iff)
    ultimately show ?thesis by (rule P_frame [rotated])
  qed
  then have "list_all (P fs1) es" by (simp add: list_all_iff)
  with Cons.IH [OF rest] Cons.prems have IH: "list_all2 (Q fs2) outs2 es2" "list_all2 same_place es es2"
    and later: "changes_below (\<Union> (ground ` set es)) fs1 fs2" by simp_all
  have "Q fs1 out e1" using establishes [OF _ _ step] Cons.prems(3,4) by simp
  moreover have "same_trees e1 fs1 fs2"
  proof (rule elsewhere_same_trees [OF later])
    show "well_placed e1" using Cons.prems(3) same_place_ground [OF place] by simp
    fix t p assume "t \<in> \<Union> (ground ` set es)" and "p \<in> ground e1"
    then obtain x where "x \<in> set es" "t \<in> ground x" and "p \<in> ground e"
      using same_place_ground [OF place] by auto
    with Cons.prems(2) apart_sym show "t \<parallel> p" unfolding apart_def by (simp add: apart_def) blast
  qed
  ultimately have "Q fs2 out e1" by (rule Q_frame)
  with out IH place changes_below_trans [OF first later] show ?case by simp
qed

lemma each_length:
  "each_entry step es fs = (outs, es', fs') \<Longrightarrow> length outs = length es \<and> length es' = length es"
  by (induction es arbitrary: fs outs es' fs') (auto split: prod.splits)

end

section \<open>Cleaning up\<close>

lemma cleanup_stays:
  "cleanupEntry e fs = (out, e', fs') \<Longrightarrow> e' = e \<and> changes_below {workspace e} fs fs'"
  by (auto simp: cleanupEntry_def dest: RemoveAll_result(1) split: prod.splits option.splits)

text \<open>Cleaning up keeps what a target holds, whatever it is to hold.\<close>

definition holds :: "(path \<Rightarrow> path \<Rightarrow> node option) \<Rightarrow> fsys \<Rightarrow> installEntry \<Rightarrow> bool" where
  "holds content fs e \<longleftrightarrow> tree fs (target e) = content (target e)"

lemma workspace_only:
  assumes "well_placed e" and "changes_below {workspace e} fs fs'"
  shows "tree fs' (target e) = tree fs (target e)" and "changes_below (ground e) fs fs'"
  using assms tree_unchanged [OF assms(2)] changes_below_mono [OF assms(2), of "ground e"]
  by (auto simp: well_placed_def ground_def parallel_commute)

interpretation cleanup: territorial cleanupEntry "holds content" "\<lambda>fs out. holds content fs" for content
proof
  fix e e' fs fs' out
  show "same_place e e' \<and> changes_below (ground e) fs fs'"
    if "well_placed e" "cleanupEntry e fs = (out, e', fs')"
    using cleanup_stays [OF that(2)] workspace_only [OF that(1)] by auto
  show "holds content fs' e'"
    if "well_placed e" "holds content fs e" "cleanupEntry e fs = (out, e', fs')"
    using cleanup_stays [OF that(3)] workspace_only [OF that(1)] that(2) by (auto simp: holds_def)
qed (simp_all add: holds_def same_trees_def)

section \<open>Undoing\<close>

text \<open>Where the original of a target is to be found while entries are swapped.\<close>

definition recoverable :: "(path \<Rightarrow> path \<Rightarrow> node option) \<Rightarrow> fsys \<Rightarrow> installEntry \<Rightarrow> bool" where
  "recoverable before fs e \<longleftrightarrow>
     (if backedUp e then tree fs (backup e) = before (target e)
      else if installed e then before (target e) = no_tree
      else tree fs (target e) = before (target e))"

text \<open>And after the entry was undone, as far as that went.\<close>

definition safe :: "(path \<Rightarrow> path \<Rightarrow> node option) \<Rightarrow> fsys \<Rightarrow> installEntry \<Rightarrow> bool" where
  "safe before fs e \<longleftrightarrow> tree fs (target e) = before (target e) \<or>
     backedUp e \<and> tree fs (backup e) = before (target e) \<or> before (target e) = no_tree"

definition undone :: "(path \<Rightarrow> path \<Rightarrow> node option) \<Rightarrow> fsys \<Rightarrow> string list \<Rightarrow> installEntry \<Rightarrow> bool" where
  "undone before fs details e \<longleftrightarrow> safe before fs e \<and> (details = [] \<longrightarrow> holds before fs e)"

lemma backup_apart: "well_placed e \<Longrightarrow> backup e \<parallel> target e \<and> output_path e \<parallel> target e"
  using below_workspace [of "target e" "workspace e"] by (simp add: well_placed_def parallel_commute)

lemma in_ground:
  assumes "well_placed e" and "changes_below T fs fs'" and "T \<subseteq> {target e, output_path e, backup e}"
  shows "changes_below (ground e) fs fs'"
proof (rule changes_below_narrow [OF assms(2)])
  fix t assume "t \<in> T"
  with assms(1,3) show "\<exists>t' \<in> ground e. prefix t' t"
    by (auto simp: well_placed_def ground_def)
qed

text \<open>The two steps of undoing an entry: removing what was installed, restoring the backup.\<close>

lemma remove_installed:
  assumes "well_placed e" and "(if installed e then RemoveAll (target e) fs else (None, fs)) = (r, fs1)"
  shows "changes_below (ground e) fs fs1" and "tree fs1 (backup e) = tree fs (backup e)"
    and "r = None \<Longrightarrow> tree fs1 (target e) = (if installed e then no_tree else tree fs (target e))"
    and "r \<noteq> None \<Longrightarrow> installed e"
proof -
  have below: "changes_below {target e} fs fs1"
    using assms(2) by (auto split: if_splits dest: RemoveAll_result(1))
  then show "changes_below (ground e) fs fs1" by (rule in_ground [OF assms(1)]) simp
  show "tree fs1 (backup e) = tree fs (backup e)"
    using tree_unchanged [OF below] backup_apart [OF assms(1)] by (simp add: parallel_commute)
  show "tree fs1 (target e) = (if installed e then no_tree else tree fs (target e))" if "r = None"
    using assms(2) that RemoveAll_result(3) by (auto split: if_splits)
  show "installed e" if "r \<noteq> None" using assms(2) that by (auto split: if_splits)
qed

lemma rollback_stays:
  assumes "well_placed e" and "rollbackEntry e fs = (out, e', fs')"
  shows "same_place e e' \<and> changes_below (ground e) fs fs'"
proof -
  obtain r fs1 where remove: "(if installed e then RemoveAll (target e) fs else (None, fs)) = (r, fs1)"
    by fastforce
  obtain r2 fs2 where restore: "Rename (backup e) (target e) fs1 = (r2, fs2)" by fastforce
  note first = remove_installed(1) [OF assms(1) remove]
  have "changes_below (ground e) fs1 fs2"
    using in_ground [OF assms(1) Rename_result(1) [OF _ restore]] backup_apart [OF assms(1)] by simp
  from changes_below_trans [OF first this] have "changes_below (ground e) fs fs2" by simp
  with first assms(2) remove restore show ?thesis
    by (auto simp: rollbackEntry_def same_place_def split: option.splits if_splits)
qed

lemma rollback_establishes:
  assumes "well_placed e" and "recoverable before fs e" and "rollbackEntry e fs = (out, e', fs')"
  shows "undone before fs' out e'"
proof -
  obtain r fs1 where remove: "(if installed e then RemoveAll (target e) fs else (None, fs)) = (r, fs1)"
    by fastforce
  obtain r2 fs2 where restore: "Rename (backup e) (target e) fs1 = (r2, fs2)" by fastforce
  note first = remove_installed(2-4) [OF assms(1) remove]
  note second = Rename_result(3,4) [OF conjunct1 [OF backup_apart [OF assms(1)]] restore]
  show ?thesis
  proof (cases r)
    case (Some err)
    with assms(3) remove have "out \<noteq> []" "e' = e" "fs' = fs1"
      by (auto simp: rollbackEntry_def)
    with first Some assms(2) show ?thesis
      by (auto simp: undone_def safe_def recoverable_def split: if_splits)
  next
    case None
    show ?thesis
    proof (cases "backedUp e")
      case False
      with None assms(3) remove have "out = []" "e' = e" "fs' = fs1" by (auto simp: rollbackEntry_def)
      with first None False assms(2) show ?thesis
        by (auto simp: undone_def safe_def recoverable_def holds_def)
    next
      case True
      show ?thesis
      proof (cases r2)
        case (Some err)
        with True None assms(3) remove restore have "out \<noteq> []" "e' = e" "fs' = fs2"
          by (auto simp: rollbackEntry_def)
        moreover have "tree fs2 = tree fs1" using second(2) Some tree_same by blast
        ultimately show ?thesis
          using first True assms(2) by (simp add: undone_def safe_def recoverable_def)
      next
        case r2: None
        with True None assms(3) remove restore have "out = []" "e' = e\<lparr>backedUp := False\<rparr>" "fs' = fs2"
          by (auto simp: rollbackEntry_def)
        moreover have "tree fs2 (target e) = tree fs1 (backup e)" using second(1) r2 .
        ultimately show ?thesis
          using first True assms(2) by (simp add: undone_def safe_def recoverable_def holds_def)
      qed
    qed
  qed
qed

interpretation rollback: territorial rollbackEntry "recoverable before" "undone before" for before
proof
  fix e e' fs fs' out
  show "same_place e e' \<and> changes_below (ground e) fs fs'"
    if "well_placed e" "rollbackEntry e fs = (out, e', fs')"
    using that by (rule rollback_stays)
  show "undone before fs' out e'"
    if "well_placed e" "recoverable before fs e" "rollbackEntry e fs = (out, e', fs')"
    using that by (rule rollback_establishes)
qed (simp_all add: recoverable_def undone_def safe_def holds_def same_trees_def)

section \<open>A rollback\<close>

lemma cleanup_restored_stays:
  "cleanupRestored e fs = (out, e', fs') \<Longrightarrow> e' = e \<and>
     (if backedUp e then fs' = fs else changes_below {workspace e} fs fs')"
  by (auto simp: cleanupRestored_def cleanupEntries_def dest: cleanup_stays
      split: if_splits prod.splits option.splits)

interpretation kept_safe: territorial cleanupRestored "safe before" "\<lambda>fs out. safe before fs" for before
proof
  fix e e' fs fs' out
  assume place: "well_placed e" and run: "cleanupRestored e fs = (out, e', fs')"
  show "same_place e e' \<and> changes_below (ground e) fs fs'"
    using cleanup_restored_stays [OF run] workspace_only(2) [OF place] by (auto split: if_splits)
  show "safe before fs' e'" if "safe before fs e"
    using cleanup_restored_stays [OF run] workspace_only(1) [OF place] that
    by (auto simp: safe_def split: if_splits)
qed (simp_all add: safe_def same_trees_def)

interpretation kept_held: territorial cleanupRestored "holds before" "\<lambda>fs out. holds before fs" for before
proof
  fix e e' fs fs' out
  assume place: "well_placed e" and run: "cleanupRestored e fs = (out, e', fs')"
  show "same_place e e' \<and> changes_below (ground e) fs fs'"
    using place run by (rule kept_safe.stays)
  show "holds before fs' e'" if "holds before fs e"
    using cleanup_restored_stays [OF run] workspace_only(1) [OF place] that
    by (auto simp: holds_def split: if_splits)
qed (simp_all add: holds_def same_trees_def)

text \<open>The error that says that an original is still at its backup, or that something was left over.\<close>

definition rollback_incomplete :: "gerror \<Rightarrow> bool" where
  "rollback_incomplete err \<longleftrightarrow> (\<exists>cause recovery. recovery \<noteq> [] \<and>
     err = Message (Error cause @ ''; rollback incomplete: '' @ Join recovery ''; ''))"

definition rolled_back :: "(path \<Rightarrow> path \<Rightarrow> node option) \<Rightarrow> fsys \<Rightarrow> gerror \<Rightarrow> installEntry \<Rightarrow> bool" where
  "rolled_back before fs err e \<longleftrightarrow> holds before fs e \<or>
     rollback_incomplete err \<and> (tree fs (backup e) = before (target e) \<or> before (target e) = no_tree)"

lemma same_places_sorted:
  assumes "list_all2 same_place es es'"
  shows "(sorted_wrt apart es \<longrightarrow> sorted_wrt apart es') \<and> (list_all well_placed es \<longrightarrow> list_all well_placed es') \<and>
    \<Union> (ground ` set es') = \<Union> (ground ` set es)"
  using assms
proof (induction es es' rule: list_all2_induct)
  case (Cons e es e' es')
  from Cons.hyps(1) have g: "ground e' = ground e" "well_placed e' = well_placed e"
    using same_place_ground by auto
  have "apart e' x" if "\<forall>x\<in>set es. apart e x" and "x \<in> set es'" for x
  proof -
    obtain y where "y \<in> set es" and "same_place y x" using list_all2_source [OF Cons.hyps(2) \<open>x \<in> set es'\<close>] by blast
    with that(1) g same_place_ground [OF \<open>same_place y x\<close>] show ?thesis by (simp add: apart_def)
  qed
  with Cons.IH g show ?case by auto
qed simp

lemma sorted_apart_rev: "sorted_wrt apart es \<Longrightarrow> sorted_wrt apart (rev es)"
  using apart_sym by (simp add: sorted_wrt_rev) (metis sorted_wrt_mono_rel)

lemma rollback_install:
  assumes "rollbackInstall es cause fs = (err, fs')" and "sorted_wrt apart es"
    and "list_all well_placed es" and "list_all (recoverable before fs) es"
  shows "changes_below (\<Union> (ground ` set es)) fs fs' \<and> list_all (rolled_back before fs' err) es"
proof -
  obtain details es1 fs1 where undo: "each_entry rollbackEntry (rev es) fs = (details, es1, fs1)"
    by (metis prod_cases3)
  obtain details' es2 fs2 where clean: "each_entry cleanupRestored (rev es1) fs1 = (details', es2, fs2)"
    by (metis prod_cases3)
  have U: "list_all2 (undone before fs1) details es1" and S1: "list_all2 same_place (rev es) es1"
    and C1: "changes_below (\<Union> (ground ` set es)) fs fs1"
    using rollback.each_establishes [OF undo sorted_apart_rev, of before] assms(2-4) by simp_all
  have es1: "sorted_wrt apart (rev es1)" "list_all well_placed (rev es1)"
      "\<Union> (ground ` set (rev es1)) = \<Union> (ground ` set es)"
    using same_places_sorted [OF S1] sorted_apart_rev assms(2,3) by simp_all
  have "list_all (safe before fs1) (rev es1)"
    using list_all2_source [OF U] by (auto simp: list_all_iff undone_def)
  from kept_safe.each_establishes [OF clean es1(1,2) this]
  have safe: "safe before fs2 e" if "e \<in> set es2" for e
    using list_all2_source [OF _ that] by blast
  from kept_safe.each_establishes [OF clean es1(1,2) \<open>list_all (safe before fs1) (rev es1)\<close>]
  have S2: "list_all2 same_place (rev es1) es2" and C2: "changes_below (\<Union> (ground ` set es)) fs1 fs2"
    using es1(3) by simp_all
  have held: "holds before fs2 e" if "e \<in> set es2" and "concat details = []" for e
  proof -
    have "list_all (holds before fs1) (rev es1)"
      using list_all2_source [OF U] that(2) by (fastforce simp: list_all_iff undone_def)
    from kept_held.each_establishes [OF clean es1(1,2) this] show ?thesis
      using list_all2_source [OF _ that(1)] by blast
  qed
  have result: "fs' = fs2" "err = (if concat details @ concat details' = [] then cause else
      Message (Error cause @ ''; rollback incomplete: '' @ Join (concat details @ concat details') ''; ''))"
    using assms(1) undo clean by (auto simp: rollbackInstall_def Let_def split: if_splits)
  have "rolled_back before fs' err e" if "e \<in> set es" for e
  proof -
    obtain e1 where "e1 \<in> set es1" and "same_place e e1"
      using list_all2_target [OF S1, of e] \<open>e \<in> set es\<close> by auto
    moreover obtain e2 where "e2 \<in> set es2" and "same_place e1 e2"
      using list_all2_target [OF S2, of e1] \<open>e1 \<in> set es1\<close> by auto
    moreover
    have "rolled_back before fs2 err e2"
    proof (cases "concat details @ concat details' = []")
      case True
      with held [OF \<open>e2 \<in> set es2\<close>] show ?thesis by (simp add: rolled_back_def)
    next
      case False
      have "err = Message (Error cause @ ''; rollback incomplete: '' @
          Join (concat details @ concat details') ''; '')"
        unfolding result(2) by (rule if_not_P [OF False])
      with False have "rollback_incomplete err" unfolding rollback_incomplete_def by blast
      with safe [OF \<open>e2 \<in> set es2\<close>] show ?thesis
        by (auto simp: rolled_back_def safe_def holds_def)
    qed
    ultimately show ?thesis using result(1) by (simp add: rolled_back_def holds_def same_place_def)
  qed
  with changes_below_trans [OF C1 C2] result(1) show ?thesis by (simp add: list_all_iff)
qed

section \<open>A swap\<close>

text \<open>An entry before its turn, and after it.\<close>

definition ready ::
    "(path \<Rightarrow> path \<Rightarrow> node option) \<Rightarrow> (path \<Rightarrow> path \<Rightarrow> node option) \<Rightarrow> fsys \<Rightarrow> installEntry \<Rightarrow> bool" where
  "ready before after fs e \<longleftrightarrow> \<not> backedUp e \<and> \<not> installed e \<and> holds before fs e \<and>
     (before (target e) [] = None \<longrightarrow> before (target e) = no_tree) \<and>
     tree fs (output_path e) = after (target e)"

definition swapped ::
    "(path \<Rightarrow> path \<Rightarrow> node option) \<Rightarrow> (path \<Rightarrow> path \<Rightarrow> node option) \<Rightarrow> fsys
      \<Rightarrow> gerror option \<Rightarrow> installEntry \<Rightarrow> bool" where
  "swapped before after fs out e \<longleftrightarrow> recoverable before fs e \<and> (out = None \<longrightarrow> holds after fs e)"

lemma ready_recoverable: "ready before after fs e \<Longrightarrow> recoverable before fs e"
  by (simp add: ready_def recoverable_def holds_def)

lemma install_renamed:
  assumes "well_placed e" and "Rename (output_path e) (target e) fs = (r, fs')"
  shows "changes_below (ground e) fs fs'" and "tree fs' (backup e) = tree fs (backup e)"
    and "r = None \<Longrightarrow> tree fs' (target e) = tree fs (output_path e)"
    and "r = Some err \<Longrightarrow> tree fs' = tree fs"
proof -
  have ot: "output_path e \<parallel> target e" using backup_apart [OF assms(1)] by simp
  note ren = Rename_result [OF ot assms(2)]
  show "changes_below (ground e) fs fs'" by (rule in_ground [OF assms(1) ren(1)]) simp
  have "output_path e \<parallel> backup e" using assms(1) by (simp add: well_placed_def parallel_def)
  moreover have "target e \<parallel> backup e" using backup_apart [OF assms(1)] by (simp add: parallel_commute)
  ultimately show "tree fs' (backup e) = tree fs (backup e)"
    by (intro tree_unchanged [OF ren(1)]) auto
  show "tree fs' (target e) = tree fs (output_path e)" if "r = None" using ren(3) [OF that] .
  show "tree fs' = tree fs" if "r = Some err" using ren(4) [OF that] tree_same by blast
qed

lemma backup_renamed:
  assumes "well_placed e" and "Rename (target e) (backup e) fs = (r, fs')"
  shows "changes_below (ground e) fs fs'" and "tree fs' (output_path e) = tree fs (output_path e)"
    and "r = None \<Longrightarrow> tree fs' (backup e) = tree fs (target e)"
    and "r = Some err \<Longrightarrow> tree fs' = tree fs"
proof -
  have tb: "target e \<parallel> backup e" using backup_apart [OF assms(1)] by (simp add: parallel_commute)
  note ren = Rename_result [OF tb assms(2)]
  show "changes_below (ground e) fs fs'" by (rule in_ground [OF assms(1) ren(1)]) simp
  have "backup e \<parallel> output_path e" using assms(1) by (simp add: well_placed_def parallel_def)
  moreover have "target e \<parallel> output_path e" using backup_apart [OF assms(1)] by (simp add: parallel_commute)
  ultimately show "tree fs' (output_path e) = tree fs (output_path e)"
    by (intro tree_unchanged [OF ren(1)]) auto
  show "tree fs' (backup e) = tree fs (target e)" if "r = None" using ren(3) [OF that] .
  show "tree fs' = tree fs" if "r = Some err" using ren(4) [OF that] tree_same by blast
qed

lemma install_at:
  assumes "well_placed e" and "installEntryAt e fs = (out, e', fs')" and "\<not> installed e"
    and "tree fs (output_path e) = after (target e)"
    and "if backedUp e then tree fs (backup e) = before (target e)
      else tree fs (target e) = before (target e) \<and> before (target e) = no_tree"
  shows "same_place e e' \<and> changes_below (ground e) fs fs' \<and> swapped before after fs' out e'"
proof -
  obtain r fs1 where ren: "Rename (output_path e) (target e) fs = (r, fs1)" by fastforce
  note facts = install_renamed [OF assms(1) ren]
  show ?thesis
  proof (cases r)
    case None
    with assms(2) ren have "out = None" "e' = e\<lparr>installed := True\<rparr>" "fs' = fs1"
      by (simp_all add: installEntryAt_def)
    with facts None assms(4,5) show ?thesis
      by (simp add: same_place_def swapped_def recoverable_def holds_def split: if_splits)
  next
    case (Some err)
    with assms(2) ren have "out \<noteq> None" "e' = e" "fs' = fs1" by (auto simp: installEntryAt_def)
    with facts Some assms(3,5) show ?thesis
      by (simp add: swapped_def recoverable_def split: if_splits)
  qed
qed

lemma swap_entry:
  assumes "well_placed e" and "ready before after fs e" and "swapEntry e fs = (out, e', fs')"
  shows "same_place e e' \<and> changes_below (ground e) fs fs' \<and> swapped before after fs' out e'"
proof -
  obtain info fs1 where lstat: "Lstat (target e) fs = (info, fs1)" by fastforce
  have same: "node_at fs1 = node_at fs" by (rule Lstat_result(1) [OF lstat])
  have trees: "tree fs1 = tree fs" and below: "changes_below T fs fs1" for T
    by (rule tree_same [OF same], rule changes_below_same [OF same])
  have ready: "\<not> backedUp e" "\<not> installed e" "tree fs1 (target e) = before (target e)"
      "tree fs1 (output_path e) = after (target e)"
    using assms(2) trees by (simp_all add: ready_def holds_def)
  have kept: "swapped before after fs1 (Some err) e" for err
    using ready by (simp add: swapped_def recoverable_def)
  show ?thesis
  proof (cases info)
    case (Inl err)
    show ?thesis
    proof (cases "IsNotExist err")
      case False
      with Inl lstat assms(3) below kept show ?thesis by (auto simp: swapEntry_def)
    next
      case True
      have "before (target e) [] = None"
        using Lstat_result(4) [OF lstat Inl True] fun_cong [OF ready(3), of "[]"] same by (simp add: tree_def)
      then have "before (target e) = no_tree" using assms(2) by (simp add: ready_def)
      moreover have "installEntryAt e fs1 = (out, e', fs')"
        using Inl True lstat assms(3) by (simp add: swapEntry_def)
      ultimately have "same_place e e' \<and> changes_below (ground e) fs1 fs' \<and> swapped before after fs' out e'"
        using install_at [OF assms(1)] ready by auto
      with changes_below_trans [OF below [of "ground e"]] show ?thesis by (metis sup.idem)
    qed
  next
    case (Inr node)
    obtain r fs2 where ren: "Rename (target e) (backup e) fs1 = (r, fs2)" by fastforce
    note facts = backup_renamed [OF assms(1) ren]
    have below2: "changes_below (ground e) fs fs2"
      using changes_below_trans [OF below facts(1), of "ground e"] by simp
    show ?thesis
    proof (cases r)
      case (Some err)
      with Inr lstat ren assms(3) have "out \<noteq> None" "e' = e" "fs' = fs2" by (auto simp: swapEntry_def)
      with facts(4) [OF Some] below2 ready show ?thesis by (auto simp: swapped_def recoverable_def)
    next
      case None
      let ?e = "e\<lparr>backedUp := True\<rparr>"
      have "installEntryAt ?e fs2 = (out, e', fs')"
        using Inr None lstat ren assms(3) by (simp add: swapEntry_def)
      moreover have "well_placed ?e" using assms(1) by (simp add: well_placed_def)
      ultimately have "same_place ?e e' \<and> changes_below (ground ?e) fs2 fs' \<and> swapped before after fs' out e'"
        using install_at [of ?e fs2 out e' fs' after before] facts(2,3) None ready by simp
      then have "same_place e e'" and "changes_below (ground e) fs2 fs'" and "swapped before after fs' out e'"
        by (simp_all add: same_place_def ground_def)
      with changes_below_trans [OF below2] show ?thesis by (metis sup.idem)
    qed
  qed
qed

text \<open>What an entry finds in its trees is not touched by the turn of another.\<close>

lemma entry_frames:
  assumes "same_trees e fs fs'"
  shows "ready before after fs e \<Longrightarrow> ready before after fs' e"
    and "recoverable before fs e \<Longrightarrow> recoverable before fs' e"
    and "holds after fs e \<Longrightarrow> holds after fs' e"
  using assms by (simp_all add: ready_def recoverable_def holds_def same_trees_def)

definition in_place ::
    "(path \<Rightarrow> path \<Rightarrow> node option) \<Rightarrow> (path \<Rightarrow> path \<Rightarrow> node option) \<Rightarrow> fsys \<Rightarrow> installEntry \<Rightarrow> bool" where
  "in_place before after fs e \<longleftrightarrow> recoverable before fs e \<and> holds after fs e"

lemma in_place_frame: "same_trees e fs fs' \<Longrightarrow> in_place before after fs e \<Longrightarrow> in_place before after fs' e"
  using entry_frames(2,3) by (auto simp: in_place_def)

definition swap_outcome ::
    "(path \<Rightarrow> path \<Rightarrow> node option) \<Rightarrow> (path \<Rightarrow> path \<Rightarrow> node option) \<Rightarrow> gerror option \<Rightarrow> fsys
      \<Rightarrow> installEntry \<Rightarrow> bool" where
  "swap_outcome before after r fs e \<longleftrightarrow>
     (case r of None \<Rightarrow> holds after fs e | Some err \<Rightarrow> rolled_back before fs err e)"

lemma swap_outcome_place: "same_place e e' \<Longrightarrow> swap_outcome before after r fs e' = swap_outcome before after r fs e"
  by (simp add: swap_outcome_def rolled_back_def holds_def same_place_def split: option.split)

lemma swap_entries:
  assumes "swapEntries ss es fs = (r, fs')" and "sorted_wrt apart (ss @ es)"
    and "list_all well_placed (ss @ es)"
    and "list_all (in_place before after fs) ss" and "list_all (ready before after fs) es"
  shows "changes_below (\<Union> (ground ` set (ss @ es))) fs fs' \<and>
    list_all (swap_outcome before after r fs') (ss @ es)"
  using assms
proof (induction es arbitrary: ss fs)
  case Nil
  obtain errs ss' fs1 where clean: "each_entry cleanupEntry ss fs = (errs, ss', fs1)" by (metis prod_cases3)
  with Nil.prems(1) have r: "r = None" "fs' = fs1" by (auto simp: cleanupEntries_def)
  have "list_all (holds after fs) ss" using Nil.prems(4) by (simp add: list_all_iff in_place_def)
  with cleanup.each_establishes [OF clean, of after] Nil.prems(2,3)
  have S: "list_all2 (\<lambda>out. holds after fs1) errs ss'" "list_all2 same_place ss ss'"
    and below: "changes_below (\<Union> (ground ` set ss)) fs fs1" by simp_all
  have "holds after fs1 e" if "e \<in> set ss" for e
  proof -
    obtain e' where "e' \<in> set ss'" "same_place e e'" using list_all2_target [OF S(2)] \<open>e \<in> set ss\<close> by blast
    moreover from this have "holds after fs1 e'" using list_all2_source [OF S(1)] by blast
    ultimately show ?thesis by (simp add: holds_def same_place_def)
  qed
  with below r show ?case by (simp add: list_all_iff swap_outcome_def)
next
  case (Cons e es)
  obtain out e' fs1 where swap: "swapEntry e fs = (out, e', fs1)" by (metis prod_cases3)
  from Cons.prems(3,5) have "well_placed e" "ready before after fs e" by simp_all
  from swap_entry [OF this swap] have place: "same_place e e'" and below: "changes_below (ground e) fs fs1"
    and turned: "swapped before after fs1 out e'" by simp_all
  have others: "same_trees x fs fs1" if "x \<in> set ss \<union> set es" for x
  proof (rule elsewhere_same_trees [OF below])
    show "well_placed x" using Cons.prems(3) that by (auto simp: list_all_iff)
    show "t \<parallel> p" if "t \<in> ground e" "p \<in> ground x" for t p
    proof -
      have "apart e x" using Cons.prems(2) \<open>x \<in> set ss \<union> set es\<close> apart_sym by (auto simp: sorted_wrt_append)
      with that show ?thesis by (simp add: apart_def)
    qed
  qed
  have ss: "list_all (in_place before after fs1) ss"
    by (rule list.pred_mono_strong [OF Cons.prems(4)]) (use others in_place_frame in blast)
  have "list_all (ready before after fs) es" using Cons.prems(5) by simp
  then have es: "list_all (ready before after fs1) es"
    by (rule list.pred_mono_strong) (use others entry_frames(1) in blast)
  have moved: "list_all2 same_place (ss @ e # es) (ss @ e' # es)"
    by (intro list_all2_appendI list_all2_Cons [THEN iffD2] conjI place list_all2_refl) simp_all
  note shape = same_places_sorted [OF moved]
  have shape: "sorted_wrt apart (ss @ e' # es)" "list_all well_placed (ss @ e' # es)"
      "\<Union> (ground ` set (ss @ e' # es)) = \<Union> (ground ` set (ss @ e # es))"
    using same_places_sorted [OF moved] Cons.prems(2,3) by simp_all
  have rest: "changes_below (\<Union> (ground ` set (ss @ e' # es))) fs1 fs' \<and>
      list_all (swap_outcome before after r fs') (ss @ e' # es)"
  proof (cases out)
    case None
    have "swapEntries (ss @ [e']) es fs1 = (r, fs')" using Cons.prems(1) swap None by simp
    moreover have "list_all (in_place before after fs1) (ss @ [e'])"
      using ss turned None by (simp add: in_place_def swapped_def)
    ultimately show ?thesis using Cons.IH [of "ss @ [e']" fs1] shape(1,2) es by simp
  next
    case (Some cause)
    obtain err where roll: "rollbackInstall (ss @ e' # es) cause fs1 = (err, fs')" and "r = Some err"
      using Cons.prems(1) swap Some by (auto split: prod.splits)
    have "list_all (recoverable before fs1) (ss @ e' # es)"
      using ss es turned ready_recoverable by (auto simp: list_all_iff in_place_def swapped_def)
    from rollback_install [OF roll shape(1,2) this] \<open>r = Some err\<close> show ?thesis
      by (simp add: swap_outcome_def list_all_iff)
  qed
  have "changes_below (\<Union> (ground ` set (ss @ e # es))) fs fs1"
    by (rule changes_below_mono [OF below]) auto
  from changes_below_trans [OF this conjunct1 [OF rest]] shape(3) rest swap_outcome_place [OF place]
  show ?case by simp
qed

end
