(* ===== verification/Install_Spec.thy ===== *)
theory Install_Spec
  imports Install_Swap
begin

text \<open>
  Staging, and the installation as a whole: it happens completely or not at all, as long as the
  rollback does not fail itself, and an original is never lost.
\<close>

section \<open>Staging leaves everything in place\<close>

definition workspaceAt :: "path \<Rightarrow> string \<Rightarrow> path" where
  "workspaceAt t name = filepath_Dir t @ [''.operand-install-'' @ name]"

text \<open>The targets and the workspaces beside them are apart.\<close>

definition layout :: "path set \<Rightarrow> bool" where
  "layout T \<longleftrightarrow> (\<forall>t \<in> T. \<forall>u \<in> T. \<forall>m n.
     (t \<noteq> u \<longrightarrow> t \<parallel> u \<and> workspaceAt t m \<parallel> workspaceAt u n) \<and> t \<parallel> workspaceAt u n)"

text \<open>
  From one file system to the next, a call changes what lies below \<open>W\<close> and adds directories above
  targets, and nothing else.
\<close>

definition grows :: "path set \<Rightarrow> path set \<Rightarrow> fsys \<Rightarrow> fsys \<Rightarrow> bool" where
  "grows T W fs fs' \<longleftrightarrow> (\<forall>p. (\<forall>w \<in> W. \<not> prefix w p) \<longrightarrow> node_at fs' p = node_at fs p \<or>
     node_at fs p = None \<and> (\<exists>t \<in> T. prefix p (filepath_Dir t)))"

lemma grows_trans: "grows T W fs fs' \<Longrightarrow> grows T W' fs' fs'' \<Longrightarrow> grows T (W \<union> W') fs fs''"
  unfolding grows_def by (metis UnCI)

lemma grows_mono: "grows T W fs fs' \<Longrightarrow> W \<subseteq> W' \<Longrightarrow> grows T W' fs fs'"
  unfolding grows_def by blast

lemma changes_grows: "changes_below W fs fs' \<Longrightarrow> grows T W fs fs'"
  by (simp add: changes_below_def grows_def)

lemma grows_tree:
  assumes "grows T W fs fs'" and "\<And>w. w \<in> W \<Longrightarrow> w \<parallel> p" and "\<And>t. t \<in> T \<Longrightarrow> \<not> prefix p (filepath_Dir t)"
  shows "tree fs' p = tree fs p"
proof
  fix q
  have "\<not> prefix w (p @ q)" if "w \<in> W" for w using assms(2) [OF that] by (rule prefix_apart)
  moreover have "\<not> prefix (p @ q) (filepath_Dir t)" if "t \<in> T" for t
    using assms(3) [OF that] by (meson prefixI prefix_order.trans)
  ultimately show "tree fs' p q = tree fs p q" using assms(1) unfolding grows_def tree_def by metis
qed

lemma grows_keeps:
  assumes "grows T W fs fs'" and "rooted fs" and "\<And>w. w \<in> W \<Longrightarrow> node_at fs w = None" and "node_at fs p \<noteq> None"
  shows "node_at fs' p = node_at fs p"
proof -
  have "\<not> prefix w p" if "w \<in> W" for w
  proof
    assume "prefix w p"
    then obtain q where "p = w @ q" by (rule prefixE)
    with assms(2) assms(3) [OF that] have "node_at fs p = None" by (simp add: rooted_def)
    with assms(4) show False by contradiction
  qed
  with spec [OF assms(1) [unfolded grows_def], of p] assms(4) show ?thesis by auto
qed

lemma layout_apart:
  assumes "layout T" and "t \<in> T" and "u \<in> T"
  shows "t \<parallel> workspaceAt u n" and "t \<noteq> u \<Longrightarrow> t \<parallel> u" and "t \<noteq> u \<Longrightarrow> workspaceAt t m \<parallel> workspaceAt u n"
  using assms by (auto simp: layout_def)

lemma dir_prefix: "prefix (filepath_Dir t) t"
  unfolding filepath_Dir_def by (cases t rule: rev_cases) simp_all

lemma above_not_below:
  assumes "layout T" and "t \<in> T" and "u \<in> T"
  shows "\<not> prefix (workspaceAt u n) (filepath_Dir t)" and "\<not> prefix (workspaceAt u n @ q) (filepath_Dir t)"
proof -
  have "t \<parallel> workspaceAt u n" using layout_apart(1) assms by blast
  then show "\<not> prefix (workspaceAt u n) (filepath_Dir t)"
    using dir_prefix prefix_order.trans unfolding parallel_def by blast
  then show "\<not> prefix (workspaceAt u n @ q) (filepath_Dir t)" by (meson prefixI prefix_order.trans)
qed

text \<open>What a staged copy holds of its source.\<close>

definition written_node :: "9 word \<Rightarrow> node \<Rightarrow> node" where
  "written_node umask n =
     (case n of Directory \<Rightarrow> Directory | Regular data mode \<Rightarrow> Regular data (mode AND NOT umask))"

definition copied_tree :: "9 word \<Rightarrow> bool \<Rightarrow> (path \<Rightarrow> node option) \<Rightarrow> path \<Rightarrow> node option" where
  "copied_tree umask dir T =
     (if dir then (\<lambda>q. map_option (copied_node umask) (T q))
      else (\<lambda>q. if q = [] then map_option (written_node umask) (T []) else None))"

lemma copyFile_result:
  assumes "copyFile source dest fs = (r, fs')"
  shows "fs_umask fs' = fs_umask fs" and "p \<noteq> dest \<Longrightarrow> node_at fs' p = node_at fs p"
    and "r = None \<Longrightarrow> tree fs dest = no_tree \<Longrightarrow> tree fs' dest = copied_tree (fs_umask fs) False (tree fs source)"
proof -
  obtain data fs1 where read: "ReadFile source fs = (data, fs1)" by fastforce
  obtain info fs2 where stat: "Lstat source fs1 = (info, fs2)" by fastforce
  have same: "node_at fs1 = node_at fs" "node_at fs2 = node_at fs" "fs_umask fs2 = fs_umask fs" "fs_umask fs1 = fs_umask fs"
    using ReadFile_result(1,2) [OF read] Lstat_result(1,2) [OF stat] by simp_all
  have ends: "r \<noteq> None \<and> (fs' = fs1 \<or> fs' = fs2) \<or>
      (\<exists>d i. data = Inr d \<and> info = Inr i \<and> WriteFile dest d (node_mode i) fs2 = (r, fs'))"
    using assms read stat by (auto simp: copyFile_def split: sum.splits prod.splits)
  then show "fs_umask fs' = fs_umask fs" using same WriteFile_result(1) by metis
  show "node_at fs' p = node_at fs p" if "p \<noteq> dest" using ends same WriteFile_result(2) that by metis
  show "tree fs' dest = copied_tree (fs_umask fs) False (tree fs source)"
    if "r = None" and "tree fs dest = no_tree"
  proof
    fix q
    obtain d i where d: "data = Inr d" and i: "info = Inr i" and w: "WriteFile dest d (node_mode i) fs2 = (r, fs')"
      using ends \<open>r = None\<close> by auto
    obtain mode where "node_at fs source = Some (Regular d mode)" using ReadFile_result(3) [OF read d] by blast
    moreover have "node_at fs source = Some i" using Lstat_result(3) [OF stat i] same by simp
    moreover have absent: "node_at fs (dest @ q) = None" for q
      using fun_cong [OF that(2), of q] by (simp add: tree_def no_tree_def)
    ultimately show "tree fs' dest q = copied_tree (fs_umask fs) False (tree fs source) q"
      using WriteFile_result(2) [OF w, of "dest @ q"] WriteFile_result(3) [OF w \<open>r = None\<close>] same absent [of "[]"] absent [of q]
      by (auto simp: tree_def copied_tree_def written_node_def node_mode_def)
  qed
qed

section \<open>Staging\<close>

text \<open>
  The entries staged so far on the way from \<open>fs0\<close>: their workspaces are fresh, and their outputs
  hold what \<open>after\<close> says.
\<close>

definition staged_entry ::
    "path set \<Rightarrow> fsys \<Rightarrow> (path \<Rightarrow> path \<Rightarrow> node option) \<Rightarrow> fsys \<Rightarrow> installEntry \<Rightarrow> bool" where
  "staged_entry T fs0 after fs e \<longleftrightarrow> target e \<in> T \<and>
     (\<exists>name. e = newEntry (target e) (workspaceAt (target e) name)) \<and>
     node_at fs0 (workspace e) = None \<and> tree fs (output_path e) = after (target e)"

definition fresh_workspaces :: "path set \<Rightarrow> fsys \<Rightarrow> path set \<Rightarrow> bool" where
  "fresh_workspaces T fs0 W \<longleftrightarrow> (\<forall>w \<in> W. node_at fs0 w = None \<and> (\<exists>t \<in> T. \<exists>name. w = workspaceAt t name))"

definition stage_reached ::
    "path set \<Rightarrow> fsys \<Rightarrow> (path \<Rightarrow> path \<Rightarrow> node option) \<Rightarrow> installEntry list \<Rightarrow> fsys \<Rightarrow> bool" where
  "stage_reached T fs0 after es fs \<longleftrightarrow> grows T (workspace ` set es) fs0 fs \<and> fs_umask fs = fs_umask fs0 \<and>
     list_all (staged_entry T fs0 after fs) es \<and> distinct (map target es)"

text \<open>A staged source lies apart from where the outputs go.\<close>

definition stage_source :: "path set \<Rightarrow> path \<Rightarrow> bool" where
  "stage_source T source \<longleftrightarrow> (\<forall>t \<in> T. \<not> prefix source (filepath_Dir t) \<and> (\<forall>name. workspaceAt t name \<parallel> source))"

lemma staged_workspaces: "list_all (staged_entry T fs0 after fs) es \<Longrightarrow> fresh_workspaces T fs0 (workspace ` set es)"
  by (auto simp: list_all_iff staged_entry_def fresh_workspaces_def newEntry_def dest!: bspec)
    (metis installEntry.select_convs(2))+

lemma staged_entry_grows:
  assumes "staged_entry T fs0 after fs e" and "layout T" and "grows T W fs fs'"
    and "\<And>w. w \<in> W \<Longrightarrow> w \<parallel> workspace e"
  shows "staged_entry T fs0 after fs' e"
proof -
  obtain name where e: "target e \<in> T" "e = newEntry (target e) (workspaceAt (target e) name)"
    using assms(1) by (auto simp: staged_entry_def)
  then have out: "output_path e = workspaceAt (target e) name @ [''output'']"
    and ws: "workspace e = workspaceAt (target e) name" by (metis newEntry_def installEntry.select_convs(2,3))+
  have "tree fs' (output_path e) = tree fs (output_path e)"
    unfolding out
  proof (rule grows_tree [OF assms(3)])
    show "w \<parallel> workspaceAt (target e) name @ [''output'']" if "w \<in> W" for w
      using below_workspace assms(4) [OF that] ws by simp
  qed (use above_not_below(2) assms(2) e(1) in blast)
  with assms(1) show ?thesis by (simp add: staged_entry_def)
qed

lemma cleanup_grows:
  assumes "cleanupEntries es fs = (err, fs')"
  shows "grows T (workspace ` set es) fs fs'"
proof -
  have "each_entry cleanupEntry es fs = (errs, es', fs') \<Longrightarrow> grows T (workspace ` set es) fs fs'" for errs es'
  proof (induction es arbitrary: fs errs es')
    case (Cons e es)
    obtain out e1 fs1 where step: "cleanupEntry e fs = (out, e1, fs1)" by (metis prod_cases3)
    obtain outs2 es2 fs2 where rest: "each_entry cleanupEntry es fs1 = (outs2, es2, fs2)" by (metis prod_cases3)
    with Cons.prems step have "fs' = fs2" by simp
    with grows_trans [OF changes_grows [OF conjunct2 [OF cleanup_stays [OF step]]] Cons.IH] rest show ?case
      by simp
  qed (simp add: grows_def)
  with assms show ?thesis by (auto simp: cleanupEntries_def split: prod.splits)
qed

text \<open>One item staged.\<close>

definition stage_copy :: "path \<Rightarrow> path \<Rightarrow> bool \<Rightarrow> fsys \<Rightarrow> gerror option \<times> fsys" where
  "stage_copy source dest dir fs = (if dir then copyTree source dest fs else copyFile source dest fs)"

lemma stage_copy_result:
  assumes "stage_copy source (ws @ [x]) dir fs = (r, fs')" and "node_at fs ws = Some Directory"
    and "ws = workspaceAt t name" and "t \<in> T"
  shows "fs_umask fs' = fs_umask fs" and "grows T {ws} fs fs'"
    and "r = None \<Longrightarrow> tree fs (ws @ [x]) = no_tree \<Longrightarrow>
      tree fs' (ws @ [x]) = copied_tree (fs_umask fs) dir (tree fs source)"
proof -
  show "fs_umask fs' = fs_umask fs"
    using assms(1) CopyFS_result(1) copyFile_result(1)
    by (auto simp: stage_copy_def copyTree_def split: if_splits)
  show "tree fs' (ws @ [x]) = copied_tree (fs_umask fs) dir (tree fs source)"
    if "r = None" "tree fs (ws @ [x]) = no_tree"
    using assms(1) CopyFS_result(3) copyFile_result(3) that
    by (auto simp: stage_copy_def copyTree_def copied_tree_def split: if_splits)
  show "grows T {ws} fs fs'"
    unfolding grows_def
  proof (intro allI impI)
    fix p assume p: "\<forall>w \<in> {ws}. \<not> prefix w p"
    then have below: "\<not> prefix (ws @ [x]) p" by (metis prefixI prefix_order.trans singletonI)
    have up: "prefix p (filepath_Dir t)" if "prefix p (ws @ [x])" "p \<noteq> ws @ [x]" "p \<noteq> ws"
    proof -
      from that(1,2) have "prefix p ws" by (simp add: prefix_snoc)
      with that(3) assms(3) show ?thesis by (simp add: workspaceAt_def prefix_snoc)
    qed
    show "node_at fs' p = node_at fs p \<or> node_at fs p = None \<and> (\<exists>t\<in>T. prefix p (filepath_Dir t))"
    proof (cases dir)
      case True
      with assms(1) have "CopyFS (ws @ [x]) source fs = (r, fs')" by (simp add: stage_copy_def copyTree_def)
      moreover have "p \<noteq> ws" and "p \<noteq> ws @ [x]" using p below by auto
      ultimately show ?thesis using CopyFS_result(2) [OF _ below] up assms(4) by metis
    next
      case False
      with assms(1) have "copyFile source (ws @ [x]) fs = (r, fs')" by (simp add: stage_copy_def)
      from copyFile_result(2) [OF this] below show ?thesis by auto
    qed
  qed
qed

lemma fresh_no_tree:
  assumes "layout T" and "grows T W fs0 fs" and "rooted fs0" and "t \<in> T"
    and "\<And>w. w \<in> W \<Longrightarrow> w \<parallel> workspaceAt t name" and "node_at fs (workspaceAt t name) = None"
  shows "tree fs (workspaceAt t name) = no_tree" and "node_at fs0 (workspaceAt t name) = None"
proof -
  let ?ws = "workspaceAt t name"
  have same: "tree fs ?ws = tree fs0 ?ws"
    by (rule grows_tree [OF assms(2)]) (use assms(1,4,5) above_not_below(1) in blast)+
  then have "node_at fs ?ws = node_at fs0 ?ws" by (metis append_Nil2 tree_def)
  with assms(6) show "node_at fs0 ?ws = None" by simp
  with rooted_no_tree [OF assms(3)] same show "tree fs ?ws = no_tree" by simp
qed

text \<open>What staging one item does to the file system, up to its copy.\<close>

lemma stage_item:
  assumes "layout T" and "rooted fs0" and "t \<in> T" and "t \<notin> target ` set es"
    and "stage_reached T fs0 after es fs"
    and "MkdirAll (filepath_Dir t) fs = (None, fs1)"
    and "MkdirTemp (filepath_Dir t) ''.operand-install-'' fs1 = (Inr ws, fs2)"
    and "stage_source T source" and "after t = copied_tree (fs_umask fs0) dir (tree fs0 source)"
    and "stage_copy source (ws @ [''output'']) dir fs2 = (r, fs3)"
  shows "fresh_workspaces T fs0 {ws}" and "grows T {ws} fs fs3" and "fs_umask fs3 = fs_umask fs0"
    and "w \<in> workspace ` set es \<Longrightarrow> w \<parallel> ws \<and> ws \<parallel> w"
    and "r = None \<Longrightarrow> staged_entry T fs0 after fs3 (newEntry t ws)"
proof -
  note reached = assms(5) [unfolded stage_reached_def]
  obtain name where ws: "ws = workspaceAt t name"
    using MkdirTemp_result(3) [OF assms(7)] by (auto simp: workspaceAt_def)
  have others: "w \<parallel> ws \<and> ws \<parallel> w" if "w \<in> workspace ` set es" for w
  proof -
    obtain e where e: "e \<in> set es" "w = workspace e" using \<open>w \<in> workspace ` set es\<close> by blast
    with reached obtain m where "target e \<in> T" "e = newEntry (target e) (workspaceAt (target e) m)"
      by (auto simp: list_all_iff staged_entry_def)
    moreover from this have "w = workspaceAt (target e) m"
      using e(2) by (metis newEntry_def installEntry.select_convs(2))
    moreover have "target e \<noteq> t" using e(1) assms(4) by blast
    ultimately show ?thesis using layout_apart(3) [OF assms(1)] assms(3) ws parallel_commute by metis
  qed
  then show "w \<parallel> ws \<and> ws \<parallel> w" if "w \<in> workspace ` set es" using that by blast
  have up: "grows T {} fs fs1"
    using MkdirAll_result(2) [OF assms(6)] assms(3) by (auto simp: grows_def)
  with reached grows_trans have g1: "grows T (workspace ` set es) fs0 fs1" by fastforce
  have absent: "node_at fs1 ws = None" and made: "node_at fs2 = (node_at fs1)(ws \<mapsto> Directory)"
    using MkdirTemp_result(4,5) [OF assms(7)] by simp_all
  have empty: "tree fs1 ws = no_tree" and fresh: "node_at fs0 ws = None"
    using fresh_no_tree [OF assms(1) g1 assms(2,3) _ absent [unfolded ws]] others ws by simp_all
  show "fresh_workspaces T fs0 {ws}" using fresh ws assms(3) by (auto simp: fresh_workspaces_def)
  have make: "grows T {ws} fs1 fs2" by (simp add: grows_def made)
  have umask: "fs_umask fs2 = fs_umask fs0"
    using MkdirAll_result(1) [OF assms(6)] MkdirTemp_result(1) [OF assms(7)] reached by simp
  note copy = stage_copy_result [OF assms(10) _ ws assms(3)]
  have dir: "node_at fs2 ws = Some Directory" by (simp add: made)
  show "fs_umask fs3 = fs_umask fs0" using copy(1) [OF dir] umask by simp
  show "grows T {ws} fs fs3"
    using grows_trans [OF grows_trans [OF up make] copy(2) [OF dir]] by simp
  show "staged_entry T fs0 after fs3 (newEntry t ws)" if "r = None"
  proof -
    have "tree fs2 (ws @ [''output'']) = no_tree"
      using fun_cong [OF empty] by (auto simp: tree_def no_tree_def made fun_eq_iff)
    moreover have "tree fs2 source = tree fs0 source"
    proof (rule grows_tree [OF grows_trans [OF g1 make]])
      show "w \<parallel> source" if "w \<in> workspace ` set es \<union> {ws}" for w
        using that staged_workspaces [of T fs0 after fs es] reached assms(3,8) ws
        by (auto simp: fresh_workspaces_def stage_source_def)
    qed (use assms(8) in \<open>simp add: stage_source_def\<close>)
    ultimately have "tree fs3 (ws @ [''output'']) = after t"
      using copy(3) [OF dir that] umask assms(9) by simp
    with fresh ws assms(3) show ?thesis by (auto simp: staged_entry_def newEntry_def)
  qed
qed

definition stageable :: "path set \<Rightarrow> fsys \<Rightarrow> (path \<Rightarrow> path \<Rightarrow> node option) \<Rightarrow> path \<times> path \<times> bool \<Rightarrow> bool" where
  "stageable T fs0 after item \<longleftrightarrow>
     (case item of (t, source, dir) \<Rightarrow> t \<in> T \<and> stage_source T source \<and>
        after t = copied_tree (fs_umask fs0) dir (tree fs0 source))"

definition staging_outcome ::
    "path set \<Rightarrow> fsys \<Rightarrow> (path \<Rightarrow> path \<Rightarrow> node option) \<Rightarrow> path list
      \<Rightarrow> gerror option + installEntry list \<Rightarrow> fsys \<Rightarrow> bool" where
  "staging_outcome T fs0 after ts res fs \<longleftrightarrow>
     (case res of
        Inl err \<Rightarrow> err \<noteq> None \<and> (\<exists>W. fresh_workspaces T fs0 W \<and> grows T W fs0 fs)
      | Inr es \<Rightarrow> stage_reached T fs0 after es fs \<and> map target es = ts)"

lemma staging_failed:
  assumes "stage_reached T fs0 after es fs" and "grows T W fs fs1" and "fresh_workspaces T fs0 W"
    and "cleanupEntries es fs1 = (cerr, fs2)"
  shows "staging_outcome T fs0 after ts (Inl (errors_Join (Some err # errs))) fs2"
proof -
  let ?W = "workspace ` set es"
  have "fresh_workspaces T fs0 (?W \<union> W)"
    using staged_workspaces assms(1,3) by (auto simp: stage_reached_def fresh_workspaces_def)
  moreover have "grows T ?W fs0 fs" using assms(1) by (simp add: stage_reached_def)
  from grows_trans [OF grows_trans [OF this assms(2)] cleanup_grows [OF assms(4)]]
  have "grows T (?W \<union> W) fs0 fs2" by (rule grows_mono) auto
  ultimately show ?thesis by (auto simp: staging_outcome_def errors_Join_None)
qed

lemma stage_entries:
  assumes "stageEntries es items fs = (res, fs')" and "layout T" and "rooted fs0"
    and "stage_reached T fs0 after es fs" and "list_all (stageable T fs0 after) items"
    and "distinct (map target es @ map fst items)"
  shows "staging_outcome T fs0 after (map target es @ map fst items) res fs'"
  using assms
proof (induction items arbitrary: es fs)
  case Nil
  then show ?case by (auto simp: staging_outcome_def)
next
  case (Cons item items)
  obtain t source dir where item: "item = (t, source, dir)" by (metis prod_cases3)
  with Cons.prems(5,6) have t: "t \<in> T" "t \<notin> target ` set es" and src: "stage_source T source"
    and after: "after t = copied_tree (fs_umask fs0) dir (tree fs0 source)"
    by (auto simp: stageable_def)
  obtain r1 fs1 where mk: "MkdirAll (filepath_Dir t) fs = (r1, fs1)" by fastforce
  obtain r2 fs2 where tmp: "MkdirTemp (filepath_Dir t) ''.operand-install-'' fs1 = (r2, fs2)" by fastforce
  have up: "grows T {} fs fs1" using MkdirAll_result(2) [OF mk] t(1) by (auto simp: grows_def)
  have none: "fresh_workspaces T fs0 {}" by (simp add: fresh_workspaces_def)
  show ?case
  proof (cases r1)
    case (Some err)
    obtain cerr fs3 where clean: "cleanupEntries es fs1 = (cerr, fs3)" by fastforce
    with Cons.prems(1) item mk Some have "res = Inl (errors_Join [Some err, cerr])" "fs' = fs3" by auto
    with staging_failed [OF Cons.prems(4) up none clean] show ?thesis by simp
  next
    case r1: None
    show ?thesis
    proof (cases r2)
      case (Inl err)
      have "grows T {} fs1 fs2" using MkdirTemp_result(2) [OF tmp Inl] by (simp add: grows_def)
      with up grows_trans have up2: "grows T {} fs fs2" by fastforce
      obtain cerr fs3 where clean: "cleanupEntries es fs2 = (cerr, fs3)" by fastforce
      with Cons.prems(1) item mk tmp r1 Inl have "res = Inl (errors_Join [Some err, cerr])" "fs' = fs3" by auto
      with staging_failed [OF Cons.prems(4) up2 none clean] show ?thesis by simp
    next
      case (Inr ws)
      obtain r3 fs3 where copy: "stage_copy source (ws @ [''output'']) dir fs2 = (r3, fs3)" by fastforce
      have entry: "output_path (newEntry t ws) = ws @ [''output'']" by (simp add: newEntry_def)
      note one = stage_item [OF Cons.prems(2,3) t Cons.prems(4) mk [unfolded r1] tmp [unfolded Inr] src after copy]
      show ?thesis
      proof (cases r3)
        case (Some err)
        obtain rerr fs4 where rem: "RemoveAll ws fs3 = (rerr, fs4)" by fastforce
        obtain cerr fs5 where clean: "cleanupEntries es fs4 = (cerr, fs5)" by fastforce
        have "res = Inl (errors_Join [Some err, rerr, cerr])" "fs' = fs5"
          using Cons.prems(1) item mk tmp r1 Inr copy Some rem clean entry
          by (auto simp: Let_def stage_copy_def split: if_splits)
        moreover have "grows T {ws} fs fs4"
          using grows_trans [OF one(2) changes_grows [OF RemoveAll_result(1) [OF rem]]] by simp
        ultimately show ?thesis using staging_failed [OF Cons.prems(4) _ one(1) clean] by simp
      next
        case None
        let ?es = "es @ [newEntry t ws]"
        have next_stage: "stageEntries ?es items fs3 = (res, fs')"
          using Cons.prems(1) item mk tmp r1 Inr copy None entry
          by (auto simp: Let_def stage_copy_def split: if_splits)
        have new: "target (newEntry t ws) = t" "workspace (newEntry t ws) = ws" by (simp_all add: newEntry_def)
        have "staged_entry T fs0 after fs3 e" if "e \<in> set es" for e
          by (rule staged_entry_grows [OF _ Cons.prems(2) one(2)])
            (use that Cons.prems(4) one(4) in \<open>auto simp: stage_reached_def list_all_iff\<close>)
        moreover have "grows T (insert ws (workspace ` set es)) fs0 fs3"
          using grows_trans [OF _ one(2)] Cons.prems(4) by (simp add: stage_reached_def)
        ultimately have reached: "stage_reached T fs0 after ?es fs3"
          using one(3) one(5) [OF None] Cons.prems(4) t(2)
          by (auto simp: stage_reached_def list_all_iff new)
        have "distinct (map target ?es @ map fst items)" using Cons.prems(6) item new by auto
        with Cons.IH [OF next_stage Cons.prems(2,3) reached] Cons.prems(5) item new show ?thesis by simp
      qed
    qed
  qed
qed

section \<open>The installation\<close>

lemma target_not_above:
  assumes "layout T" and "t \<in> T" and "u \<in> T"
  shows "\<not> prefix t (filepath_Dir u)"
proof
  assume above: "prefix t (filepath_Dir u)"
  show False
  proof (cases "t = u")
    case True
    with above have "length u \<le> length u - 1" by (metis filepath_Dir_def length_butlast prefix_length_le)
    then have "u = []" by (cases u) simp_all
    with layout_apart(1) [OF assms(1,3,3)] show False by (simp add: parallel_def)
  next
    case False
    have "prefix t u" using above dir_prefix prefix_order.trans by blast
    with layout_apart(2) [OF assms False] show False by (simp add: parallel_def)
  qed
qed

lemma staging_keeps_targets:
  assumes "layout T" and "fresh_workspaces T fs0 W" and "grows T W fs0 fs" and "t \<in> T"
  shows "tree fs t = tree fs0 t"
proof (rule grows_tree [OF assms(3)])
  show "w \<parallel> t" if "w \<in> W" for w
  proof -
    obtain u name where "u \<in> T" "w = workspaceAt u name"
      using \<open>w \<in> W\<close> assms(2) by (auto simp: fresh_workspaces_def)
    with layout_apart(1) [OF assms(1,4)] show ?thesis by (simp add: parallel_commute)
  qed
qed (use target_not_above assms(1,4) in blast)

lemma staged_ready:
  assumes "layout T" and "rooted fs0" and "stage_reached T fs0 after es fs"
  shows "list_all well_placed es" and "sorted_wrt apart es" and "list_all (ready (tree fs0) after fs) es"
proof -
  note reached = assms(3) [unfolded stage_reached_def]
  have fresh: "fresh_workspaces T fs0 (workspace ` set es)" using staged_workspaces reached by blast
  have shape: "\<exists>name. target e \<in> T \<and> e = newEntry (target e) (workspaceAt (target e) name)" if "e \<in> set es" for e
    using reached that by (auto simp: list_all_iff staged_entry_def)
  have placed: "well_placed e" if "e \<in> set es" for e
    using shape [OF that] layout_apart(1) [OF assms(1)] by (metis newEntry_def well_placed_def installEntry.select_convs(2-4))
  then show "list_all well_placed es" by (simp add: list_all_iff)
  have place: "\<exists>name. target e \<in> T \<and> workspace e = workspaceAt (target e) name" if "e \<in> set es" for e
    using shape [OF that] by (metis newEntry_def installEntry.select_convs(2))
  have "apart e f" if ef: "e \<in> set es" "f \<in> set es" "target e \<noteq> target f" for e f
  proof -
    obtain m where m: "target e \<in> T" "workspace e = workspaceAt (target e) m" using place [OF ef(1)] by blast
    obtain n where n: "target f \<in> T" "workspace f = workspaceAt (target f) n" using place [OF ef(2)] by blast
    have "workspace e \<parallel> target f"
      unfolding m(2) using layout_apart(1) [OF assms(1) n(1) m(1)] parallel_commute by blast
    then show ?thesis
      using layout_apart [OF assms(1) m(1) n(1)] ef(3) m(2) n(2)
      by (simp add: apart_def ground_def)
  qed
  moreover have "distinct (map target es)" using reached by simp
  ultimately show "sorted_wrt apart es"
    by (auto simp: sorted_wrt_iff_nth_less distinct_conv_nth)
  have "ready (tree fs0) after fs e" if "e \<in> set es" for e
  proof -
    have "\<not> backedUp e \<and> \<not> installed e" using shape [OF that] by (metis newEntry_def installEntry.select_convs(5,6))
    moreover have "tree fs (target e) = tree fs0 (target e)"
      using staging_keeps_targets [OF assms(1) fresh] reached shape [OF that] by blast
    moreover have "tree fs0 (target e) [] = None \<longrightarrow> tree fs0 (target e) = no_tree"
      using rooted_no_tree [OF assms(2)] by (simp add: tree_def)
    moreover have "tree fs (output_path e) = after (target e)"
      using reached that by (simp add: list_all_iff staged_entry_def)
    ultimately show ?thesis by (simp add: ready_def holds_def)
  qed
  then show "list_all (ready (tree fs0) after fs) es" by (simp add: list_all_iff)
qed

definition installTargets :: "path \<Rightarrow> path set" where
  "installTargets root = {root @ configPath, root @ installerPath, root @ imagePinPath}"

lemma parallel_under: "root @ p \<parallel> root @ q \<longleftrightarrow> p \<parallel> q"
  by (simp add: parallel_def)

lemma install_layout: "layout (installTargets root)"
  by (auto simp: layout_def installTargets_def workspaceAt_def filepath_Dir_def configPath_def
      installerPath_def imagePinPath_def butlast_append parallel_under parallel_def)

lemma outside_root_source:
  assumes "source \<parallel> root"
  shows "stage_source (installTargets root) source"
proof -
  have "\<not> prefix source (root @ p)" and "root @ p \<parallel> source" for p
    using prefix_apart [OF assms] below_workspace [OF assms] parallel_commute by blast+
  then show ?thesis
    by (auto simp: stage_source_def installTargets_def workspaceAt_def filepath_Dir_def configPath_def
        installerPath_def imagePinPath_def butlast_append)
qed

text \<open>Which tree each target is to hold.\<close>

definition installed_tree :: "path \<Rightarrow> path \<Rightarrow> path \<Rightarrow> path \<Rightarrow> fsys \<Rightarrow> path \<Rightarrow> path \<Rightarrow> node option" where
  "installed_tree root stagedConfig stagedInstaller stagedPin fs t =
     (if t = root @ configPath then copied_tree (fs_umask fs) True (tree fs stagedConfig)
      else if t = root @ installerPath then copied_tree (fs_umask fs) False (tree fs stagedInstaller)
      else copied_tree (fs_umask fs) False (tree fs stagedPin))"

lemma install_staged:
  assumes "rooted fs" and "c \<parallel> root" and "i \<parallel> root" and "p \<parallel> root"
    and "stageEntries [] (installItems root c i p) fs = (res, fs1)"
  shows "staging_outcome (installTargets root) fs (installed_tree root c i p fs)
    [root @ configPath, root @ installerPath, root @ imagePinPath] res fs1"
proof -
  let ?T = "installTargets root" and ?after = "installed_tree root c i p fs"
  have "list_all (stageable ?T fs ?after) (installItems root c i p)"
    using assms(2-4) outside_root_source
    by (auto simp: stageable_def installItems_def installTargets_def installed_tree_def
        configPath_def installerPath_def imagePinPath_def)
  moreover have "stage_reached ?T fs ?after [] fs" by (simp add: stage_reached_def grows_def)
  ultimately show ?thesis
    using stage_entries [OF assms(5) install_layout assms(1), of root ?after]
    by (auto simp: installItems_def configPath_def installerPath_def imagePinPath_def)
qed

lemma install_outcome:
  assumes "rooted fs" and "c \<parallel> root" and "i \<parallel> root" and "p \<parallel> root"
    and "installOutputs root c i p fs = (r, fs')"
  shows "(\<exists>W. fresh_workspaces (installTargets root) fs W \<and> grows (installTargets root) (W \<union> installTargets root) fs fs') \<and>
    (\<forall>t \<in> installTargets root.
       case r of
         None \<Rightarrow> tree fs' t = installed_tree root c i p fs t
       | Some err \<Rightarrow> tree fs' t = tree fs t \<or> rollback_incomplete err \<and>
           (tree fs t = no_tree \<or> (\<exists>name. tree fs' (workspaceAt t name @ [''backup'']) = tree fs t)))"
proof -
  let ?T = "installTargets root" and ?after = "installed_tree root c i p fs"
  obtain res fs1 where stage: "stageEntries [] (installItems root c i p) fs = (res, fs1)" by fastforce
  note staged = install_staged [OF assms(1-4) stage, unfolded staging_outcome_def]
  show ?thesis
  proof (cases res)
    case (Inl err)
    with assms(5) stage have "r = err" "fs' = fs1" by (auto simp: installOutputs_def)
    moreover obtain W where "err \<noteq> None" "fresh_workspaces ?T fs W" and grow: "grows ?T W fs fs1"
      using staged Inl by auto
    moreover from this have "tree fs1 t = tree fs t" if "t \<in> ?T" for t
      using staging_keeps_targets [OF install_layout _ _ that] by blast
    moreover have "grows ?T (W \<union> ?T) fs fs1" by (rule grows_mono [OF grow]) simp
    ultimately show ?thesis by auto
  next
    case (Inr es)
    with assms(5) stage have swap: "swapEntries [] es fs1 = (r, fs')" by (simp add: installOutputs_def)
    have reached: "stage_reached ?T fs ?after es fs1"
      and targets: "map target es = [root @ configPath, root @ installerPath, root @ imagePinPath]"
      using staged Inr by simp_all
    note ready = staged_ready [OF install_layout assms(1) reached]
    have below: "changes_below (\<Union> (ground ` set es)) fs1 fs'"
      and outcome: "list_all (swap_outcome (tree fs) ?after r fs') es"
      using swap_entries [OF swap] ready by simp_all
    have fresh: "fresh_workspaces ?T fs (workspace ` set es)"
      using staged_workspaces reached by (simp add: stage_reached_def) blast
    have T: "?T = target ` set es"
      using arg_cong [OF targets, of set] by (simp add: installTargets_def)
    have "grows ?T (workspace ` set es) fs fs1" using reached by (simp add: stage_reached_def)
    from grows_trans [OF this changes_grows [OF below]]
    have "grows ?T (workspace ` set es \<union> ?T) fs fs'"
      by (rule grows_mono) (auto simp: T ground_def)
    moreover have "case r of None \<Rightarrow> tree fs' t = ?after t
      | Some err \<Rightarrow> tree fs' t = tree fs t \<or> rollback_incomplete err \<and>
          (tree fs t = no_tree \<or> (\<exists>name. tree fs' (workspaceAt t name @ [''backup'']) = tree fs t))"
      if "t \<in> ?T" for t
    proof -
      obtain e where e: "e \<in> set es" "t = target e" using \<open>t \<in> ?T\<close> T by auto
      then have "staged_entry ?T fs ?after fs1 e" using reached by (simp add: stage_reached_def list_all_iff)
      then obtain name where "backup e = workspaceAt t name @ [''backup'']"
        unfolding staged_entry_def e(2) by (metis newEntry_def installEntry.select_convs(4))
      then have backup: "tree fs' (backup e) = tree fs t \<longrightarrow>
          (\<exists>name. tree fs' (workspaceAt t name @ [''backup'']) = tree fs t)" by metis
      have out: "swap_outcome (tree fs) ?after r fs' e" using outcome e(1) by (simp add: list_all_iff)
      show ?thesis
      proof (cases r)
        case None
        with out e(2) show ?thesis by (simp add: swap_outcome_def holds_def)
      next
        case (Some err)
        with out e(2) have "tree fs' t = tree fs t \<or>
            rollback_incomplete err \<and> (tree fs' (backup e) = tree fs t \<or> tree fs t = no_tree)"
          by (simp add: swap_outcome_def rolled_back_def holds_def)
        with backup have "tree fs' t = tree fs t \<or> rollback_incomplete err \<and>
            (tree fs t = no_tree \<or> (\<exists>name. tree fs' (workspaceAt t name @ [''backup'']) = tree fs t))"
          by satx
        with Some show ?thesis by (simp only: option.case)
      qed
    qed
    ultimately show ?thesis using fresh by blast
  qed
qed

lemma install_keeps_existing:
  assumes "rooted fs" and "c \<parallel> root" and "i \<parallel> root" and "p \<parallel> root"
    and "installOutputs root c i p fs = (r, fs')" and "node_at fs q \<noteq> None"
    and "\<And>t. t \<in> installTargets root \<Longrightarrow> \<not> prefix t q"
  shows "node_at fs' q = node_at fs q"
proof -
  obtain W where W: "fresh_workspaces (installTargets root) fs W"
    and grow: "grows (installTargets root) (W \<union> installTargets root) fs fs'"
    using install_outcome [OF assms(1-5)] by blast
  have "\<not> prefix w q" if "w \<in> W" for w
  proof
    assume "prefix w q"
    then obtain x where "q = w @ x" by (rule prefixE)
    moreover have "node_at fs w = None" using W that by (simp add: fresh_workspaces_def)
    ultimately show False using assms(1,6) by (simp add: rooted_def)
  qed
  with spec [OF grow [unfolded grows_def], of q] assms(6,7) show ?thesis by auto
qed

section \<open>Properties\<close>

text \<open>
  C8: The installation is a transaction on the three generated outputs. If it succeeds, the config
  tree, the installer and the image pin hold exactly what was staged, with the permissions a copy
  gets; if it returns an error that does not speak of an incomplete rollback, each of them holds
  exactly what it held before. Any call to the operating system may fail, at any point.
\<close>

theorem install_all_or_nothing:
  assumes "rooted fs" and "c \<parallel> root" and "i \<parallel> root" and "p \<parallel> root"
    and "installOutputs root c i p fs = (r, fs')"
  shows "(r = None \<longrightarrow>
      tree fs' (root @ configPath) = copied_tree (fs_umask fs) True (tree fs c) \<and>
      tree fs' (root @ installerPath) = copied_tree (fs_umask fs) False (tree fs i) \<and>
      tree fs' (root @ imagePinPath) = copied_tree (fs_umask fs) False (tree fs p)) \<and>
    (\<forall>err t. r = Some err \<and> \<not> rollback_incomplete err \<and> t \<in> installTargets root \<longrightarrow>
      tree fs' t = tree fs t)"
proof -
  have "case r of None \<Rightarrow> tree fs' t = installed_tree root c i p fs t
      | Some err \<Rightarrow> rollback_incomplete err \<or> tree fs' t = tree fs t" if "t \<in> installTargets root" for t
    using install_outcome [OF assms] that by (cases r) auto
  from this [of "root @ configPath"] this [of "root @ installerPath"] this [of "root @ imagePinPath"] this
  show ?thesis
    by (cases r) (auto simp: installTargets_def installed_tree_def configPath_def installerPath_def imagePinPath_def)
qed

text \<open>
  A repository with an image pin and no other output, a stage beside it, and a disk that fails when
  the third output is renamed to its target.
\<close>

definition sample_files :: "answer list \<Rightarrow> fsys" where
  "sample_files answers = \<lparr>fs_nodes =
     [([], Directory), ([''repo''], Directory), ([''repo'', ''operand-image.json''], Regular ''old'' 0x1A4),
      ([''stage''], Directory), ([''stage'', ''config''], Directory),
      ([''stage'', ''config'', ''a.yaml''], Regular ''a'' 0x180),
      ([''stage'', ''installer.yaml''], Regular ''i'' 0x1A4), ([''stage'', ''pin.json''], Regular ''new'' 0x1A4)],
     fs_umask = 0x12, fs_answers = answers\<rparr>"

definition sample_install :: "answer list \<Rightarrow> gerror option \<times> fsys" where
  "sample_install answers = installOutputs [''repo''] [''stage'', ''config''] [''stage'', ''installer.yaml'']
     [''stage'', ''pin.json''] (sample_files answers)"

definition late_fault :: "answer list" where
  "late_fault = replicate 19 (Works ''1'') @ [Fails ''disk'' []]"

lemma rooted_files:
  assumes "list_all (\<lambda>(p, n). list_all (\<lambda>q. node_at fs q \<noteq> None) (prefixes p)) (fs_nodes fs)"
  shows "rooted fs"
  unfolding rooted_def
proof (intro allI impI)
  fix p q assume "node_at fs p = None"
  show "node_at fs (p @ q) = None"
  proof (rule ccontr)
    assume "node_at fs (p @ q) \<noteq> None"
    then obtain n where "(p @ q, n) \<in> set (fs_nodes fs)" by (auto simp: node_at_def dest: map_of_SomeD)
    with assms have "\<forall>x \<in> set (prefixes (p @ q)). node_at fs x \<noteq> None" by (fastforce simp: list_all_iff)
    moreover have "p \<in> set (prefixes (p @ q))" by simp
    ultimately show False using \<open>node_at fs p = None\<close> by blast
  qed
qed

lemma sample_rooted: "rooted (sample_files answers)"
  by (rule rooted_files) (simp add: sample_files_def node_at_def)

lemma sample_apart: "[''stage'', ''config''] \<parallel> [''repo'']" "[''stage'', ''installer.yaml''] \<parallel> [''repo'']"
    "[''stage'', ''pin.json''] \<parallel> [''repo'']"
  by (simp_all add: parallel_def)

lemma late_fault_reported:
  "case fst (sample_install late_fault) of Some (Wrapped p e) \<Rightarrow> e = EIO ''disk'' | _ \<Rightarrow> False"
  by code_simp

theorem install_all_or_nothing_witness:
  "\<exists>err fs'. sample_install late_fault = (Some err, fs') \<and>
     tree fs' ([''repo''] @ imagePinPath) = tree (sample_files late_fault) ([''repo''] @ imagePinPath)"
proof -
  obtain r fs' where run: "sample_install late_fault = (r, fs')" by fastforce
  then obtain err where err: "r = Some err" "\<not> rollback_incomplete err"
    using late_fault_reported by (auto simp: rollback_incomplete_def split: option.splits gerror.splits)
  have "[''repo''] @ imagePinPath \<in> installTargets [''repo'']" by (simp add: installTargets_def)
  with install_all_or_nothing [OF sample_rooted sample_apart run [unfolded sample_install_def]] err run
  show ?thesis by blast
qed

text \<open>
  C17: No original is ever lost, whatever fails, rollback included. After a failed installation what
  a target held is still there, or, and then the error says that the rollback is incomplete, at the
  backup in a workspace beside the target. Nothing else that existed is touched, on success or failure.
\<close>

theorem originals_never_lost:
  assumes "rooted fs" and "c \<parallel> root" and "i \<parallel> root" and "p \<parallel> root"
    and "installOutputs root c i p fs = (r, fs')"
  shows "(\<forall>err t. r = Some err \<and> t \<in> installTargets root \<and> tree fs t \<noteq> no_tree \<longrightarrow>
      tree fs' t = tree fs t \<or>
      rollback_incomplete err \<and> (\<exists>name. tree fs' (workspaceAt t name @ [''backup'']) = tree fs t)) \<and>
    (\<forall>q. node_at fs q \<noteq> None \<and> (\<forall>t \<in> installTargets root. \<not> prefix t q) \<longrightarrow>
      node_at fs' q = node_at fs q)"
proof -
  note outcome = install_outcome [OF assms]
  have "node_at fs' q = node_at fs q"
    if "node_at fs q \<noteq> None" "\<And>t. t \<in> installTargets root \<Longrightarrow> \<not> prefix t q" for q
    by (rule install_keeps_existing [OF assms that])
  moreover have "tree fs' t = tree fs t \<or>
      rollback_incomplete err \<and> (\<exists>name. tree fs' (workspaceAt t name @ [''backup'']) = tree fs t)"
    if "r = Some err" "t \<in> installTargets root" "tree fs t \<noteq> no_tree" for err t
    using outcome that by auto
  ultimately show ?thesis by blast
qed

definition worse_fault :: "answer list" where
  "worse_fault = late_fault @ [Fails ''disk'' []]"

lemma worse_fault_reported:
  "case sample_install worse_fault of (r, fs') \<Rightarrow>
     r \<noteq> None \<and> node_at fs' ([''repo''] @ imagePinPath) = None"
  by code_simp

theorem originals_never_lost_witness:
  "\<exists>err fs' name. sample_install worse_fault = (Some err, fs') \<and> rollback_incomplete err \<and>
     tree fs' (workspaceAt ([''repo''] @ imagePinPath) name @ [''backup'']) =
       tree (sample_files worse_fault) ([''repo''] @ imagePinPath)"
proof -
  let ?t = "[''repo''] @ imagePinPath"
  obtain r fs' where run: "sample_install worse_fault = (r, fs')" by fastforce
  with worse_fault_reported obtain err where err: "r = Some err" and gone: "node_at fs' ?t = None" by auto
  have there: "node_at (sample_files worse_fault) ?t = Some (Regular ''old'' 0x1A4)"
    by (simp add: sample_files_def node_at_def imagePinPath_def)
  then have "tree (sample_files worse_fault) ?t [] \<noteq> no_tree []" and "tree fs' ?t [] \<noteq> tree (sample_files worse_fault) ?t []"
    using gone by (simp_all add: tree_def no_tree_def)
  then have "tree (sample_files worse_fault) ?t \<noteq> no_tree" and "tree fs' ?t \<noteq> tree (sample_files worse_fault) ?t"
    by metis+
  moreover have "?t \<in> installTargets [''repo'']" by (simp add: installTargets_def)
  ultimately show ?thesis
    using originals_never_lost [OF sample_rooted sample_apart run [unfolded sample_install_def]] err run by blast
qed

end
