(* ===== verification/Source_Undo.thy ===== *)
theory Source_Undo
  imports Source_Update Install_Spec
begin

text \<open>
  What the snapshots of update.go are good for: a restored file has the bytes and the mode it was
  snapshot with, and restoring disturbs nothing but the file and its temporary copy. A failed restore
  is in the error that is returned.
\<close>

section \<open>Restoring one file\<close>

definition restore_temp :: "path \<Rightarrow> string \<Rightarrow> path" where
  "restore_temp p name = filepath_Dir p @ [''.operand-restore-'' @ name]"

text \<open>A path that is not the temporary file of a restore of \<open>p\<close>, nor \<open>p\<close>, nor below them.\<close>

definition clear_of :: "path \<Rightarrow> path \<Rightarrow> bool" where
  "clear_of p q \<longleftrightarrow> \<not> prefix p q \<and> (\<forall>name. \<not> prefix (restore_temp p name) q)"

lemma path_split: "p \<noteq> [] \<Longrightarrow> filepath_Dir p @ [filepath_Base p] = p"
  by (simp add: filepath_Dir_def filepath_Base_def)

lemma temp_apart:
  assumes "p \<noteq> []" and "restore_temp p name \<noteq> p"
  shows "restore_temp p name \<parallel> p"
proof -
  have "filepath_Base p \<noteq> ''.operand-restore-'' @ name"
    using assms(2) path_split [OF assms(1)] by (metis restore_temp_def)
  then have "filepath_Dir p @ [''.operand-restore-'' @ name] \<parallel> filepath_Dir p @ [filepath_Base p]"
    by (simp add: parallel_under parallel_def)
  then show ?thesis by (simp only: path_split [OF assms(1)] restore_temp_def)
qed

lemma fill_result:
  assumes "fill_and_rename tmp p data mode fs = (r, fs')" and "tmp \<parallel> p" and "node_at fs tmp = Some (Regular [] m)"
  shows "changes_below {tmp, p} fs fs'" and "fs_umask fs' = fs_umask fs"
    and "r = None \<Longrightarrow> node_at fs' p = Some (Regular data mode)"
proof -
  obtain r1 fs1 where w: "Write tmp data fs = (r1, fs1)" by fastforce
  obtain r2 fs2 where c: "Chmod tmp mode fs1 = (r2, fs2)" by fastforce
  obtain r3 fs3 where cl: "Close fs2 = (r3, fs3)" by fastforce
  obtain r4 fs4 where mv: "Rename tmp p fs3 = (r4, fs4)" by fastforce
  obtain written where 1: "fs_umask fs1 = fs_umask fs" "node_at fs1 = (node_at fs)(tmp \<mapsto> Regular written m)"
      "r1 = None \<longrightarrow> written = data"
    using handle_results(1) [OF assms(3) w] by auto
  then have "node_at fs1 tmp = Some (Regular written m)" by simp
  from handle_results(2) [OF this c]
  obtain m' where 2: "fs_umask fs2 = fs_umask fs1" "node_at fs2 = (node_at fs1)(tmp \<mapsto> Regular written m')"
      "r2 = None \<longrightarrow> m' = mode"
    by auto
  note 3 = Close_result [OF cl]
  note 4 = Rename_result [OF assms(2) mv]
  have below: "changes_below {tmp, p} fs fs1" "changes_below {tmp, p} fs fs2" "changes_below {tmp, p} fs fs3"
    using 1 2 3 by (auto simp: changes_below_def)
  from changes_below_trans [OF below(3) 4(1)] have below4: "changes_below {tmp, p} fs fs4" by simp
  have close: "node_at (snd (Close x)) = node_at x \<and> fs_umask (snd (Close x)) = fs_umask x" for x
    using Close_result [of x] by (metis prod.collapse)
  have ends: "r \<noteq> None \<and> fs' \<in> {snd (Close fs1), snd (Close fs2), fs3} \<or>
      r1 = None \<and> r2 = None \<and> r = r4 \<and> fs' = fs4"
    using assms(1) w c cl mv by (auto simp: fill_and_rename_def split: option.splits)
  then show "changes_below {tmp, p} fs fs'"
    using below below4 close by (auto simp: changes_below_def)
  show "fs_umask fs' = fs_umask fs" using ends close 1 2 3 4(2) by auto
  show "node_at fs' p = Some (Regular data mode)" if "r = None"
  proof -
    have "tree fs4 p = tree fs3 tmp" and "fs' = fs4" and "written = data" "m' = mode"
      using ends that 1 2 4(3) by auto
    from fun_cong [OF this(1), of "[]"] this(2-) show ?thesis by (simp add: tree_def 2 3)
  qed
qed

lemma restoreFile_result:
  assumes "restoreFile p data mode fs = (r, fs')" and "p \<noteq> []"
    and named: "node_at fs p \<noteq> None \<or> (\<forall>name. restore_temp p name \<noteq> p)"
  shows "clear_of p q \<Longrightarrow> node_at fs' q = node_at fs q" and "fs_umask fs' = fs_umask fs"
    and "r = None \<Longrightarrow> node_at fs' p = Some (Regular data mode)"
proof -
  obtain made fs1 where make: "CreateTemp (filepath_Dir p) ''.operand-restore-'' fs = (made, fs1)" by fastforce
  note temp = CreateTemp_result [OF make]
  have "(clear_of p q \<longrightarrow> node_at fs' q = node_at fs q) \<and> fs_umask fs' = fs_umask fs \<and>
      (r = None \<longrightarrow> node_at fs' p = Some (Regular data mode))"
  proof (cases made)
    case (Inl e)
    with assms(1) make temp(1,2) show ?thesis by (auto simp: restoreFile_def)
  next
    case (Inr tmp)
    then obtain name where tmp: "tmp = restore_temp p name" using temp(3) by (auto simp: restore_temp_def)
    have "node_at fs tmp = None" using temp(4) Inr by simp
    with named have "tmp \<noteq> p" unfolding tmp by auto
    then have apart: "tmp \<parallel> p" using temp_apart [OF assms(2)] tmp by blast
    obtain fs2 where fill: "fill_and_rename tmp p data mode fs1 = (r, fs2)" and fs': "fs' = snd (Remove tmp fs2)"
      using assms(1) make Inr by (auto simp: restoreFile_def split: prod.splits)
    have made: "node_at fs1 = (node_at fs)(tmp \<mapsto> Regular [] (0x180 AND NOT (fs_umask fs)))"
      using temp(5) Inr by blast
    then have "node_at fs1 tmp = Some (Regular [] (0x180 AND NOT (fs_umask fs)))" by simp
    note filled = fill_result [OF fill apart this]
    obtain r3 where rm: "Remove tmp fs2 = (r3, fs')" using fs' by (metis prod.collapse)
    note removed = Remove_result [OF rm]
    have "node_at fs' q = node_at fs q" if "clear_of p q"
    proof -
      from that tmp have "\<not> prefix tmp q" "\<not> prefix p q" by (simp_all add: clear_of_def)
      then have "q \<noteq> tmp" "node_at fs2 q = node_at fs1 q" using filled(1) by (auto simp: changes_below_def)
      then show ?thesis using removed(2) made by simp
    qed
    moreover have "fs_umask fs' = fs_umask fs" using filled(2) removed(1) temp(1) by simp
    moreover have "node_at fs' p = Some (Regular data mode)" if "r = None"
      using filled(3) [OF that] removed(2) \<open>tmp \<noteq> p\<close> by simp
    ultimately show ?thesis by blast
  qed
  then show "clear_of p q \<Longrightarrow> node_at fs' q = node_at fs q" and "fs_umask fs' = fs_umask fs"
    and "r = None \<Longrightarrow> node_at fs' p = Some (Regular data mode)" by blast+
qed

section \<open>Snapshots\<close>

definition describes :: "file_snapshot \<Rightarrow> fsys \<Rightarrow> bool" where
  "describes s fs \<longleftrightarrow> node_at fs (sn_path s) =
     (if sn_exists s then Some (Regular (sn_data s) (sn_mode s)) else None)"

lemma describes_same: "describes s fs \<Longrightarrow> describes s fs' \<Longrightarrow> node_at fs' (sn_path s) = node_at fs (sn_path s)"
  by (simp add: describes_def)

lemma removeFile_result:
  assumes "removeFile p fs = (r, fs')"
  shows "q \<noteq> p \<Longrightarrow> node_at fs' q = node_at fs q" and "fs_umask fs' = fs_umask fs"
    and "r = None \<Longrightarrow> node_at fs' p = None"
proof -
  obtain r1 where rm: "Remove p fs = (r1, fs')" and r: "r = (case r1 of None \<Rightarrow> None | Some e \<Rightarrow> if IsNotExist e then None else Some e)"
    using assms by (auto simp: removeFile_def split: prod.splits option.splits)
  note removed = Remove_result [OF rm]
  show "q \<noteq> p \<Longrightarrow> node_at fs' q = node_at fs q" and "fs_umask fs' = fs_umask fs"
    using removed(1,2) by blast+
  show "node_at fs' p = None" if "r = None"
    using removed(3-5) r that by (cases r1) (auto split: if_splits)
qed

text \<open>Restoring from a snapshot, as both kinds of snapshots do it.\<close>

definition restore_snapshot :: "file_snapshot \<Rightarrow> fsys \<Rightarrow> gerror option \<times> fsys" where
  "restore_snapshot s fs =
     (if sn_exists s then restoreFile (sn_path s) (sn_data s) (sn_mode s) fs else removeFile (sn_path s) fs)"

lemma restore_snapshot_result:
  assumes "restore_snapshot s fs = (r, fs')" and "sn_path s \<noteq> []"
    and "sn_exists s \<Longrightarrow> node_at fs (sn_path s) \<noteq> None \<or> (\<forall>name. restore_temp (sn_path s) name \<noteq> sn_path s)"
  shows "clear_of (sn_path s) q \<Longrightarrow> node_at fs' q = node_at fs q" and "fs_umask fs' = fs_umask fs"
    and "r = None \<Longrightarrow> describes s fs'"
proof -
  have "(clear_of (sn_path s) q \<longrightarrow> node_at fs' q = node_at fs q) \<and> fs_umask fs' = fs_umask fs \<and>
      (r = None \<longrightarrow> describes s fs')"
  proof (cases "sn_exists s")
    case True
    with assms(1) have "restoreFile (sn_path s) (sn_data s) (sn_mode s) fs = (r, fs')"
      by (simp add: restore_snapshot_def)
    from restoreFile_result [OF this assms(2) assms(3) [OF True]] True show ?thesis
      by (simp add: describes_def)
  next
    case False
    with assms(1) have "removeFile (sn_path s) fs = (r, fs')" by (simp add: restore_snapshot_def)
    from removeFile_result [OF this] False show ?thesis by (auto simp: describes_def clear_of_def)
  qed
  then show "clear_of (sn_path s) q \<Longrightarrow> node_at fs' q = node_at fs q" and "fs_umask fs' = fs_umask fs"
    and "r = None \<Longrightarrow> describes s fs'" by blast+
qed

lemma restoreWorkflowOutput_snapshot: "restoreWorkflowOutput (Some s) = restore_snapshot s"
  by (rule ext) (simp add: restoreWorkflowOutput_def restore_snapshot_def)

lemma restoreModuleFile_snapshot:
  "restoreModuleFile s fs = (case restore_snapshot s fs of (err, fs) \<Rightarrow>
     (map_option (Wrapped ((if sn_exists s then ''restore '' else ''remove '') @ filepath_Base (sn_path s))) err, fs))"
  by (simp add: restoreModuleFile_def restore_snapshot_def)

lemma read_and_stat:
  assumes "ReadFile p fs = (Inr data, fs1)" and "Lstat p fs1 = (Inr info, fs2)"
  shows "node_at fs p = Some (Regular data (node_mode info))" and "node_at fs2 = node_at fs"
proof -
  obtain m where "node_at fs p = Some (Regular data m)" using ReadFile_result(3) [OF assms(1)] by blast
  moreover have "node_at fs1 = node_at fs" using ReadFile_result(1) [OF assms(1)] .
  moreover have "node_at fs1 p = Some info" using Lstat_result(3) [OF assms(2)] by blast
  ultimately show "node_at fs p = Some (Regular data (node_mode info))" by (auto simp: node_mode_def)
  show "node_at fs2 = node_at fs" using Lstat_result(1) [OF assms(2)] \<open>node_at fs1 = node_at fs\<close> by simp
qed

lemma snapshotModuleFile_result:
  assumes "snapshotModuleFile root name fs = (r, fs')"
  shows "node_at fs' = node_at fs" and "fs_umask fs' = fs_umask fs"
    and "r = Inr s \<Longrightarrow> sn_path s = root @ [name] \<and> describes s fs"
proof -
  obtain data fs1 where read: "ReadFile (root @ [name]) fs = (data, fs1)" by fastforce
  obtain info fs2 where stat: "Lstat (root @ [name]) fs1 = (info, fs2)" by fastforce
  note r = ReadFile_result [OF read] and st = Lstat_result(1,2) [OF stat]
  show "node_at fs' = node_at fs" "fs_umask fs' = fs_umask fs"
    using assms read stat r(1,2) st
    by (auto simp: snapshotModuleFile_def Let_def split: sum.splits if_splits)
  show "sn_path s = root @ [name] \<and> describes s fs" if "r = Inr s"
  proof (cases data)
    case (Inl e)
    with assms read that r(4) [OF Inl] show ?thesis
      by (auto simp: snapshotModuleFile_def Let_def describes_def split: if_splits)
  next
    case (Inr d)
    with assms read stat that obtain i where i: "info = Inr i"
        "s = \<lparr>sn_path = root @ [name], sn_data = d, sn_mode = node_mode i, sn_exists = True\<rparr>"
      by (auto simp: snapshotModuleFile_def Let_def split: sum.splits)
    from read_and_stat(1) [OF read [unfolded Inr] stat [unfolded i(1)]] i(2) show ?thesis
      by (simp add: describes_def)
  qed
qed

definition modules :: "path \<Rightarrow> path set" where
  "modules root = {root @ [''go.mod''], root @ [''go.sum'']}"

lemma snapshotModuleFiles_result:
  assumes "snapshotModuleFiles root fs = (r, fs')"
  shows "node_at fs' = node_at fs" and "fs_umask fs' = fs_umask fs"
    and "r = Inr files \<Longrightarrow> list_all (\<lambda>s. describes s fs) files \<and>
      map sn_path files = [root @ [''go.mod''], root @ [''go.sum'']]"
proof -
  obtain a fs1 where first: "snapshotModuleFile root ''go.mod'' fs = (a, fs1)" by fastforce
  obtain b fs2 where second: "snapshotModuleFile root ''go.sum'' fs1 = (b, fs2)" by fastforce
  note 1 = snapshotModuleFile_result [OF first] and 2 = snapshotModuleFile_result [OF second]
  show "node_at fs' = node_at fs" "fs_umask fs' = fs_umask fs"
    using assms first second 1(1,2) 2(1,2) by (auto simp: snapshotModuleFiles_def split: sum.splits)
  show "list_all (\<lambda>s. describes s fs) files \<and> map sn_path files = [root @ [''go.mod''], root @ [''go.sum'']]"
    if "r = Inr files"
    using assms first second that 1(1,3) 2(3)
    by (auto simp: snapshotModuleFiles_def describes_def split: sum.splits)
qed

lemma snapshotWorkflowOutput_result:
  assumes "snapshotWorkflowOutput out fs = (r, fs')"
  shows "node_at fs' = node_at fs" and "fs_umask fs' = fs_umask fs"
    and "r = Inr snap \<Longrightarrow> out = Some p \<Longrightarrow> \<exists>s. snap = Some s \<and> sn_path s = p \<and> describes s fs"
    and "r = Inr snap \<Longrightarrow> out = None \<Longrightarrow> snap = None"
proof -
  have "node_at fs' = node_at fs \<and> fs_umask fs' = fs_umask fs \<and>
     (\<forall>snap p. r = Inr snap \<longrightarrow> out = Some p \<longrightarrow> (\<exists>s. snap = Some s \<and> sn_path s = p \<and> describes s fs)) \<and>
     (r = Inr snap \<longrightarrow> out = None \<longrightarrow> snap = None)"
  proof (cases out)
    case (Some o')
    obtain data fs1 where read: "ReadFile o' fs = (data, fs1)" by fastforce
    obtain info fs2 where stat: "Lstat o' fs1 = (info, fs2)" by fastforce
    note r = ReadFile_result [OF read] and st = Lstat_result(1,2) [OF stat]
    show ?thesis
    proof (cases data)
      case (Inl e)
      with assms Some read r(1,2) r(4) [OF Inl] show ?thesis
        by (auto simp: snapshotWorkflowOutput_def describes_def split: if_splits)
    next
      case (Inr d)
      with assms Some read stat r(1,2) st show ?thesis
        using read_and_stat(1) [OF read [unfolded Inr]]
        by (cases info) (auto simp: snapshotWorkflowOutput_def describes_def)
    qed
  qed (use assms in \<open>auto simp: snapshotWorkflowOutput_def\<close>)
  then show "node_at fs' = node_at fs" and "fs_umask fs' = fs_umask fs"
    and "r = Inr snap \<Longrightarrow> out = Some p \<Longrightarrow> \<exists>s. snap = Some s \<and> sn_path s = p \<and> describes s fs"
    and "r = Inr snap \<Longrightarrow> out = None \<Longrightarrow> snap = None" by blast+
qed

section \<open>What an error reports\<close>

text \<open>The errors that an error joins, at any depth, and itself.\<close>

fun error_parts :: "gerror \<Rightarrow> gerror list" where
  "error_parts (Joined es) = Joined es # concat (map error_parts es)"
| "error_parts e = [e]"

lemma error_parts_self [simp]: "e \<in> set (error_parts e)"
  by (cases e) auto

lemma error_parts_joined: "e \<in> set es \<Longrightarrow> x \<in> set (error_parts e) \<Longrightarrow> x \<in> set (error_parts (Joined es))"
  by auto

lemma joined_parts: "Some e \<in> set es \<Longrightarrow> x \<in> set (error_parts e) \<Longrightarrow> x \<in> set (error_parts (joined es))"
  unfolding joined_def by (rule error_parts_joined [of e]) (force, simp)

definition restore_failed :: "string \<Rightarrow> gerror \<Rightarrow> bool" where
  "restore_failed name err \<longleftrightarrow>
     (\<exists>e. Wrapped (''restore '' @ name) e \<in> set (error_parts err) \<or> Wrapped (''remove '' @ name) e \<in> set (error_parts err))"

section \<open>Restoring the module files\<close>

lemma under_clear:
  assumes "q \<parallel> root"
  shows "clear_of (root @ [n]) q"
proof -
  have "\<not> prefix (root @ x) q" for x using assms by (meson append_prefixD parallel_def)
  then show ?thesis by (simp add: clear_of_def restore_temp_def filepath_Dir_def butlast_append)
qed

lemma dir_apart_clear:
  assumes "filepath_Dir p \<parallel> root" and "p \<noteq> []"
  shows "clear_of p (root @ q)"
proof -
  have "\<not> prefix (filepath_Dir p @ x) (root @ q)" for x
    using assms(1) by (meson append_prefixD prefix_apart)
  from this [of "[filepath_Base p]"] this show ?thesis
    unfolding path_split [OF assms(2)] by (simp add: clear_of_def restore_temp_def)
qed

lemma sibling_clear:
  assumes "hd q \<noteq> n" and "\<And>name. hd q \<noteq> ''.operand-restore-'' @ name" and "q \<noteq> []"
  shows "clear_of (root @ [n]) (root @ q)"
  using assms by (cases q) (auto simp: clear_of_def restore_temp_def filepath_Dir_def butlast_append)

lemma restore_modules:
  assumes "restoreModuleFiles files fs = (r, fs')" and "list_all (\<lambda>s. describes s fs0) files"
    and "map sn_path files = [root @ [''go.mod''], root @ [''go.sum'']]"
  shows "clear_of (root @ [''go.mod'']) q \<Longrightarrow> clear_of (root @ [''go.sum'']) q \<Longrightarrow> node_at fs' q = node_at fs q"
    and "fs_umask fs' = fs_umask fs"
    and "name \<in> {''go.mod'', ''go.sum''} \<Longrightarrow>
      node_at fs' (root @ [name]) = node_at fs0 (root @ [name]) \<or> (\<exists>e. r = Some e \<and> restore_failed name e)"
proof -
  from assms(3) obtain m s where files: "files = [m, s]" "sn_path m = root @ [''go.mod'']" "sn_path s = root @ [''go.sum'']"
    by (auto simp: map_eq_Cons_conv)
  obtain a fs1 where first: "restore_snapshot m fs = (a, fs1)" by fastforce
  obtain b fs2 where second: "restore_snapshot s fs1 = (b, fs2)" by fastforce
  have named: "restore_temp (root @ [''go.mod'']) name \<noteq> root @ [''go.mod'']"
      "restore_temp (root @ [''go.sum'']) name \<noteq> root @ [''go.sum'']" for name
    by (simp_all add: restore_temp_def filepath_Dir_def butlast_append)
  note 1 = restore_snapshot_result [OF first, unfolded files(2)]
  note 2 = restore_snapshot_result [OF second, unfolded files(3)]
  let ?wrap = "\<lambda>t. Wrapped ((if sn_exists t then ''restore '' else ''remove '') @ filepath_Base (sn_path t))"
  have run: "fs' = fs2" "r = errors_Join [map_option (?wrap m) a, map_option (?wrap s) b]"
    using assms(1) first second by (auto simp: restoreModuleFiles_def files(1) restoreModuleFile_snapshot)
  show "node_at fs' q = node_at fs q" if "clear_of (root @ [''go.mod'']) q" "clear_of (root @ [''go.sum'']) q"
    using 1(1) 2(1) that named run(1) by simp
  show "fs_umask fs' = fs_umask fs" using 1(2) 2(2) named run(1) by simp
  have mod_kept: "node_at fs2 (root @ [''go.mod'']) = node_at fs1 (root @ [''go.mod''])"
    using 2(1) [of "root @ [''go.mod'']"] named sibling_clear [of "[''go.mod'']" "''go.sum''" root] by simp
  have mod: "node_at fs' (root @ [''go.mod'']) = node_at fs0 (root @ [''go.mod'']) \<or>
      (\<exists>e. r = Some e \<and> restore_failed ''go.mod'' e)"
  proof (cases a)
    case None
    with 1(3) named have "describes m fs1" by simp
    with describes_same [of m fs0 fs1] assms(2) show ?thesis using mod_kept by (simp add: files run(1))
  next
    case (Some e)
    then show ?thesis
      by (auto simp: run(2) errors_Join_def restore_failed_def files filepath_Base_def)
  qed
  have sum: "node_at fs' (root @ [''go.sum'']) = node_at fs0 (root @ [''go.sum'']) \<or>
      (\<exists>e. r = Some e \<and> restore_failed ''go.sum'' e)"
  proof (cases b)
    case None
    with 2(3) named have "describes s fs2" by simp
    with describes_same [of s fs0 fs2] assms(2) show ?thesis by (simp add: files run(1))
  next
    case (Some e)
    then show ?thesis
      by (auto simp: run(2) errors_Join_def restore_failed_def files filepath_Base_def)
  qed
  from mod sum show "name \<in> {''go.mod'', ''go.sum''} \<Longrightarrow>
      node_at fs' (root @ [name]) = node_at fs0 (root @ [name]) \<or> (\<exists>e. r = Some e \<and> restore_failed name e)"
    by blast
qed

section \<open>The workflow output\<close>

definition output_lines :: "string \<Rightarrow> string \<Rightarrow> string \<Rightarrow> go_bytes" where
  "output_lines version commit selectedImage =
     ''source_commit='' @ commit @ [CHR 0x0A] @ ''source_version='' @ version @ [CHR 0x0A] @
     ''operand_image='' @ selectedImage @ [CHR 0x0A]"

text \<open>
  Putting a file back to what it was. The restore of the output failed, in a state in which a step
  of the update left the file system, and the error it failed with is part of the reported one.
\<close>

definition restore_original :: "path \<Rightarrow> node option \<Rightarrow> fsys \<Rightarrow> gerror option \<times> fsys" where
  "restore_original p old fs =
     (case old of Some (Regular data mode) \<Rightarrow> restoreFile p data mode fs | _ \<Rightarrow> removeFile p fs)"

definition output_unrestored :: "path \<Rightarrow> node option \<Rightarrow> fsys set \<Rightarrow> gerror \<Rightarrow> bool" where
  "output_unrestored o' old left err \<longleftrightarrow>
     (\<exists>f \<in> left. \<exists>e f'. restore_original o' old f = (Some e, f') \<and> e \<in> set (error_parts err))"

lemma output_unrestored_joined:
  "Some e \<in> set es \<Longrightarrow> output_unrestored o' old left e \<Longrightarrow> output_unrestored o' old left (joined es)"
  unfolding output_unrestored_def using joined_parts by blast

lemma output_unrestored_more:
  "output_unrestored o' old left e \<Longrightarrow> left \<subseteq> left' \<Longrightarrow> output_unrestored o' old left' e"
  unfolding output_unrestored_def by blast

lemma restore_described: "describes s fs0 \<Longrightarrow> restore_original (sn_path s) (node_at fs0 (sn_path s)) = restore_snapshot s"
  by (rule ext) (simp add: describes_def restore_original_def restore_snapshot_def)

text \<open>Appending the text failed, or worked, from one state to another.\<close>

definition append_failed :: "path \<Rightarrow> go_bytes \<Rightarrow> fsys \<Rightarrow> fsys \<Rightarrow> bool" where
  "append_failed p text fs f \<longleftrightarrow>
     (\<exists>e. OpenAppend p fs = (Some e, f)) \<or>
     (\<exists>g w g' cl. OpenAppend p fs = (None, g) \<and> Write p text g = (w, g') \<and> Close g' = (cl, f) \<and>
        (w \<noteq> None \<or> cl \<noteq> None))"

definition appended :: "path \<Rightarrow> go_bytes \<Rightarrow> fsys \<Rightarrow> fsys \<Rightarrow> bool" where
  "appended p text fs f \<longleftrightarrow>
     (\<exists>g g'. OpenAppend p fs = (None, g) \<and> Write p text g = (None, g') \<and> Close g' = (None, f))"

lemma restored_output:
  assumes "restore_snapshot s fs = (r, fs')" and "describes s fs0" and "o' = sn_path s" and "o' \<noteq> []"
    and "sn_exists s \<Longrightarrow> node_at fs o' \<noteq> None"
  shows "clear_of o' q \<Longrightarrow> node_at fs' q = node_at fs q" and "fs_umask fs' = fs_umask fs"
    and "fs \<in> left \<Longrightarrow> node_at fs' o' = node_at fs0 o' \<or>
      (\<exists>e. r = Some e \<and> output_unrestored o' (node_at fs0 o') left e)"
proof -
  note res = restore_snapshot_result [OF assms(1) assms(4) [unfolded assms(3)]] assms(5)
  show "node_at fs' q = node_at fs q" if "clear_of o' q" using res(1) assms(3,5) that by blast
  show "fs_umask fs' = fs_umask fs" using res(2) assms(3,5) by blast
  show "node_at fs' o' = node_at fs0 o' \<or> (\<exists>e. r = Some e \<and> output_unrestored o' (node_at fs0 o') left e)"
    if "fs \<in> left"
  proof (cases r)
    case None
    then have "describes s fs'" using res(3) assms(3,5) by blast
    then show ?thesis using describes_same [OF assms(2)] assms(3) by blast
  next
    case (Some e)
    with assms(1,3) restore_described [OF assms(2)] have "restore_original o' (node_at fs0 o') fs = (Some e, fs')" by simp
    with that have "output_unrestored o' (node_at fs0 o') left e"
      unfolding output_unrestored_def by (blast intro: error_parts_self)
    with Some show ?thesis by blast
  qed
qed

lemma OpenAppend_exists: "OpenAppend p fs = (None, fs') \<Longrightarrow> \<exists>old m. node_at fs p = Some (Regular old m)"
  by (auto simp: OpenAppend_def split: prod.splits answer.splits option.splits node.splits)

lemma written_output:
  assumes "writeWorkflowOutput (Some o') (Some s) version commit selectedImage fs = (r, fs')"
    and "describes s fs" and "sn_path s = o'" and "o' \<noteq> []"
  shows "clear_of o' q \<Longrightarrow> node_at fs' q = node_at fs q" and "fs_umask fs' = fs_umask fs"
    and "r = None \<Longrightarrow> \<exists>old m. node_at fs o' = Some (Regular old m) \<and>
      node_at fs' = (node_at fs)(o' \<mapsto> Regular (old @ output_lines version commit selectedImage) m)"
    and "r = Some err \<Longrightarrow> node_at fs' o' = node_at fs o' \<or> output_unrestored o' (node_at fs o') {f. append_failed o' (output_lines version commit selectedImage) fs f} err"
proof -
  obtain r1 fs1 where op: "OpenAppend o' fs = (r1, fs1)" by fastforce
  note opened = OpenAppend_result [OF op]
  have "(clear_of o' q \<longrightarrow> node_at fs' q = node_at fs q) \<and> fs_umask fs' = fs_umask fs \<and>
    (r = None \<longrightarrow> (\<exists>old m. node_at fs o' = Some (Regular old m) \<and>
      node_at fs' = (node_at fs)(o' \<mapsto> Regular (old @ output_lines version commit selectedImage) m))) \<and>
    (\<forall>err. r = Some err \<longrightarrow> node_at fs' o' = node_at fs o' \<or> output_unrestored o' (node_at fs o') {f. append_failed o' (output_lines version commit selectedImage) fs f} err)"
  proof (cases r1)
    case (Some e)
    obtain rr fs2 where undo: "restore_snapshot s fs1 = (rr, fs2)" by fastforce
    have run: "r = Some (joined [Some e, rr])" "fs' = fs2"
      using assms(1) op Some undo by (auto simp: writeWorkflowOutput_def restoreWorkflowOutput_snapshot)
    have "node_at fs1 o' \<noteq> None" if "sn_exists s" using assms(2,3) opened that by (simp add: describes_def)
    note undone = restored_output [OF undo assms(2) assms(3) [symmetric] assms(4) this]
    have "append_failed o' (output_lines version commit selectedImage) fs fs1" using op Some by (simp add: append_failed_def)
    then have "node_at fs' o' = node_at fs o' \<or> output_unrestored o' (node_at fs o') {f. append_failed o' (output_lines version commit selectedImage) fs f} (joined [Some e, rr])"
      using undone(3) [of "{f. append_failed o' (output_lines version commit selectedImage) fs f}"] run(2) by (auto intro: output_unrestored_joined)
    then show ?thesis using undone(1,2) opened run by simp
  next
    case None
    then obtain old m where regular: "node_at fs1 o' = Some (Regular old m)" using OpenAppend_exists op opened by fastforce
    obtain r2 fs2 where wr: "Write o' (output_lines version commit selectedImage) fs1 = (r2, fs2)" by fastforce
    obtain r3 fs3 where cl: "Close fs2 = (r3, fs3)" by fastforce
    obtain written where w: "fs_umask fs2 = fs_umask fs1" "node_at fs2 = (node_at fs1)(o' \<mapsto> Regular (old @ written) m)"
        "r2 = None \<longrightarrow> written = output_lines version commit selectedImage"
      using handle_results(1) [OF regular wr] by auto
    note c = Close_result [OF cl]
    show ?thesis
    proof (cases "r2 \<noteq> None \<or> r3 \<noteq> None")
      case False
      then have "r = None" "fs' = fs3"
        using assms(1) op None wr cl by (auto simp: writeWorkflowOutput_def output_lines_def)
      then show ?thesis using w c opened False regular by (auto simp: clear_of_def)
    next
      case True
      obtain rr fs4 where undo: "restore_snapshot s fs3 = (rr, fs4)" by fastforce
      have run: "r = Some (joined [r2, r3, rr])" "fs' = fs4"
        using assms(1) op None wr cl True undo
        by (auto simp: writeWorkflowOutput_def output_lines_def restoreWorkflowOutput_snapshot)
      have "node_at fs3 o' \<noteq> None" using w c by simp
      note undone = restored_output [OF undo assms(2) assms(3) [symmetric] assms(4) this]
      have "append_failed o' (output_lines version commit selectedImage) fs fs3"
        using op None wr cl True by (auto simp: append_failed_def)
      then have "node_at fs' o' = node_at fs o' \<or> output_unrestored o' (node_at fs o') {f. append_failed o' (output_lines version commit selectedImage) fs f} (joined [r2, r3, rr])"
        using undone(3) [of "{f. append_failed o' (output_lines version commit selectedImage) fs f}"] run(2) by (auto intro: output_unrestored_joined)
      moreover have "node_at fs' q = node_at fs q" if "clear_of o' q"
        using undone(1) [OF that] that run(2) c w(2) opened by (auto simp: clear_of_def)
      ultimately show ?thesis using undone(2) c w(1) opened run by simp
    qed
  qed
  then show "clear_of o' q \<Longrightarrow> node_at fs' q = node_at fs q" and "fs_umask fs' = fs_umask fs"
    and "r = None \<Longrightarrow> \<exists>old m. node_at fs o' = Some (Regular old m) \<and>
      node_at fs' = (node_at fs)(o' \<mapsto> Regular (old @ output_lines version commit selectedImage) m)"
    and "r = Some err \<Longrightarrow> node_at fs' o' = node_at fs o' \<or> output_unrestored o' (node_at fs o') {f. append_failed o' (output_lines version commit selectedImage) fs f} err" by blast+
qed

lemma written_appended:
  "writeWorkflowOutput (Some o') snap version commit selectedImage fs = (None, fs') \<Longrightarrow>
     appended o' (output_lines version commit selectedImage) fs fs'"
  by (auto simp: writeWorkflowOutput_def appended_def output_lines_def split: option.splits prod.splits if_splits)

end
