(* ===== verification/Source_Generate.thy ===== *)
theory Source_Generate
  imports Source_Pin Install
begin

text \<open>
  tools/source-update/generate.go: checking out the operand's sources, checking the Go version its
  generators need, running them, and rendering the installer with the pinned image.
\<close>

section \<open>Lines of a file\<close>

fun split_lines :: "string \<Rightarrow> string list" where
  "split_lines [] = [[]]"
| "split_lines (c # cs) =
     (if c = CHR 0x0A then [] # split_lines cs
      else (case split_lines cs of [] \<Rightarrow> [[c]] | l # ls \<Rightarrow> (c # l) # ls))"

text \<open>The first line of go.mod that is a go directive, as a version of package go/version.\<close>

fun goDirective :: "string list \<Rightarrow> string" where
  "goDirective [] = []"
| "goDirective (line # lines) =
     (case Fields line of
        [key, version] \<Rightarrow> if key = ''go'' then ''go'' @ version else goDirective lines
      | _ \<Rightarrow> goDirective lines)"

definition checkGeneratorGo :: "toolchain \<Rightarrow> path \<Rightarrow> fsys \<Rightarrow> gerror option \<times> fsys" where
  "checkGeneratorGo T source fs =
     (case ReadFile (source @ [''go.mod'']) fs of
        (Inl err, fs) \<Rightarrow> (Some err, fs)
      | (Inr data, fs) \<Rightarrow>
          (let required = goDirective (split_lines data) in
           case generatorCommand T (Some source) True ''go'' [''env'', ''GOVERSION''] fs of
             (Inl err, fs) \<Rightarrow> (Some err, fs)
           | (Inr out, fs) \<Rightarrow>
               (let current = TrimSpace out;
                    compiler = (case Cut current '' '' of None \<Rightarrow> current | Some (c, rest) \<Rightarrow> c)
                in if \<not> tc_VersionValid T required \<or> \<not> tc_VersionValid T compiler
                   then (Some (Message (''cannot determine generator Go minimum/current version ('' @
                          Quote required @ '', '' @ Quote current @ '')'')), fs)
                   else if tc_VersionCompare T compiler required < 0
                   then (Some (Message (''generator source requires Go '' @
                          (case CutPrefix required ''go'' of None \<Rightarrow> required | Some v \<Rightarrow> v) @
                          ''; local compiler is '' @ current)), fs)
                   else (None, fs))))"

definition generatorMakeArgs :: "path \<Rightarrow> string list" where
  "generatorMakeArgs source =
     (let toolDir = source @ [''bin''] in
      [''-C'', path_text source, ''-f'', ''Makefile-ocp.mk'', ''manifests'', ''generate'', ''kustomize'',
       ''LOCALBIN='' @ path_text toolDir,
       ''KUSTOMIZE='' @ path_text (toolDir @ [''kustomize'']),
       ''CONTROLLER_GEN='' @ path_text (toolDir @ [''controller-gen'']),
       ''KUSTOMIZE_VERSION=v5.7.1'',
       ''CONTROLLER_TOOLS_VERSION=v0.21.0''])"

definition renderInstaller ::
    "toolchain \<Rightarrow> path \<Rightarrow> path \<Rightarrow> path \<Rightarrow> path \<Rightarrow> string \<Rightarrow> fsys \<Rightarrow> gerror option \<times> fsys" where
  "renderInstaller T source stage installer kustomize ref fs =
     (if \<not> validImageReference ref
      then (Some (Message (''invalid pinned operand image '' @ Quote ref)), fs)
      else
        (let overlay = stage @ [''installer-overlay''] in
         case MkdirAll overlay fs of
           (Some err, fs) \<Rightarrow> (Some err, fs)
         | (None, fs) \<Rightarrow>
             (case tc_Symlink T (source @ [''config'', ''overlays'', ''odh'']) (overlay @ [''base'']) fs of
                (Some err, fs) \<Rightarrow> (Some err, fs)
              | (None, fs) \<Rightarrow>
                  (case WriteFile (overlay @ [''kustomization.yaml''])
                          (''resources:'' @ [CHR 0x0A] @ ''- base'' @ [CHR 0x0A]) 0x1A4 fs of
                     (Some err, fs) \<Rightarrow> (Some err, fs)
                   | (None, fs) \<Rightarrow>
                       (case generatorCommand T (Some overlay) True (path_text kustomize)
                               [''edit'', ''set'', ''image'', ''controller='' @ ref] fs of
                          (Inl err, fs) \<Rightarrow> (Some err, fs)
                        | (Inr out, fs) \<Rightarrow>
                            (case generatorCommand T (Some overlay) True (path_text kustomize)
                                    [''build'', path_text overlay] fs of
                               (Inl err, fs) \<Rightarrow> (Some err, fs)
                             | (Inr data, fs) \<Rightarrow> WriteFile installer data 0x1A4 fs))))))"

text \<open>The staged config tree and the staged installer.\<close>

definition generate ::
    "toolchain \<Rightarrow> string \<Rightarrow> string \<Rightarrow> path \<Rightarrow> fsys \<Rightarrow> (path \<times> path) result \<times> fsys" where
  "generate T commit ref stage fs =
     (case MkdirAll stage fs of
        (Some err, fs) \<Rightarrow> (Inl err, fs)
      | (None, fs) \<Rightarrow>
          (let source = stage @ [''source''] in
           case sourceCommit T commit source repo fs of
             (Inl err, fs) \<Rightarrow> (Inl err, fs)
           | (Inr resolved, fs) \<Rightarrow>
               (case runCommand T (Some source) False ''git''
                       [''-C'', path_text source, ''checkout'', ''--detach'', ''FETCH_HEAD''] fs of
                  (Inl err, fs) \<Rightarrow> (Inl err, fs)
                | (Inr out, fs) \<Rightarrow>
                    (case runCommand T (Some source) True ''git''
                            [''-C'', path_text source, ''rev-parse'', ''HEAD''] fs of
                       (Inl err, fs) \<Rightarrow> (Inl err, fs)
                     | (Inr out, fs) \<Rightarrow>
                         (let actual = TrimSpace out in
                          if actual \<noteq> commit
                          then (Inl (Message (''checkout mismatch: requested '' @ commit @ '', got '' @ actual)), fs)
                          else
                            (case checkGeneratorGo T source fs of
                               (Some err, fs) \<Rightarrow> (Inl err, fs)
                             | (None, fs) \<Rightarrow>
                                 (case generatorCommand T None False ''make'' (generatorMakeArgs source) fs of
                                    (Inl err, fs) \<Rightarrow> (Inl err, fs)
                                  | (Inr out, fs) \<Rightarrow>
                                      (case copyTree (source @ [''config'']) (stage @ [''config'']) fs of
                                         (Some err, fs) \<Rightarrow> (Inl err, fs)
                                       | (None, fs) \<Rightarrow>
                                           (case renderInstaller T source stage (stage @ [''installer.yaml''])
                                                   (source @ [''bin'', ''kustomize'']) ref fs of
                                              (Some err, fs) \<Rightarrow> (Inl err, fs)
                                            | (None, fs) \<Rightarrow>
                                                (Inr (stage @ [''config''], stage @ [''installer.yaml'']), fs))))))))))"

end
