(* ===== verification/Source_Sync.thy ===== *)
theory Source_Sync
  imports Source_Update Source_Generate
begin

text \<open>
  The two commands of tools/source-update: \<open>update\<close> and \<open>verify\<close> of update.go, and the choice between
  them in main.go. Text printed on the way is left out.
\<close>

definition update ::
    "toolchain \<Rightarrow> 'w registry_api \<Rightarrow> path option \<Rightarrow> path \<Rightarrow> string \<Rightarrow> fsys \<times> 'w \<Rightarrow> gerror option \<times> fsys \<times> 'w" where
  "update T R outputPath root ref = (\<lambda>(fs, w).
     (case validateRef T ref fs of
        (Some err, fs) \<Rightarrow> (Some err, fs, w)
      | (None, fs) \<Rightarrow>
          (case MkdirTemp (tc_TempDir T) ''operand-update-'' fs of
             (Inl err, fs) \<Rightarrow> (Some err, fs, w)
           | (Inr stage, fs) \<Rightarrow>
               (case (case sourceCommit T ref (stage @ [''resolve'']) repo fs of
                   (Inl err, fs) \<Rightarrow> (Some err, fs, w)
                 | (Inr commit, fs) \<Rightarrow>
                     (case moduleVersion T commit stage fs of
                        (Inl err, fs) \<Rightarrow> (Some err, fs, w)
                      | (Inr (version, originCommit), fs) \<Rightarrow>
                          if originCommit \<noteq> commit
                          then (Some (Message (''Go resolved '' @ fork @ ''@'' @ commit @ '' to source '' @ originCommit)), fs, w)
                          else
                            (case resolveOperandImage R originCommit w of
                               (Inl err, w) \<Rightarrow> (Some err, fs, w)
                             | (Inr selectedImage, w) \<Rightarrow>
                                 (let generated = stage @ [''generated''] in
                                  case generate T originCommit selectedImage generated fs of
                                    (Inl err, fs) \<Rightarrow> (Some err, fs, w)
                                  | (Inr (configStage, installerStage), fs) \<Rightarrow>
                                      (let pinStage = generated @ [''operand-image.json''] in
                                       case writeImagePin pinStage
                                               \<lparr>SourceCommit = commit, PinImage = selectedImage\<rparr> fs of
                                         (Some err, fs) \<Rightarrow> (Some err, fs, w)
                                       | (None, fs) \<Rightarrow>
                                           (case applyUpdate T outputPath root version commit selectedImage
                                                   configStage installerStage pinStage fs of
                                              (err, fs) \<Rightarrow> (err, fs, w))))))) of
                  (err, fs, w) \<Rightarrow> (err, snd (RemoveAll stage fs), w)))))"

definition verifyStaged :: "toolchain \<Rightarrow> path \<Rightarrow> string \<Rightarrow> path \<Rightarrow> fsys \<Rightarrow> gerror option \<times> fsys" where
  "verifyStaged T root pinned stage fs =
     (case moduleVersion T pinned stage fs of
        (Inl err, fs) \<Rightarrow> (Some err, fs)
      | (Inr (version, commit), fs) \<Rightarrow>
          if version \<noteq> pinned
          then (Some (Message (''pinned version '' @ pinned @ '' resolved as '' @ version)), fs)
          else
            (case readImagePin (tc_NextJSON T) (root @ imagePinPath) fs of
               (Inl err, fs) \<Rightarrow> (Some err, fs)
             | (Inr pin, fs) \<Rightarrow>
                 if commit \<noteq> SourceCommit pin
                 then (Some (Message (''Go source '' @ fork @ ''@'' @ pinned @ '' resolves to '' @ commit @
                        '', operand image record pins '' @ SourceCommit pin)), fs)
                 else
                   (case generate T (SourceCommit pin) (PinImage pin) stage fs of
                      (Inl err, fs) \<Rightarrow> (Some err, fs)
                    | (Inr (configStage, installerStage), fs) \<Rightarrow>
                        (case treeDiff configStage (root @ configPath) fs of
                           (Inl err, fs) \<Rightarrow> (Some err, fs)
                         | (Inr diffs, fs) \<Rightarrow>
                             (case installerDiffers (root @ installerPath) installerStage fs of
                                (installerDiff, fs) \<Rightarrow>
                                  if diffs \<noteq> [] \<or> installerDiff
                                  then (Some (Message (''run make update-operand-manifests MCPLO_REF='' @
                                         SourceCommit pin)), fs)
                                  else (None, fs))))))"

definition verify :: "toolchain \<Rightarrow> path \<Rightarrow> fsys \<Rightarrow> gerror option \<times> fsys" where
  "verify T root fs =
     (case runCommand T (Some root) True ''go'' [''mod'', ''edit'', ''-json''] fs of
        (Inl err, fs) \<Rightarrow> (Some err, fs)
      | (Inr modJSON, fs) \<Rightarrow>
          (case sourcePin T modJSON of
             Inl err \<Rightarrow> (Some err, fs)
           | Inr pinned \<Rightarrow>
               (case MkdirTemp (tc_TempDir T) ''operand-verify-'' fs of
                  (Inl err, fs) \<Rightarrow> (Some err, fs)
                | (Inr stage, fs) \<Rightarrow>
                    (case verifyStaged T root pinned stage fs of
                       (err, fs) \<Rightarrow> (err, snd (RemoveAll stage fs))))))"

definition runMain ::
    "toolchain \<Rightarrow> 'w registry_api \<Rightarrow> path option \<Rightarrow> string \<Rightarrow> path result \<Rightarrow> string list \<Rightarrow> fsys \<times> 'w
      \<Rightarrow> gerror option \<times> fsys \<times> 'w" where
  "runMain T R outputPath envRef wd args = (\<lambda>(fs, w).
     (if length args < 1 \<or> length args > 2 \<or> (args ! 0 \<noteq> ''update'' \<and> args ! 0 \<noteq> ''verify'') \<or>
         (args ! 0 = ''verify'' \<and> length args \<noteq> 1)
      then (Some (Message ''usage: go run ./tools/source-update update [ref] | verify''), fs, w)
      else
        (case wd of
           Inl err \<Rightarrow> (Some err, fs, w)
         | Inr root \<Rightarrow>
             if args ! 0 = ''verify'' then (case verify T root fs of (err, fs) \<Rightarrow> (err, fs, w))
             else
               (let ref = (if envRef \<noteq> [] then envRef else ''main'');
                    ref = (if length args = 2 then args ! 1 else ref)
                in update T R outputPath root ref (fs, w)))))"

end
