(* ===== verification/Source_Spec.thy ===== *)
theory Source_Spec
  imports Source_Undo Source_Sync
begin

text \<open>
  The update of tools/source-update as a transaction: pinning the version in go.mod, announcing the
  outputs of the workflow step, and installing the generated files either all happen, or are undone.
\<close>

section \<open>What the go command may change\<close>

text \<open>
  \<open>go mod edit\<close> and \<open>go mod tidy\<close> rewrite go.mod and go.sum of the module they run in; besides, they
  fill the module and build caches, which lie elsewhere.
\<close>

definition go_step :: "path \<Rightarrow> path set \<Rightarrow> fsys \<Rightarrow> fsys \<Rightarrow> bool" where
  "go_step root caches fs fs' \<longleftrightarrow> fs_umask fs' = fs_umask fs \<and> (rooted fs \<longrightarrow> rooted fs') \<and>
     (\<forall>q. q \<notin> modules root \<and> (\<forall>c \<in> caches. \<not> prefix c q) \<longrightarrow> node_at fs' q = node_at fs q)"

definition go_tool :: "toolchain \<Rightarrow> path \<Rightarrow> path set \<Rightarrow> bool" where
  "go_tool T root caches \<longleftrightarrow> (\<forall>env args fs out fs'.
     tc_exec T env (Some root) ''go'' (''mod'' # args) fs = (out, fs') \<longrightarrow> go_step root caches fs fs')"

text \<open>
  The staged files lie outside the repository, the file of the workflow outputs in a directory apart
  from it, and the caches apart from all of them.
\<close>

definition update_layout :: "path set \<Rightarrow> path option \<Rightarrow> path \<Rightarrow> path set \<Rightarrow> bool" where
  "update_layout caches out root staged \<longleftrightarrow>
     (\<forall>s \<in> staged. s \<parallel> root \<and> (\<forall>o'. out = Some o' \<longrightarrow> \<not> prefix s o')) \<and>
     (\<forall>o'. out = Some o' \<longrightarrow> filepath_Dir o' \<parallel> root) \<and>
     (\<forall>c \<in> caches. c \<parallel> root \<and> (\<forall>s \<in> staged. c \<parallel> s) \<and> (\<forall>o'. out = Some o' \<longrightarrow> \<not> prefix c o'))"

lemma go_step_refl [simp]: "go_step root caches fs fs"
  by (simp add: go_step_def)

lemma go_step_trans: "go_step root caches fs fs' \<Longrightarrow> go_step root caches fs' fs'' \<Longrightarrow> go_step root caches fs fs''"
  by (simp add: go_step_def)

lemma run_go:
  assumes "go_tool T root caches" and "runCommand T (Some root) capture ''go'' (''mod'' # args) fs = (r, fs')"
  shows "go_step root caches fs fs'"
proof -
  obtain out fs1 where exec: "tc_exec T (localToolchainEnv T) (Some root) ''go'' (''mod'' # args) fs = (out, fs1)"
    by fastforce
  then have "fs' = fs1"
    using assms(2) by (auto simp: runCommand_def runCommandEnv_def split: option.splits prod.splits)
  with assms(1) exec show ?thesis unfolding go_tool_def by blast
qed

lemma pinModule_result:
  assumes "pinModule T root version fs = (r, fs')" and "go_tool T root caches"
  shows "go_step root caches fs fs'"
    and "r = None \<Longrightarrow> \<exists>fs1 json. runCommand T (Some root) True ''go'' [''mod'', ''edit'', ''-json''] fs1 = (Inr json, fs') \<and>
      sourcePin T json = Inr version"
proof -
  obtain r1 fs1 where one: "runCommand T (Some root) False ''go''
      [''mod'', ''edit'', ''-require='' @ canonical @ ''@'' @ placeholderVersion,
       ''-replace='' @ canonical @ ''='' @ fork @ ''@'' @ version] fs = (r1, fs1)" by fastforce
  obtain r2 fs2 where two: "runCommand T (Some root) False ''go'' [''mod'', ''tidy''] fs1 = (r2, fs2)" by fastforce
  obtain r3 fs3 where three: "runCommand T (Some root) True ''go'' [''mod'', ''edit'', ''-json''] fs2 = (r3, fs3)" by fastforce
  note steps = run_go [OF assms(2) one] run_go [OF assms(2) two] run_go [OF assms(2) three]
  have "go_step root caches fs fs1" "go_step root caches fs fs2" "go_step root caches fs fs3"
    using steps go_step_trans by blast+
  then show "go_step root caches fs fs'"
    using assms(1) one two three by (auto simp: pinModule_def split: sum.splits if_splits)
  show "\<exists>fs1 json. runCommand T (Some root) True ''go'' [''mod'', ''edit'', ''-json''] fs1 = (Inr json, fs') \<and>
      sourcePin T json = Inr version" if "r = None"
    using assms(1) one two three that
    by (auto simp: pinModule_def split: sum.splits if_splits intro!: exI [of _ fs2])
qed

section \<open>Undoing\<close>

definition outputs_back :: "path \<Rightarrow> path option \<Rightarrow> fsys set \<Rightarrow> fsys \<Rightarrow> fsys \<Rightarrow> gerror \<Rightarrow> bool" where
  "outputs_back root out left fs0 fs err \<longleftrightarrow>
     (\<forall>t \<in> installTargets root. tree fs t = tree fs0 t \<or> (\<exists>e \<in> set (error_parts err). rollback_incomplete e)) \<and>
     (\<forall>o'. out = Some o' \<longrightarrow>
        node_at fs o' = node_at fs0 o' \<or> output_unrestored o' (node_at fs0 o') left err)"

definition modules_back :: "path \<Rightarrow> fsys \<Rightarrow> fsys \<Rightarrow> gerror \<Rightarrow> bool" where
  "modules_back root fs0 fs err \<longleftrightarrow> (\<forall>name \<in> {''go.mod'', ''go.sum''}.
     node_at fs (root @ [name]) = node_at fs0 (root @ [name]) \<or> restore_failed name err)"

lemma reports_joined:
  assumes "Some e \<in> set es"
  shows "restore_failed name e \<Longrightarrow> restore_failed name (joined es)"
    and "output_unrestored o' old left e \<Longrightarrow> output_unrestored o' old left (joined es)"
    and "x \<in> set (error_parts e) \<Longrightarrow> x \<in> set (error_parts (joined es))"
  using joined_parts [OF assms] output_unrestored_joined [OF assms] unfolding restore_failed_def by blast+

lemma outputs_back_joined:
  "Some e \<in> set es \<Longrightarrow> outputs_back root out left fs0 fs e \<Longrightarrow> outputs_back root out left fs0 fs (joined es)"
  unfolding outputs_back_def using reports_joined(2,3) by metis

lemma outputs_back_more:
  "outputs_back root out left fs0 fs e \<Longrightarrow> left \<subseteq> left' \<Longrightarrow> outputs_back root out left' fs0 fs e"
  unfolding outputs_back_def using output_unrestored_more by metis

lemma target_under:
  "t \<in> installTargets root \<Longrightarrow> \<exists>x xs. t = root @ x # xs \<and> x \<in> {''config'', ''internal'', ''operand-image.json''}"
  by (auto simp: installTargets_def configPath_def installerPath_def imagePinPath_def)

lemma clear_targets:
  assumes "t \<in> installTargets root" and "name \<in> {''go.mod'', ''go.sum''}"
  shows "clear_of (root @ [name]) (t @ q)"
proof -
  obtain x xs where "t = root @ x # xs" and x: "x \<in> {''config'', ''internal'', ''operand-image.json''}"
    using target_under [OF assms(1)] by blast
  then show ?thesis
    using assms(2) sibling_clear [of "x # xs @ q" name root] by auto
qed

lemma outside_dir:
  assumes "filepath_Dir p \<parallel> root"
  shows "p \<parallel> root" and "p \<noteq> []"
proof -
  show "p \<noteq> []" using assms by (auto simp: filepath_Dir_def)
  from path_split [OF this] show "p \<parallel> root"
    using assms by (metis parallel_append [of "filepath_Dir p" root "[filepath_Base p]" "[]"] append_Nil2)
qed

lemma rollback_update:
  assumes "rollbackUpdate files cause fs = (r, fs')" and "list_all (\<lambda>s. describes s fs0) files"
    and "map sn_path files = [root @ [''go.mod''], root @ [''go.sum'']]"
    and "outputs_back root out left fs0 fs cause" and "\<And>o'. out = Some o' \<Longrightarrow> o' \<parallel> root"
  shows "\<exists>err. r = Some err \<and> modules_back root fs0 fs' err \<and> outputs_back root out left fs0 fs' err"
proof -
  obtain rr where undo: "restoreModuleFiles files fs = (rr, fs')" and r: "r = Some (joined [Some cause, rr])"
    using assms(1) by (auto simp: rollbackUpdate_def joined_def errors_Join_def split: prod.splits)
  note undone = restore_modules [OF undo assms(2,3)]
  have "modules_back root fs0 fs' (joined [Some cause, rr])"
    unfolding modules_back_def using undone(3) reports_joined(1) [of _ "[Some cause, rr]"] by fastforce
  moreover have "tree fs' t = tree fs t" if "t \<in> installTargets root" for t
    using undone(1) clear_targets [OF that] by (simp add: tree_def fun_eq_iff)
  moreover have "node_at fs' o' = node_at fs o'" if "out = Some o'" for o'
    using undone(1) under_clear [OF assms(5) [OF that]] by simp
  ultimately have "outputs_back root out left fs0 fs' cause" using assms(4) by (simp add: outputs_back_def)
  then show ?thesis
    using r \<open>modules_back root fs0 fs' (joined [Some cause, rr])\<close> outputs_back_joined [of cause "[Some cause, rr]"]
    by fastforce
qed

section \<open>Up to the installation\<close>

definition up_frame :: "path set \<Rightarrow> path \<Rightarrow> path option \<Rightarrow> fsys \<Rightarrow> fsys \<Rightarrow> bool" where
  "up_frame caches root out fs fs' \<longleftrightarrow> (\<forall>q. q \<notin> modules root \<and> (\<forall>c \<in> caches. \<not> prefix c q) \<and> out \<noteq> Some q \<longrightarrow>
     node_at fs' q = node_at fs q)"

lemma frame_target:
  assumes "up_frame caches root out fs fs'" and "update_layout caches out root staged" and "t \<in> installTargets root"
  shows "tree fs' t = tree fs t"
proof
  fix q
  obtain x xs where t: "t = root @ x # xs" and x: "x \<in> {''config'', ''internal'', ''operand-image.json''}"
    using target_under [OF assms(3)] by blast
  have "t @ q \<notin> modules root" using x by (auto simp: t modules_def)
  moreover have "\<not> prefix c (t @ q)" if "c \<in> caches" for c
    using assms(2) that prefix_apart [of c root "x # xs @ q"] by (simp add: t update_layout_def)
  moreover have "out \<noteq> Some (t @ q)"
    using assms(2) outside_dir(1) [of "t @ q" root] by (auto simp: t update_layout_def parallel_def)
  ultimately show "tree fs' t q = tree fs t q" using assms(1) by (simp add: up_frame_def tree_def)
qed

lemma frame_staged:
  assumes "up_frame caches root out fs fs'" and "update_layout caches out root staged" and "s \<in> staged"
  shows "tree fs' s = tree fs s"
proof
  fix q
  have "s \<parallel> root" and "\<And>c. c \<in> caches \<Longrightarrow> \<not> prefix c (s @ q)" and "out \<noteq> Some (s @ q)"
    using assms(2,3) by (auto simp: update_layout_def prefix_apart)
  moreover have "s @ q \<notin> modules root"
    using prefix_apart [OF \<open>s \<parallel> root\<close>] unfolding modules_def by (metis insertE prefixI singletonD)
  ultimately show "tree fs' s q = tree fs s q" using assms(1) by (simp add: up_frame_def tree_def)
qed

text \<open>The output is announced, or there is none.\<close>

definition announced :: "path option \<Rightarrow> go_bytes \<Rightarrow> fsys \<Rightarrow> fsys \<Rightarrow> bool" where
  "announced out text fs fs' \<longleftrightarrow> (\<forall>o'. out = Some o' \<longrightarrow>
     (\<exists>old m. node_at fs o' = Some (Regular old m) \<and> node_at fs' o' = Some (Regular (old @ text) m)))"

text \<open>The states in which a failed append leaves the file system.\<close>

definition lost_appends :: "path option \<Rightarrow> go_bytes \<Rightarrow> fsys \<Rightarrow> fsys set" where
  "lost_appends out text fs = (case out of None \<Rightarrow> {} | Some o' \<Rightarrow> {f. append_failed o' text fs f})"

lemma announce:
  assumes "snapshotWorkflowOutput out fs = (Inr snap, fs1)"
    and "writeWorkflowOutput out snap version commit selectedImage fs1 = (r, fs2)"
    and "update_layout caches out root staged"
  shows "r = None \<Longrightarrow> fs_umask fs2 = fs_umask fs \<and> (rooted fs \<longrightarrow> rooted fs2) \<and> (\<forall>q. out \<noteq> Some q \<longrightarrow> node_at fs2 q = node_at fs q) \<and>
      announced out (output_lines version commit selectedImage) fs fs2"
    and "r = Some err \<Longrightarrow> outputs_back root out (lost_appends out (output_lines version commit selectedImage) fs1) fs fs2 err"
proof -
  note snapped = snapshotWorkflowOutput_result [OF assms(1)]
  have "(r = None \<longrightarrow> fs_umask fs2 = fs_umask fs \<and> (rooted fs \<longrightarrow> rooted fs2) \<and> (\<forall>q. out \<noteq> Some q \<longrightarrow> node_at fs2 q = node_at fs q) \<and>
      announced out (output_lines version commit selectedImage) fs fs2) \<and>
    (\<forall>err. r = Some err \<longrightarrow> outputs_back root out (lost_appends out (output_lines version commit selectedImage) fs1) fs fs2 err)"
  proof (cases out)
    case None
    with assms(2) snapped(1,2) show ?thesis
      by (auto simp: writeWorkflowOutput_def up_frame_def announced_def rooted_def)
  next
    case (Some o')
    then obtain s where s: "snap = Some s" "sn_path s = o'" "describes s fs" using snapped(3) by blast
    then have "describes s fs1" using snapped(1) by (simp add: describes_def)
    have dir: "filepath_Dir o' \<parallel> root" using assms(3) Some by (simp add: update_layout_def)
    note w = written_output [OF assms(2) [unfolded Some s(1)] \<open>describes s fs1\<close> s(2) outside_dir(2) [OF dir]]
    have kept: "node_at fs2 (root @ q) = node_at fs (root @ q)" for q
      using w(1) dir_apart_clear [OF dir outside_dir(2) [OF dir]] snapped(1) by simp
    have "tree fs2 t = tree fs t" if "t \<in> installTargets root" for t
      using target_under [OF that] kept by (auto simp: tree_def fun_eq_iff)
    then have "outputs_back root out (lost_appends out (output_lines version commit selectedImage) fs1) fs fs2 err" if "r = Some err" for err
      using w(4) [OF that] Some snapped(1) by (simp add: outputs_back_def lost_appends_def)
    moreover have "rooted fs2 \<and> (\<forall>q. out \<noteq> Some q \<longrightarrow> node_at fs2 q = node_at fs q) \<and>
        announced out (output_lines version commit selectedImage) fs fs2" if "r = None" "rooted fs"
    proof -
      obtain old m where o': "node_at fs1 o' = Some (Regular old m)"
          "node_at fs2 = (node_at fs1)(o' \<mapsto> Regular (old @ output_lines version commit selectedImage) m)"
        using w(3) [OF \<open>r = None\<close>] by blast
      moreover have "rooted fs1" using that(2) snapped(1) by (simp add: rooted_def)
      ultimately show ?thesis using rooted_set [OF \<open>rooted fs1\<close> _ o'(2)] snapped(1) Some
        by (auto simp: up_frame_def announced_def)
    qed
    moreover have "(\<forall>q. out \<noteq> Some q \<longrightarrow> node_at fs2 q = node_at fs q) \<and> announced out (output_lines version commit selectedImage) fs fs2"
      if "r = None" using w(3) [OF that] snapped(1) Some by (auto simp: up_frame_def announced_def)
    ultimately show ?thesis using w(2) snapped(2) by auto
  qed
  then show "r = None \<Longrightarrow> fs_umask fs2 = fs_umask fs \<and> (rooted fs \<longrightarrow> rooted fs2) \<and> (\<forall>q. out \<noteq> Some q \<longrightarrow> node_at fs2 q = node_at fs q) \<and>
      announced out (output_lines version commit selectedImage) fs fs2"
    and "r = Some err \<Longrightarrow> outputs_back root out (lost_appends out (output_lines version commit selectedImage) fs1) fs fs2 err" by blast+
qed

section \<open>The installation, within the update\<close>

lemma workspace_under: "t \<in> installTargets root \<Longrightarrow> \<exists>x. workspaceAt t name = root @ x"
  by (auto simp: workspaceAt_def installTargets_def filepath_Dir_def butlast_append configPath_def
      installerPath_def imagePinPath_def)

lemma install_keeps_outside:
  assumes "rooted fs" and "c \<parallel> root" and "i \<parallel> root" and "p \<parallel> root"
    and "installOutputs root c i p fs = (r, fs')" and "q \<parallel> root"
  shows "node_at fs' q = node_at fs q"
proof -
  obtain W where W: "fresh_workspaces (installTargets root) fs W"
    and grow: "grows (installTargets root) (W \<union> installTargets root) fs fs'"
    using install_outcome [OF assms(1-5)] by blast
  have off: "\<not> prefix (root @ x) q" for x using assms(6) by (meson append_prefixD parallel_def)
  have "\<not> prefix w q" if "w \<in> W \<union> installTargets root" for w
    using that W off target_under workspace_under unfolding fresh_workspaces_def by (metis UnE)
  moreover have "\<not> prefix q (filepath_Dir t)" if "t \<in> installTargets root" for t
    using target_under [OF that] prefix_apart [OF assms(6)] dir_prefix prefix_order.trans by metis
  ultimately show ?thesis using grow unfolding grows_def by blast
qed

lemma install_keeps_modules:
  assumes "rooted fs" and "c \<parallel> root" and "i \<parallel> root" and "p \<parallel> root"
    and "installOutputs root c i p fs = (r, fs')" and "name \<in> {''go.mod'', ''go.sum''}"
  shows "node_at fs' (root @ [name]) = node_at fs (root @ [name])"
proof -
  obtain W where W: "fresh_workspaces (installTargets root) fs W"
    and grow: "grows (installTargets root) (W \<union> installTargets root) fs fs'"
    using install_outcome [OF assms(1-5)] by blast
  have "\<not> prefix (workspaceAt t x) (root @ [name])" "\<not> prefix t (root @ [name])"
      "\<not> prefix (root @ [name]) (filepath_Dir t)" if "t \<in> installTargets root" for t x
    using that assms(6)
    by (auto simp: installTargets_def workspaceAt_def filepath_Dir_def butlast_append configPath_def
        installerPath_def imagePinPath_def)
  with W grow show ?thesis unfolding grows_def fresh_workspaces_def by (metis UnE)
qed

text \<open>Where the update stands when it installs: pinned and announced, with the snapshots taken.\<close>

definition ready_to_install ::
    "path set \<Rightarrow> path \<Rightarrow> path option \<Rightarrow> go_bytes \<Rightarrow> file_snapshot option \<Rightarrow> fsys \<Rightarrow> fsys \<Rightarrow> bool" where
  "ready_to_install caches root out text snap fs fs' \<longleftrightarrow>
     rooted fs' \<and> fs_umask fs' = fs_umask fs \<and> up_frame caches root out fs fs' \<and> announced out text fs fs' \<and>
     (case out of None \<Rightarrow> snap = None | Some o' \<Rightarrow> (\<exists>s. snap = Some s \<and> sn_path s = o' \<and> describes s fs))"

lemma install_undone:
  assumes "ready_to_install caches root out text snap fs fs1" and "update_layout caches out root {c, i, p}"
    and "installOutputs root c i p fs1 = (Some err, fs2)"
    and "restoreWorkflowOutput snap fs2 = (rerr, fs3)"
  shows "outputs_back root out {fs2} fs fs3 (joined [Some err, rerr])"
proof -
  note ready = assms(1) [unfolded ready_to_install_def]
  have stage: "c \<parallel> root" "i \<parallel> root" "p \<parallel> root" using assms(2) by (simp_all add: update_layout_def)
  have "rooted fs1" using ready by blast
  note inst = install_outcome [OF this stage assms(3)] and off = install_keeps_outside [OF this stage assms(3)]
  have targets: "tree fs2 t = tree fs t \<or> rollback_incomplete err" if "t \<in> installTargets root" for t
    using inst that frame_target [OF _ assms(2) that, of fs fs1] ready by fastforce
  show ?thesis
  proof (cases out)
    case None
    with ready assms(4) have "fs3 = fs2" by (simp add: restoreWorkflowOutput_def)
    with targets None show ?thesis
      unfolding outputs_back_def using reports_joined(3) [of err "[Some err, rerr]"] error_parts_self by fastforce
  next
    case (Some o')
    then obtain s where s: "snap = Some s" "sn_path s = o'" "describes s fs" using ready by auto
    have dir: "filepath_Dir o' \<parallel> root" using assms(2) Some by (simp add: update_layout_def)
    have "node_at fs2 o' = node_at fs1 o'" using off outside_dir(1) [OF dir] by blast
    then have there: "node_at fs2 o' \<noteq> None" using ready Some by (auto simp: announced_def)
    have undo: "restore_snapshot s fs2 = (rerr, fs3)" using assms(4) s(1) by (simp add: restoreWorkflowOutput_snapshot)
    note undone = restored_output [OF undo s(3) s(2) [symmetric] outside_dir(2) [OF dir] there]
    have "tree fs3 t = tree fs2 t" if "t \<in> installTargets root" for t
      using target_under [OF that] undone(1) dir_apart_clear [OF dir outside_dir(2) [OF dir]]
      by (auto simp: tree_def fun_eq_iff)
    then have "tree fs3 t = tree fs t \<or> (\<exists>e \<in> set (error_parts (joined [Some err, rerr])). rollback_incomplete e)"
      if "t \<in> installTargets root" for t
      using targets [OF that] that reports_joined(3) [of err "[Some err, rerr]"] error_parts_self by fastforce
    moreover have "node_at fs3 o' = node_at fs o' \<or> output_unrestored o' (node_at fs o') {fs2} (joined [Some err, rerr])"
      using undone(3) [of "{fs2}"] reports_joined(2) [of _ "[Some err, rerr]" o'] by fastforce
    ultimately show ?thesis using Some by (simp add: outputs_back_def)
  qed
qed

lemma reach_install:
  assumes "rooted fs" and "go_tool T root caches" and "update_layout caches out root staged"
    and "snapshotModuleFiles root fs = (Inr files, fs1)" and "pinModule T root version fs1 = (None, fs2)"
    and "snapshotWorkflowOutput out fs2 = (Inr snap, fs3)"
    and "writeWorkflowOutput out snap version commit selectedImage fs3 = (None, fs4)"
  shows "ready_to_install caches root out (output_lines version commit selectedImage) snap fs fs4"
proof -
  note 1 = snapshotModuleFiles_result(1,2) [OF assms(4)] and 2 = pinModule_result(1) [OF assms(5,2)]
    and 3 = snapshotWorkflowOutput_result [OF assms(6)] and 4 = announce(1) [OF assms(6,7,3) refl]
  have "rooted fs1" using assms(1) 1(1) by (simp add: rooted_def)
  then have "rooted fs4" "fs_umask fs4 = fs_umask fs" using 1(2) 2 4 by (auto simp: go_step_def)
  moreover have same: "node_at fs2 o' = node_at fs o'" if "out = Some o'" for o'
  proof -
    have "o' \<notin> modules root"
      using outside_dir(1) [of o' root] assms(3) that by (auto simp: update_layout_def modules_def parallel_def)
    moreover have "\<not> prefix c o'" if "c \<in> caches" for c
      using assms(3) that \<open>out = Some o'\<close> by (simp add: update_layout_def)
    ultimately show ?thesis using 2 1(1) by (simp add: go_step_def)
  qed
  moreover have "up_frame caches root out fs fs4" using 1(1) 2 4 by (simp add: go_step_def up_frame_def)
  moreover have "announced out (output_lines version commit selectedImage) fs fs4"
    using 4 same by (auto simp: announced_def)
  moreover have "case out of None \<Rightarrow> snap = None | Some o' \<Rightarrow> (\<exists>s. snap = Some s \<and> sn_path s = o' \<and> describes s fs)"
  proof (cases out)
    case (Some o')
    then obtain s where "snap = Some s" "sn_path s = o'" "describes s fs2" using 3(3) by blast
    with same [OF Some] Some show ?thesis by (simp add: describes_def)
  qed (use 3(4) in simp)
  ultimately show ?thesis by (simp add: ready_to_install_def)
qed

section \<open>How an update fails\<close>

text \<open>
  The states from which a failed update restores the output: with everything before it done, the
  append failed, or it worked and the installation failed.
\<close>

definition failed_steps ::
    "toolchain \<Rightarrow> path option \<Rightarrow> path \<Rightarrow> string \<Rightarrow> string \<Rightarrow> string \<Rightarrow> path \<Rightarrow> path \<Rightarrow> path \<Rightarrow> fsys \<Rightarrow> fsys set" where
  "failed_steps T out root version commit selectedImage c i p fs = {f.
     \<exists>o' files f1 f2 snap f3. out = Some o' \<and> snapshotModuleFiles root fs = (Inr files, f1) \<and>
       pinModule T root version f1 = (None, f2) \<and> snapshotWorkflowOutput out f2 = (Inr snap, f3) \<and>
       (append_failed o' (output_lines version commit selectedImage) f3 f \<or>
        (\<exists>g e. appended o' (output_lines version commit selectedImage) f3 g \<and>
           installOutputs root c i p g = (Some e, f)))}"

lemma outputs_back_same:
  assumes "node_at fs' = node_at fs"
  shows "outputs_back root out left fs fs' err"
  using tree_same [OF assms] assms by (simp add: outputs_back_def)

lemma pinning_keeps_outputs:
  assumes "go_step root caches fs fs1" and "update_layout caches out root staged"
    and "outputs_back root out left fs1 fs2 cause"
  shows "outputs_back root out left fs fs2 cause"
proof -
  have "up_frame caches root None fs fs1" using assms(1) by (simp add: go_step_def up_frame_def)
  moreover have "update_layout caches None root {}" using assms(2) by (simp add: update_layout_def)
  ultimately have "tree fs1 t = tree fs t" if "t \<in> installTargets root" for t
    using frame_target that by blast
  moreover have "node_at fs1 o' = node_at fs o'" if "out = Some o'" for o'
  proof -
    have "o' \<parallel> root" using assms(2) that outside_dir(1) by (simp add: update_layout_def)
    then have "o' \<notin> modules root" by (auto simp: modules_def parallel_def)
    then show ?thesis using assms(1,2) that by (simp add: go_step_def update_layout_def)
  qed
  ultimately show ?thesis using assms(3) by (simp add: outputs_back_def)
qed

lemma update_fails:
  assumes "rooted fs" and "go_tool T root caches" and "update_layout caches out root {c, i, p}"
    and "snapshotModuleFiles root fs = (Inr files, fs1)"
    and "applyUpdate T out root version commit selectedImage c i p fs = (Some err, fs')"
  shows "\<exists>cause fs2. rollbackUpdate files cause fs2 = (Some err, fs') \<and>
    outputs_back root out (failed_steps T out root version commit selectedImage c i p fs) fs fs2 cause"
proof -
  let ?left = "failed_steps T out root version commit selectedImage c i p fs"
  obtain r2 fs2 where pin: "pinModule T root version fs1 = (r2, fs2)" by fastforce
  obtain r3 fs3 where snap: "snapshotWorkflowOutput out fs2 = (r3, fs3)" by fastforce
  have start: "node_at fs1 = node_at fs" "fs_umask fs1 = fs_umask fs" using snapshotModuleFiles_result(1,2) [OF assms(4)] .
  have step: "go_step root caches fs fs2"
    using pinModule_result(1) [OF pin assms(2)] start by (simp add: go_step_def rooted_def)
  note early = pinning_keeps_outputs [OF step assms(3)]
  show ?thesis
  proof (cases r2)
    case (Some e)
    with assms(4,5) pin have "rollbackUpdate files e fs2 = (Some err, fs')" by (simp add: applyUpdate_def)
    then show ?thesis using early [OF outputs_back_same [of fs2 fs2]] by blast
  next
    case pinned: None
    show ?thesis
    proof (cases r3)
      case (Inl e)
      with assms(4,5) pin snap pinned have "rollbackUpdate files e fs3 = (Some err, fs')" by (simp add: applyUpdate_def)
      then show ?thesis
        using early [OF outputs_back_same [of fs3 fs2]] snapshotWorkflowOutput_result(1) [OF snap] by blast
    next
      case (Inr shot)
      obtain r4 fs4 where announce': "writeWorkflowOutput out shot version commit selectedImage fs3 = (r4, fs4)" by fastforce
      show ?thesis
      proof (cases r4)
        case (Some e)
        with assms(4,5) pin snap pinned Inr announce' have "rollbackUpdate files e fs4 = (Some err, fs')"
          by (simp add: applyUpdate_def)
        moreover have "outputs_back root out (lost_appends out (output_lines version commit selectedImage) fs3) fs2 fs4 e"
          by (rule announce(2) [OF snap [unfolded Inr] announce' assms(3) Some])
        moreover have "lost_appends out (output_lines version commit selectedImage) fs3 \<subseteq> ?left"
          using assms(4) pin pinned snap Inr by (auto simp: lost_appends_def failed_steps_def split: option.splits)
        ultimately show ?thesis using early outputs_back_more by blast
      next
        case None
        obtain e fs5 where inst: "installOutputs root c i p fs4 = (Some e, fs5)"
          using assms(4,5) pin snap pinned Inr announce' None
          by (auto simp: applyUpdate_def split: option.splits prod.splits)
        obtain re fs6 where undo: "restoreWorkflowOutput shot fs5 = (re, fs6)" by fastforce
        have "rollbackUpdate files (joined [Some e, re]) fs6 = (Some err, fs')"
          using assms(4,5) pin snap pinned Inr announce' None inst undo by (simp add: applyUpdate_def)
        moreover have "ready_to_install caches root out (output_lines version commit selectedImage) shot fs fs4"
          using reach_install [OF assms(1-4)] pin pinned snap Inr announce' None by blast
        ultimately have undone: "rollbackUpdate files (joined [Some e, re]) fs6 = (Some err, fs')"
          "outputs_back root out {fs5} fs fs6 (joined [Some e, re])"
          using install_undone [OF _ assms(3) inst undo] by blast+
        show ?thesis
        proof (cases out)
          case (Some o')
          then have "writeWorkflowOutput (Some o') shot version commit selectedImage fs3 = (None, fs4)"
            using announce' None by simp
          from written_appended [OF this] have "fs5 \<in> ?left"
            unfolding failed_steps_def mem_Collect_eq
            using assms(4) pin [unfolded pinned] snap [unfolded Inr] Some inst
            by (intro exI conjI disjI2) assumption+
          with undone show ?thesis using outputs_back_more [of root out "{fs5}"] by blast
        next
          case no_output: None
          with undone show ?thesis by (auto simp: outputs_back_def)
        qed
      qed
    qed
  qed
qed

section \<open>How an update succeeds\<close>

text \<open>The last go command that read go.mod found the version, and go.mod has not changed since.\<close>

definition version_pinned :: "toolchain \<Rightarrow> path \<Rightarrow> string \<Rightarrow> fsys \<Rightarrow> bool" where
  "version_pinned T root version fs \<longleftrightarrow>
     (\<exists>fs1 fs2 json. runCommand T (Some root) True ''go'' [''mod'', ''edit'', ''-json''] fs1 = (Inr json, fs2) \<and>
       sourcePin T json = Inr version \<and> node_at fs (root @ [''go.mod'']) = node_at fs2 (root @ [''go.mod'']))"

lemma applied_update:
  assumes "rooted fs" and "go_tool T root caches" and "update_layout caches out root {c, i, p}"
    and "applyUpdate T out root version commit selectedImage c i p fs = (None, fs')"
  shows "t \<in> installTargets root \<Longrightarrow> tree fs' t = installed_tree root c i p fs t"
    and "announced out (output_lines version commit selectedImage) fs fs'"
    and "version_pinned T root version fs'"
    and "\<exists>snap fs4. ready_to_install caches root out (output_lines version commit selectedImage) snap fs fs4 \<and>
      installOutputs root c i p fs4 = (None, fs')"
proof -
  obtain files fs1 fs2 snap fs3 fs4 where run: "snapshotModuleFiles root fs = (Inr files, fs1)"
      "pinModule T root version fs1 = (None, fs2)" "snapshotWorkflowOutput out fs2 = (Inr snap, fs3)"
      "writeWorkflowOutput out snap version commit selectedImage fs3 = (None, fs4)"
    and inst: "installOutputs root c i p fs4 = (None, fs')"
    using assms(4) by (auto simp: applyUpdate_def rollbackUpdate_def errors_Join_def split: sum.splits option.splits prod.splits)
  note reach = reach_install [OF assms(1-3) run]
  note ready = reach [unfolded ready_to_install_def]
  have rooted: "rooted fs4" and frame: "up_frame caches root out fs fs4" using ready by blast+
  have stage: "c \<parallel> root" "i \<parallel> root" "p \<parallel> root" using assms(3) by (simp_all add: update_layout_def)
  note placed = install_outcome [OF rooted stage inst]
  have "installed_tree root c i p fs4 t = installed_tree root c i p fs t" for t
    using frame_staged [OF frame assms(3)] ready by (simp add: installed_tree_def)
  then show "tree fs' t = installed_tree root c i p fs t" if "t \<in> installTargets root"
    using placed that by auto
  have "node_at fs' o' = node_at fs4 o'" if "out = Some o'" for o'
    using install_keeps_outside [OF rooted stage inst] outside_dir(1) assms(3) that by (simp add: update_layout_def)
  then show "announced out (output_lines version commit selectedImage) fs fs'" using ready by (simp add: announced_def)
  have "node_at fs' (root @ [''go.mod'']) = node_at fs2 (root @ [''go.mod''])"
  proof -
    have "out \<noteq> Some (root @ [''go.mod''])"
      using assms(3) outside_dir(1) [of "root @ [''go.mod'']" root] by (auto simp: update_layout_def parallel_def)
    moreover have "\<forall>q. out \<noteq> Some q \<longrightarrow> node_at fs4 q = node_at fs2 q" using announce(1) [OF run(3,4) assms(3) refl] by blast
    ultimately show ?thesis
      using install_keeps_modules [OF rooted stage inst] by simp
  qed
  then show "version_pinned T root version fs'"
    using pinModule_result(2) [OF run(2) assms(2) refl] unfolding version_pinned_def by blast
  show "\<exists>snap fs4. ready_to_install caches root out (output_lines version commit selectedImage) snap fs fs4 \<and>
      installOutputs root c i p fs4 = (None, fs')" using reach inst by blast
qed

section \<open>Properties\<close>

text \<open>
  A go command that writes the replacement into go.mod, prints it back, and leaves go.sum alone; a
  repository with a pinned module, a stage beside it and a file for the outputs.
\<close>

definition sample_mod_text :: go_bytes where
  "sample_mod_text = ''-replace='' @ canonical @ ''='' @ fork @ ''@v1.2.0''"

definition sample_exec ::
    "string list \<Rightarrow> path option \<Rightarrow> string \<Rightarrow> string list \<Rightarrow> fsys \<Rightarrow> (gerror option \<times> go_bytes \<times> go_bytes) \<times> fsys" where
  "sample_exec env dir name args fs =
     (let gomod = the dir @ [''go.mod''] in
      if args = [''mod'', ''edit'', ''-json''] then
        (case node_at fs gomod of
           Some (Regular data m) \<Rightarrow> ((None, data, []), fs)
         | _ \<Rightarrow> ((Some ENOENT, [], []), fs))
      else if length args = 4 \<and> node_at fs gomod \<noteq> None
      then ((None, [], []), set_node gomod (Regular (args ! 3) 0x1A4) fs)
      else ((None, [], []), fs))"

definition sample_tools :: toolchain where
  "sample_tools = \<lparr>tc_environ = [], tc_exec = sample_exec, tc_ModuleCheck = (\<lambda>p v. None),
     tc_VersionValid = (\<lambda>v. True), tc_VersionCompare = (\<lambda>v w. 0), tc_TempDir = [''tmp''],
     tc_Symlink = (\<lambda>old new fs. (None, fs)),
     tc_ParseJSON = (\<lambda>data. if data = sample_mod_text
       then Inr (VMap [(''Require'', VList [VMap [(''Path'', VStr canonical), (''Version'', VStr placeholderVersion)]]),
         (''Replace'', VList [VMap [(''Old'', VMap [(''Path'', VStr canonical)]),
           (''New'', VMap [(''Path'', VStr fork), (''Version'', VStr ''v1.2.0'')])]])])
       else Inl json_mismatch),
     tc_NextJSON = (\<lambda>data. JEnd)\<rparr>"

definition sample_repo :: "answer list \<Rightarrow> fsys" where
  "sample_repo answers = (sample_files answers)\<lparr>fs_nodes :=
     [([''repo'', ''go.mod''], Regular ''module'' 0x1A4), ([''run''], Directory), ([''run'', ''out''], Regular ''a=b'' 0x180)] @
     fs_nodes (sample_files answers)\<rparr>"

definition sample_update :: "answer list \<Rightarrow> gerror option \<times> fsys" where
  "sample_update answers = applyUpdate sample_tools (Some [''run'', ''out'']) [''repo''] ''v1.2.0'' ''c'' ''i''
     [''stage'', ''config''] [''stage'', ''installer.yaml''] [''stage'', ''pin.json''] (sample_repo answers)"

lemma sample_go: "go_tool sample_tools root {}"
proof -
  have step: "go_step root {} fs (set_node (root @ [''go.mod'']) n fs)" if "node_at fs (root @ [''go.mod'']) \<noteq> None" for fs n
    using rooted_set [OF _ that, of "set_node (root @ [''go.mod'']) n fs" n]
    by (auto simp: go_step_def modules_def fun_eq_iff)
  show ?thesis
    unfolding go_tool_def
    by (auto simp: sample_tools_def sample_exec_def Let_def step split: option.splits node.splits if_splits)
qed

lemma sample_repo_rooted: "rooted (sample_repo answers)"
  by (rule rooted_files) (simp add: sample_repo_def sample_files_def node_at_def)

lemma sample_update_layout:
  "update_layout {} (Some [''run'', ''out'']) [''repo'']
     {[''stage'', ''config''], [''stage'', ''installer.yaml''], [''stage'', ''pin.json'']}"
  by (simp add: update_layout_def filepath_Dir_def parallel_def)

text \<open>
  C3: A failed update is undone. Whichever step fails, and whatever call to the operating system
  fails on the way, go.mod, go.sum, the generated outputs and the file of the workflow outputs are as
  they were before the update; what could not be put back is reported in the returned error.
\<close>

theorem update_undone:
  assumes "rooted fs" and "go_tool T root caches" and "update_layout caches out root {c, i, p}"
    and "applyUpdate T out root version commit selectedImage c i p fs = (Some err, fs')"
  shows "(\<forall>name \<in> {''go.mod'', ''go.sum''}.
      node_at fs' (root @ [name]) = node_at fs (root @ [name]) \<or> restore_failed name err) \<and>
    (\<forall>t \<in> installTargets root.
      tree fs' t = tree fs t \<or> (\<exists>e \<in> set (error_parts err). rollback_incomplete e)) \<and>
    (\<forall>o'. out = Some o' \<longrightarrow> node_at fs' o' = node_at fs o' \<or>
       output_unrestored o' (node_at fs o')
         (failed_steps T out root version commit selectedImage c i p fs) err)"
proof -
  let ?left = "failed_steps T out root version commit selectedImage c i p fs"
  obtain files fs1 where snap: "snapshotModuleFiles root fs = (files, fs1)" by fastforce
  have "modules_back root fs fs' err \<and> outputs_back root out ?left fs fs' err"
  proof (cases files)
    case (Inl e)
    then have "node_at fs' = node_at fs"
      using assms(4) snap snapshotModuleFiles_result(1) [OF snap] by (simp add: applyUpdate_def)
    then show ?thesis using outputs_back_same by (simp add: modules_back_def)
  next
    case (Inr files')
    have outside: "o' \<parallel> root" if "out = Some o'" for o'
      using outside_dir(1) assms(3) that by (simp add: update_layout_def)
    obtain cause fs2 where undo: "rollbackUpdate files' cause fs2 = (Some err, fs')" "outputs_back root out ?left fs fs2 cause"
      using update_fails [OF assms(1-3) snap [unfolded Inr] assms(4)] by blast
    from rollback_update [OF undo(1) _ _ undo(2) outside] snapshotModuleFiles_result(3) [OF snap Inr] show ?thesis
      by auto
  qed
  then show ?thesis by (simp only: modules_back_def outputs_back_def)
qed

definition install_fault :: "answer list" where
  "install_fault = replicate 27 (Works ''1'') @ [Fails ''disk'' []]"

lemma install_fault_reported:
  "case fst (sample_update install_fault) of
     None \<Rightarrow> False
   | Some err \<Rightarrow> list_all (\<lambda>e. case e of Wrapped s x \<Rightarrow> s \<noteq> ''restore go.mod'' \<and> s \<noteq> ''remove go.mod'' | Message s \<Rightarrow> False | _ \<Rightarrow> True)
       (error_parts err)"
  by code_simp

theorem update_undone_witness:
  "\<exists>err fs'. sample_update install_fault = (Some err, fs') \<and>
     node_at fs' [''repo'', ''go.mod''] = Some (Regular ''module'' 0x1A4) \<and>
     tree fs' ([''repo''] @ imagePinPath) = tree (sample_repo install_fault) ([''repo''] @ imagePinPath)"
proof -
  obtain r fs' where run: "sample_update install_fault = (r, fs')" by fastforce
  then obtain err where err: "r = Some err"
    and parts: "list_all (\<lambda>e. case e of Wrapped s x \<Rightarrow> s \<noteq> ''restore go.mod'' \<and> s \<noteq> ''remove go.mod'' | Message s \<Rightarrow> False | _ \<Rightarrow> True)
      (error_parts err)"
    using install_fault_reported by (auto split: option.splits)
  then have clean: "\<not> restore_failed ''go.mod'' err" "\<not> (\<exists>e \<in> set (error_parts err). rollback_incomplete e)"
    by (fastforce simp: list_all_iff restore_failed_def rollback_incomplete_def)+
  have "[''repo''] @ imagePinPath \<in> installTargets [''repo'']" by (simp add: installTargets_def)
  moreover have "node_at (sample_repo install_fault) [''repo'', ''go.mod''] = Some (Regular ''module'' 0x1A4)"
    by (simp add: sample_repo_def node_at_def)
  ultimately show ?thesis
    using update_undone [OF sample_repo_rooted sample_go sample_update_layout run [unfolded sample_update_def err]] run err clean
    by auto
qed

text \<open>
  A successful update leaves the three outputs as staged, with the permissions a copy gets, has
  appended the three lines to the file of the workflow outputs, and has left a go.mod in which the go
  command, run last, found exactly the requested version pinned. Every other file that existed, but
  for go.sum and the caches, is what it was.
\<close>

theorem update_applied:
  assumes "rooted fs" and "go_tool T root caches" and "update_layout caches out root {c, i, p}"
    and "applyUpdate T out root version commit selectedImage c i p fs = (None, fs')"
  shows "(\<forall>t \<in> installTargets root. tree fs' t = installed_tree root c i p fs t) \<and>
    announced out (output_lines version commit selectedImage) fs fs' \<and> version_pinned T root version fs' \<and>
    (\<forall>q. node_at fs q \<noteq> None \<and> q \<notin> modules root \<and> out \<noteq> Some q \<and>
       (\<forall>t \<in> caches \<union> installTargets root. \<not> prefix t q) \<longrightarrow> node_at fs' q = node_at fs q)"
proof -
  obtain snap fs4 where ready: "ready_to_install caches root out (output_lines version commit selectedImage) snap fs fs4"
    and inst: "installOutputs root c i p fs4 = (None, fs')"
    using applied_update(4) [OF assms] by blast
  have "node_at fs' q = node_at fs q"
    if "node_at fs q \<noteq> None" "q \<notin> modules root" "out \<noteq> Some q" "\<forall>t \<in> caches \<union> installTargets root. \<not> prefix t q" for q
  proof -
    have "rooted fs4" "node_at fs4 q = node_at fs q" using ready that by (simp_all add: ready_to_install_def up_frame_def)
    moreover have "c \<parallel> root" "i \<parallel> root" "p \<parallel> root" using assms(3) by (simp_all add: update_layout_def)
    ultimately show ?thesis using install_keeps_existing [OF _ _ _ _ inst, of q] that by auto
  qed
  with applied_update(1-3) [OF assms] show ?thesis by blast
qed

lemma sample_update_succeeds: "fst (sample_update []) = None"
  by code_simp

theorem update_applied_witness:
  "\<exists>fs'. sample_update [] = (None, fs') \<and>
     node_at fs' [''run'', ''out''] = Some (Regular (''a=b'' @ output_lines ''v1.2.0'' ''c'' ''i'') 0x180)"
proof -
  obtain fs' where run: "sample_update [] = (None, fs')" using sample_update_succeeds by (metis prod.collapse)
  have "node_at (sample_repo []) [''run'', ''out''] = Some (Regular ''a=b'' 0x180)"
    by (simp add: sample_repo_def node_at_def)
  with update_applied [OF sample_repo_rooted sample_go sample_update_layout run [unfolded sample_update_def]] run
  show ?thesis by (auto simp: announced_def)
qed

end
