(* ===== verification/Source_Checks.thy ===== *)
theory Source_Checks
  imports Source_Sync Install_Spec
begin

text \<open>
  What the checks of tools/source-update establish: the pin of go.mod, the environment of the child
  processes, the comparison of two trees, and \<open>verify\<close>.
\<close>

section \<open>The pin of go.mod\<close>

lemma scan_requires:
  "scanRequires items n required =
     (let found = filter (\<lambda>r. mv_Path r = canonical) items
      in (n + length found, if found = [] then required else mv_Version (last found)))"
  by (induction items arbitrary: n required) (auto simp: Let_def)

lemma scan_replaces:
  "scanReplaces items n replacement =
     (let found = filter (\<lambda>r. mv_Path (mr_Old r) = canonical) items
      in if list_all (\<lambda>r. mv_Version (mr_Old r) = [] \<and> mv_Path (mr_New r) = fork) found
         then Inr (n + length found, if found = [] then replacement else mv_Version (mr_New (last found)))
         else Inl (Message (''go.mod replacement must be unversioned '' @ canonical @ '' => '' @ fork @ ''@version'')))"
  by (induction items arbitrary: n replacement) (auto simp: Let_def)

lemma only_require:
  assumes "\<forall>r \<in> set found. mv_Path r = canonical"
  shows "length found = 1 \<and> (if found = [] then x else mv_Version (last found)) = v \<longleftrightarrow>
    found = [\<lparr>mv_Path = canonical, mv_Version = v\<rparr>]"
proof (cases found)
  case (Cons r rs)
  then have "mv_Version r = v \<longleftrightarrow> r = \<lparr>mv_Path = canonical, mv_Version = v\<rparr>" using assms by (cases r) simp
  with Cons show ?thesis by (cases rs) simp_all
qed simp

lemma only_replace:
  assumes "\<forall>r \<in> set found. mv_Path (mr_Old r) = canonical"
  shows "list_all (\<lambda>r. mv_Version (mr_Old r) = [] \<and> mv_Path (mr_New r) = fork) found \<and> length found = 1 \<and>
      (if found = [] then x else mv_Version (mr_New (last found))) = v \<longleftrightarrow>
    found = [\<lparr>mr_Old = \<lparr>mv_Path = canonical, mv_Version = []\<rparr>, mr_New = \<lparr>mv_Path = fork, mv_Version = v\<rparr>\<rparr>]"
proof (cases found)
  case (Cons r rs)
  then have "(mv_Version (mr_Old r) = [] \<and> mv_Path (mr_New r) = fork) \<and> mv_Version (mr_New r) = v \<longleftrightarrow>
      r = \<lparr>mr_Old = \<lparr>mv_Path = canonical, mv_Version = []\<rparr>, mr_New = \<lparr>mv_Path = fork, mv_Version = v\<rparr>\<rparr>"
    using assms by (cases r; cases "mr_Old r"; cases "mr_New r") simp
  with Cons show ?thesis by (cases rs) simp_all
qed simp

definition pinned_at :: "string \<Rightarrow> mod_file \<Rightarrow> bool" where
  "pinned_at version f \<longleftrightarrow>
     filter (\<lambda>r. mv_Path r = canonical) (mod_Require f) = [\<lparr>mv_Path = canonical, mv_Version = placeholderVersion\<rparr>] \<and>
     filter (\<lambda>r. mv_Path (mr_Old r) = canonical) (mod_Replace f) =
       [\<lparr>mr_Old = \<lparr>mv_Path = canonical, mv_Version = []\<rparr>, mr_New = \<lparr>mv_Path = fork, mv_Version = version\<rparr>\<rparr>]"

lemma pinned_scan:
  "pinned_at version f \<longleftrightarrow> scanRequires (mod_Require f) 0 [] = (1, placeholderVersion) \<and>
     scanReplaces (mod_Replace f) 0 [] = Inr (1, version)"
proof -
  let ?req = "filter (\<lambda>r. mv_Path r = canonical) (mod_Require f)"
  let ?rep = "filter (\<lambda>r. mv_Path (mr_Old r) = canonical) (mod_Replace f)"
  have "scanRequires (mod_Require f) 0 [] = (1, placeholderVersion) \<longleftrightarrow>
      ?req = [\<lparr>mv_Path = canonical, mv_Version = placeholderVersion\<rparr>]"
    using only_require [of ?req "[]" placeholderVersion] by (simp add: scan_requires Let_def)
  moreover have "scanReplaces (mod_Replace f) 0 [] = Inr (1, version) \<longleftrightarrow>
      ?rep = [\<lparr>mr_Old = \<lparr>mv_Path = canonical, mv_Version = []\<rparr>, mr_New = \<lparr>mv_Path = fork, mv_Version = version\<rparr>\<rparr>]"
    using only_replace [of ?rep "[]" version] by (cases "?rep = []") (auto simp: scan_replaces Let_def)
  ultimately show ?thesis by (simp add: pinned_at_def)
qed

text \<open>
  C23: A go.mod is accepted exactly when it requires the canonical module once, at the placeholder
  version, and replaces it once, without a version, by the fork at a real and valid version, which is
  the one returned.
\<close>

theorem source_pin_accepts:
  "sourcePin T data = Inr version \<longleftrightarrow>
     (\<exists>json f. tc_ParseJSON T data = Inr json \<and>
        decode_struct decode_mod json \<lparr>mod_Require = [], mod_Replace = []\<rparr> = Inr f \<and>
        filter (\<lambda>r. mv_Path r = canonical) (mod_Require f) = [\<lparr>mv_Path = canonical, mv_Version = placeholderVersion\<rparr>] \<and>
        filter (\<lambda>r. mv_Path (mr_Old r) = canonical) (mod_Replace f) =
          [\<lparr>mr_Old = \<lparr>mv_Path = canonical, mv_Version = []\<rparr>, mr_New = \<lparr>mv_Path = fork, mv_Version = version\<rparr>\<rparr>]) \<and>
     version \<noteq> [] \<and> version \<noteq> placeholderVersion \<and> tc_ModuleCheck T fork version = None"
proof -
  have "sourcePin T data = Inr version \<longleftrightarrow>
     (\<exists>json f. tc_ParseJSON T data = Inr json \<and>
        decode_struct decode_mod json \<lparr>mod_Require = [], mod_Replace = []\<rparr> = Inr f \<and> pinned_at version f) \<and>
     version \<noteq> [] \<and> version \<noteq> placeholderVersion \<and> tc_ModuleCheck T fork version = None"
    unfolding pinned_scan
    by (auto simp: sourcePin_def split: sum.splits prod.splits if_splits)
  then show ?thesis by (simp only: pinned_at_def)
qed

section \<open>The environment of the child processes\<close>

text \<open>The Go runtime hands out entries of the form key=value, each key once.\<close>

definition environ_ok :: "string list \<Rightarrow> bool" where
  "environ_ok env \<longleftrightarrow> list_all (\<lambda>e. CHR ''='' \<in> set e) env \<and> distinct (map envKey env)"

lemma env_key:
  assumes "CHR ''='' \<in> set e"
  shows "CHR ''='' \<notin> set (envKey e)" and "\<exists>v. e = envKey e @ CHR ''='' # v"
proof -
  obtain k v where "e = k @ CHR ''='' # v" "CHR ''='' \<notin> set k" using split_list_first [OF assms] by blast
  then show "CHR ''='' \<notin> set (envKey e)" "\<exists>v. e = envKey e @ CHR ''='' # v"
    by (simp_all add: envKey_def Cut_char)
qed

lemma env_key_of: "CHR ''='' \<notin> set k \<Longrightarrow> envKey (k @ CHR ''='' # v) = k"
  by (simp add: envKey_def Cut_char)

lemma env_prefix:
  assumes "CHR ''='' \<notin> set k" and "CHR ''='' \<in> set e"
  shows "HasPrefix e (k @ ''='') \<longleftrightarrow> envKey e = k"
proof
  assume "HasPrefix e (k @ ''='')"
  then obtain v where "e = k @ CHR ''='' # v" by (auto elim: HasPrefix_obtain)
  then show "envKey e = k" using env_key_of [OF assms(1)] by simp
next
  assume "envKey e = k"
  with env_key(2) [OF assms(2)] show "HasPrefix e (k @ ''='')" by (metis HasPrefix_append append.assoc append_Cons append_Nil)
qed

interpretation process_env: entry_list "\<lambda>k. CHR ''='' \<notin> set k" "\<lambda>k e. HasPrefix e (k @ ''='')"
    "\<lambda>k v e. (k @ ''='') @ v" "\<lambda>k v. (k @ ''='') @ v" "\<lambda>k e. CutPrefix e (k @ ''='')"
proof unfold_locales
  show "k = l" if "CHR ''='' \<notin> set k" "CHR ''='' \<notin> set l" "HasPrefix e (k @ ''='')" "HasPrefix e (l @ ''='')" for k l e
    using that env_key_of by (auto elim!: HasPrefix_obtain) (metis append.assoc append_Cons append_Nil)
qed (simp_all only: HasPrefix_append CutPrefix_append CutPrefix_Some_iff simp_thms)

lemma setEnv_insert: "setEnv env k v = process_env.insert_entry env k v"
  unfolding setEnv_def Let_def process_env.insert_entry_def ..

lemma setEnv_rec:
  assumes "CHR ''='' \<notin> set k"
  shows "setEnv [] k v = [k @ CHR ''='' # v]"
    and "CHR ''='' \<in> set e \<Longrightarrow> setEnv (e # env) k v =
      (if envKey e = k then (k @ CHR ''='' # v) # env else e # setEnv env k v)"
  by (simp_all add: setEnv_def env_prefix [OF assms])

lemma setEnv_entries:
  assumes "environ_ok env" and "CHR ''='' \<notin> set k"
  shows "environ_ok (setEnv env k v)"
    and "filter (\<lambda>e. envKey e = k) (setEnv env k v) = [k @ CHR ''='' # v]"
    and "(\<And>e. envKey e = k \<Longrightarrow> \<not> P e) \<Longrightarrow> filter P (setEnv env k v) = filter P env"
proof -
  note recs = setEnv_rec [OF assms(2)] env_key_of [OF assms(2)]
  have "list_all (\<lambda>e. CHR ''='' \<in> set e) env \<Longrightarrow>
      list_all (\<lambda>e. CHR ''='' \<in> set e) (setEnv env k v) \<and>
      map envKey (setEnv env k v) = (if k \<in> set (map envKey env) then map envKey env else map envKey env @ [k])"
  proof (induction env)
    case (Cons e env)
    then show ?case by (cases "envKey e = k") (simp_all add: recs eq_commute [of k])
  qed (simp add: recs)
  with assms(1) show "environ_ok (setEnv env k v)" by (simp add: environ_ok_def)
  have "environ_ok env \<Longrightarrow> filter (\<lambda>e. envKey e = k) (setEnv env k v) = [k @ CHR ''='' # v]"
  proof (induction env)
    case (Cons e env)
    have "filter (\<lambda>x. envKey x = k) env = []" if "envKey e = k"
      using Cons.prems that by (fastforce simp: environ_ok_def filter_empty_conv image_iff)
    with Cons show ?case by (cases "envKey e = k") (simp_all add: recs environ_ok_def)
  qed (simp add: recs)
  then show "filter (\<lambda>e. envKey e = k) (setEnv env k v) = [k @ CHR ''='' # v]" using assms(1) by blast
  show "filter P (setEnv env k v) = filter P env" if P: "\<And>e. envKey e = k \<Longrightarrow> \<not> P e"
  proof -
    have "list_all (\<lambda>e. CHR ''='' \<in> set e) env \<Longrightarrow> filter P (setEnv env k v) = filter P env"
    proof (induction env)
      case (Cons e env)
      then show ?case by (cases "envKey e = k") (simp_all add: recs P)
    qed (simp add: recs P)
    with assms(1) show ?thesis by (simp add: environ_ok_def)
  qed
qed

text \<open>
  A generator runs with the local toolchain and without a workspace file, each set exactly once,
  and with no variable that could change what make does; every other variable is handed on, in order.
\<close>

theorem generator_environment_pinned:
  assumes "environ_ok (tc_environ T)"
  shows "environ_ok (generatorEnv T) \<and>
    filter (\<lambda>e. envKey e = ''GOTOOLCHAIN'') (generatorEnv T) = [''GOTOOLCHAIN=local''] \<and>
    filter (\<lambda>e. envKey e = ''GOWORK'') (generatorEnv T) = [''GOWORK=off''] \<and>
    list_all (\<lambda>e. envKey e \<notin> set makeVariables) (generatorEnv T) \<and>
    filter (\<lambda>e. envKey e \<notin> {''GOTOOLCHAIN'', ''GOWORK''}) (generatorEnv T) =
      filter (\<lambda>e. envKey e \<notin> {''GOTOOLCHAIN'', ''GOWORK''} \<union> set makeVariables) (tc_environ T)"
proof -
  let ?one = "setEnv (tc_environ T) ''GOTOOLCHAIN'' ''local''"
  have one: "environ_ok ?one" "filter (\<lambda>e. envKey e = ''GOTOOLCHAIN'') ?one = [''GOTOOLCHAIN=local'']"
    using setEnv_entries(1,2) [OF assms, of "''GOTOOLCHAIN''" "''local''"] by simp_all
  have two: "environ_ok (localToolchainEnv T)" "filter (\<lambda>e. envKey e = ''GOWORK'') (localToolchainEnv T) = [''GOWORK=off'']"
    using setEnv_entries(1,2) [OF one(1), of "''GOWORK''" "''off''"] by (simp_all add: localToolchainEnv_def)
  have kept: "filter P (localToolchainEnv T) = filter P ?one" if "\<And>e. envKey e = ''GOWORK'' \<Longrightarrow> \<not> P e" for P
    using setEnv_entries(3) [OF one(1) _ that] by (simp add: localToolchainEnv_def)
  have make: "''GOTOOLCHAIN'' \<notin> set makeVariables" "''GOWORK'' \<notin> set makeVariables" by (simp_all add: makeVariables_def)
  have sub: "filter (\<lambda>e. envKey e = k) (generatorEnv T) = filter (\<lambda>e. envKey e = k) (localToolchainEnv T)"
    if "k \<notin> set makeVariables" for k
    using that unfolding generatorEnv_def filter_filter by (metis (no_types, lifting))
  have "environ_ok (generatorEnv T)"
    using two(1) by (auto simp: environ_ok_def generatorEnv_def list_all_iff distinct_map_filter)
  moreover have "list_all (\<lambda>e. envKey e \<notin> set makeVariables) (generatorEnv T)"
    by (simp add: generatorEnv_def list_all_iff)
  moreover have "filter (\<lambda>e. envKey e = ''GOTOOLCHAIN'') (generatorEnv T) = [''GOTOOLCHAIN=local'']"
    using sub [OF make(1)] kept [of "\<lambda>e. envKey e = ''GOTOOLCHAIN''"] one(2) by simp
  moreover have "filter (\<lambda>e. envKey e = ''GOWORK'') (generatorEnv T) = [''GOWORK=off'']"
    using sub [OF make(2)] two(2) by simp
  moreover have "filter (\<lambda>e. envKey e \<notin> {''GOTOOLCHAIN'', ''GOWORK''}) (generatorEnv T) =
      filter (\<lambda>e. envKey e \<notin> {''GOTOOLCHAIN'', ''GOWORK''} \<union> set makeVariables) (tc_environ T)"
  proof -
    let ?P = "\<lambda>e. envKey e \<notin> {''GOTOOLCHAIN'', ''GOWORK''} \<union> set makeVariables"
    have "filter (\<lambda>e. envKey e \<notin> {''GOTOOLCHAIN'', ''GOWORK''}) (generatorEnv T) = filter ?P (localToolchainEnv T)"
      by (simp add: generatorEnv_def conj_ac)
    also have "\<dots> = filter ?P ?one" by (rule kept) simp
    also have "\<dots> = filter ?P (tc_environ T)" by (rule setEnv_entries(3) [OF assms]) simp_all
    finally show ?thesis .
  qed
  ultimately show ?thesis by blast
qed

text \<open>A machine whose environment asks for another toolchain and for other make flags.\<close>

definition busy_tools :: toolchain where
  "busy_tools = \<lparr>tc_environ = [''HOME=/root'', ''GOTOOLCHAIN=auto'', ''MAKEFLAGS=-j8'', ''PATH=/bin''],
     tc_exec = (\<lambda>env dir name args fs. ((None, [], []), fs)), tc_ModuleCheck = (\<lambda>p v. None),
     tc_VersionValid = (\<lambda>v. True), tc_VersionCompare = (\<lambda>v w. 0), tc_TempDir = [],
     tc_Symlink = (\<lambda>old new fs. (None, fs)), tc_ParseJSON = (\<lambda>data. Inl json_mismatch),
     tc_NextJSON = (\<lambda>data. JEnd)\<rparr>"

theorem generator_environment_pinned_witness:
  "filter (\<lambda>e. envKey e = ''GOTOOLCHAIN'') (generatorEnv busy_tools) = [''GOTOOLCHAIN=local''] \<and>
   generatorEnv busy_tools = [''HOME=/root'', ''GOTOOLCHAIN=local'', ''PATH=/bin'', ''GOWORK=off'']"
proof -
  have "environ_ok (tc_environ busy_tools)" by code_simp
  moreover have "generatorEnv busy_tools = [''HOME=/root'', ''GOTOOLCHAIN=local'', ''PATH=/bin'', ''GOWORK=off'']"
    by code_simp
  ultimately show ?thesis using generator_environment_pinned by blast
qed

section \<open>Comparing two trees\<close>

definition file_data :: "node option \<Rightarrow> go_bytes option" where
  "file_data n = (case n of Some (Regular data mode) \<Rightarrow> Some data | _ \<Rightarrow> None)"

text \<open>The files below a path, by their paths relative to it.\<close>

definition content :: "fsys \<Rightarrow> path \<Rightarrow> path \<Rightarrow> go_bytes option" where
  "content fs root q = file_data (tree fs root q)"

lemma content_same: "node_at fs' = node_at fs \<Longrightarrow> content fs' = content fs"
  using tree_same [of fs' fs] by (simp add: content_def fun_eq_iff)

lemma walk_result:
  "set (walk_paths root fs) = {p. prefix root p \<and> node_at fs p \<noteq> None}" "distinct (walk_paths root fs)"
proof -
  have "node_at fs p \<noteq> None \<longleftrightarrow> p \<in> fst ` set (fs_nodes fs)" for p
    by (metis map_of_eq_None_iff node_at_def)
  then show "set (walk_paths root fs) = {p. prefix root p \<and> node_at fs p \<noteq> None}"
    by (auto simp: walk_paths_def)
qed (simp add: walk_paths_def)

definition reads :: "path \<Rightarrow> path list \<Rightarrow> fsys \<Rightarrow> (path \<times> go_bytes) list \<Rightarrow> bool" where
  "reads root ps fs files \<longleftrightarrow> distinct (map fst files) \<and>
     map_of files = (\<lambda>q. if root @ q \<in> set ps then content fs root q else None)"

lemma reads_directory:
  assumes "isDirectory fs p" and "reads root ps fs files"
  shows "reads root (p # ps) fs files"
proof -
  have "content fs root q = None" if "root @ q = p" for q
    using assms(1) that by (simp add: content_def tree_def isDirectory_def file_data_def)
  with assms(2) show ?thesis by (auto simp: reads_def fun_eq_iff)
qed

lemma reads_file:
  assumes "node_at fs p = Some (Regular data m)" and "prefix root p" and "p \<notin> set ps" and "reads root ps fs files"
  shows "reads root (p # ps) fs ((drop (length root) p, data) # files)"
proof -
  obtain q where p: "p = root @ q" using assms(2) by (rule prefixE)
  have "map_of files q = None" using assms(3,4) by (simp add: reads_def p)
  then have "q \<notin> fst ` set files" by (simp add: map_of_eq_None_iff)
  with assms(1,4) show ?thesis
    by (auto simp: reads_def p fun_eq_iff content_def tree_def file_data_def)
qed

lemma read_tree:
  "readTree root ps fs = (r, fs') \<Longrightarrow> distinct ps \<Longrightarrow> list_all (prefix root) ps \<Longrightarrow>
     node_at fs' = node_at fs \<and> (\<forall>files. r = Inr files \<longrightarrow> reads root ps fs files)"
proof (induction ps arbitrary: fs r fs')
  case (Cons p ps)
  have reads_cong: "reads root ps g files = reads root ps fs files" if "node_at g = node_at fs" for g files
    unfolding reads_def content_same [OF that] ..
  show ?case
  proof (cases "isDirectory fs p")
    case True
    obtain a fs1 where answer: "next_answer fs = (a, fs1)" by fastforce
    then have same: "node_at fs1 = node_at fs" by auto
    with Cons.prems True answer Cons.IH [of fs1] show ?thesis
      using reads_directory [OF True] reads_cong [OF same] by (auto split: answer.splits)
  next
    case False
    obtain data fs1 where read: "ReadFile p fs = (data, fs1)" by fastforce
    note same = ReadFile_result(1) [OF read]
    obtain rest fs2 where tail: "readTree root ps fs1 = (rest, fs2)" by fastforce
    show ?thesis
    proof (cases data)
      case (Inl e)
      with Cons.prems(1) False read same show ?thesis by auto
    next
      case (Inr d)
      obtain m where "node_at fs p = Some (Regular d m)" using ReadFile_result(3) [OF read Inr] by blast
      with Cons.prems Cons.IH [OF tail] False read tail same Inr show ?thesis
        using reads_file [of fs p d m root ps] reads_cong [OF same] by (auto split: sum.splits)
    qed
  qed
qed (simp add: reads_def)

lemma treeFiles_result:
  assumes "treeFiles root fs = (r, fs')"
  shows "node_at fs' = node_at fs" and "r = Inr files \<Longrightarrow> distinct (map fst files)"
    and "r = Inr files \<Longrightarrow> map_of files = content fs root"
proof -
  obtain info fs1 where stat: "Lstat root fs = (info, fs1)" by fastforce
  note same = Lstat_result(1) [OF stat]
  obtain rr fs2 where walk: "readTree root (walk_paths root fs1) fs1 = (rr, fs2)" by fastforce
  have "list_all (prefix root) (walk_paths root fs1)" by (simp add: walk_result list_all_iff)
  note result = read_tree [OF walk walk_result(2) this]
  show "node_at fs' = node_at fs"
    using assms stat walk result same by (auto simp: treeFiles_def split: sum.splits)
  have found: "reads root (walk_paths root fs1) fs1 files" if "r = Inr files"
    using assms stat walk result that by (auto simp: treeFiles_def split: sum.splits)
  then show "r = Inr files \<Longrightarrow> distinct (map fst files)" by (simp add: reads_def)
  have "(if root @ q \<in> set (walk_paths root fs1) then content fs1 root q else None) = content fs root q" for q
    using same by (auto simp: walk_result content_def tree_def file_data_def)
  with found show "map_of files = content fs root" if "r = Inr files"
    using that by (simp add: reads_def)
qed

definition difference :: "go_bytes option \<Rightarrow> go_bytes option \<Rightarrow> string option" where
  "difference want got =
     (case (want, got) of
        (Some d, None) \<Rightarrow> Some ''missing: ''
      | (Some d, Some d') \<Rightarrow> if d \<noteq> d' then Some ''changed: '' else None
      | (None, Some d) \<Rightarrow> Some ''added: ''
      | (None, None) \<Rightarrow> None)"

lemma difference_None: "difference want got = None \<longleftrightarrow> want = got"
  by (auto simp: difference_def split: option.splits)

lemma map_filter_members: "y \<in> set (List.map_filter f xs) \<longleftrightarrow> (\<exists>x \<in> set xs. f x = Some y)"
  by (force simp: List.map_filter_def)

lemma difference_line:
  "(\<exists>d. w = Some d \<and> (case g of None \<Rightarrow> Some (''missing: '' @ n)
        | Some a \<Rightarrow> if d \<noteq> a then Some (''changed: '' @ n) else None) = Some y) \<or>
   (\<exists>d. g = Some d \<and> (case w of None \<Rightarrow> Some (''added: '' @ n) | Some d \<Rightarrow> None) = Some y) \<longleftrightarrow>
   (\<exists>kind. y = kind @ n \<and> difference w g = Some kind)"
  by (cases w; cases g) (auto simp: difference_def)

lemma diff_files:
  assumes "distinct (map fst want)" and "distinct (map fst got)"
  shows "sorted (diffFiles want got)"
    and "set (diffFiles want got) = {kind @ rel_text q |kind q. difference (map_of want q) (map_of got q) = Some kind}"
proof -
  have "(\<exists>x \<in> set xs. (case x of (q, d) \<Rightarrow> f q d) = Some y) \<longleftrightarrow> (\<exists>q d. map_of xs q = Some d \<and> f q d = Some y)"
    if "distinct (map fst xs)" for xs :: "(path \<times> go_bytes) list" and f and y :: string
    using that by (simp add: Bex_def split_paired_Ex)
  note members = this [OF assms(1)] this [OF assms(2)]
  have "y \<in> set (diffFiles want got) \<longleftrightarrow> (\<exists>q kind. y = kind @ rel_text q \<and> difference (map_of want q) (map_of got q) = Some kind)"
    for y
    unfolding diffFiles_def set_sort set_append Un_iff map_filter_members members difference_line [symmetric] by blast
  then show "set (diffFiles want got) = {kind @ rel_text q |kind q. difference (map_of want q) (map_of got q) = Some kind}"
    by blast
qed (simp add: diffFiles_def)

lemma diff_files_Nil:
  assumes "distinct (map fst want)" and "distinct (map fst got)"
  shows "diffFiles want got = [] \<longleftrightarrow> map_of want = map_of got"
proof -
  have "diffFiles want got = [] \<longleftrightarrow> (\<forall>q. difference (map_of want q) (map_of got q) = None)"
    unfolding set_empty [symmetric] diff_files(2) [OF assms] by (simp add: set_eq_iff) (metis not_None_eq)
  then show ?thesis by (simp add: difference_None fun_eq_iff)
qed

lemma treeDiff_result:
  assumes "treeDiff expected actual fs = (Inr diffs, fs')"
  shows "node_at fs' = node_at fs" and
    "\<exists>got. (content fs actual = got \<or> node_at fs actual = None \<and> got = (\<lambda>q. None)) \<and> sorted diffs \<and>
       set diffs = {kind @ rel_text q |kind q. difference (content fs expected q) (got q) = Some kind} \<and>
       (diffs = [] \<longleftrightarrow> content fs expected = got)"
proof -
  obtain want fs1 where "treeFiles expected fs = (Inr want, fs1)"
    using assms by (auto simp: treeDiff_def split: sum.splits prod.splits)
  note expected = this treeFiles_result [OF this]
  obtain info fs2 where stat: "Lstat actual fs1 = (info, fs2)" by fastforce
  note st = Lstat_result [OF stat]
  have "node_at fs' = node_at fs \<and> (\<exists>got. diffs = diffFiles want got \<and> distinct (map fst got) \<and>
      (content fs actual = map_of got \<or> node_at fs actual = None \<and> map_of got = (\<lambda>q. None)))"
  proof (cases info)
    case (Inr i)
    then obtain got where read: "treeFiles actual fs2 = (Inr got, fs')" "diffs = diffFiles want got"
      using assms expected(1) stat by (auto simp: treeDiff_def split: sum.splits prod.splits)
    note actual = treeFiles_result [OF read(1)]
    have "node_at fs2 = node_at fs" using st(1) expected(2) by simp
    with actual content_same [OF this] read(2) show ?thesis by (intro conjI exI [of _ got]) simp_all
  next
    case (Inl e)
    then have "IsNotExist e" "fs' = fs2" "diffs = diffFiles want []"
      using assms expected(1) stat by (auto simp: treeDiff_def split: if_splits)
    moreover have "node_at fs actual = None" using st(4) [OF Inl] \<open>IsNotExist e\<close> expected(2) by simp
    ultimately show ?thesis using st(1) expected(2) by (intro conjI exI [of _ "[]"]) (simp_all add: fun_eq_iff)
  qed
  then obtain got where same: "node_at fs' = node_at fs"
    and got: "diffs = diffFiles want got" "distinct (map fst got)"
      "content fs actual = map_of got \<or> node_at fs actual = None \<and> map_of got = (\<lambda>q. None)" by blast
  show "node_at fs' = node_at fs" by (rule same)
  note want = expected(3) [OF refl] expected(4) [OF refl]
  from diff_files [OF want(1) got(2)] diff_files_Nil [OF want(1) got(2)] got(1,3)
  show "\<exists>got. (content fs actual = got \<or> node_at fs actual = None \<and> got = (\<lambda>q. None)) \<and> sorted diffs \<and>
       set diffs = {kind @ rel_text q |kind q. difference (content fs expected q) (got q) = Some kind} \<and>
       (diffs = [] \<longleftrightarrow> content fs expected = got)"
    unfolding want(2) by blast
qed

text \<open>
  C22: The comparison of two trees is exact. In lexical order, it lists each file of the expected tree
  that is missing or has other bytes, and each file that only the actual tree has, and nothing else;
  it lists nothing exactly when the two trees hold the same files. It changes neither.
\<close>

theorem tree_diff_reports:
  assumes "rooted fs" and "treeDiff expected actual fs = (Inr diffs, fs')"
  shows "sorted diffs \<and>
    set diffs = {kind @ rel_text q |kind q. difference (content fs expected q) (content fs actual q) = Some kind} \<and>
    (diffs = [] \<longleftrightarrow> content fs expected = content fs actual) \<and> node_at fs' = node_at fs"
proof -
  have "content fs actual = (\<lambda>q. None)" if "node_at fs actual = None"
    using assms(1) that by (simp add: rooted_def content_def tree_def file_data_def fun_eq_iff)
  moreover obtain got where got: "content fs actual = got \<or> node_at fs actual = None \<and> got = (\<lambda>q. None)" "sorted diffs"
      "set diffs = {kind @ rel_text q |kind q. difference (content fs expected q) (got q) = Some kind}"
      "diffs = [] \<longleftrightarrow> content fs expected = got"
    using treeDiff_result(2) [OF assms(2)] by blast
  ultimately have "got = content fs actual" by auto
  with got(2-4) treeDiff_result(1) [OF assms(2)] show ?thesis by simp
qed

definition drifted :: fsys where
  "drifted = \<lparr>fs_nodes = [([], Directory), ([''want''], Directory), ([''want'', ''a''], Regular ''1'' 0), ([''want'', ''b''], Regular ''2'' 0),
     ([''got''], Directory), ([''got'', ''a''], Regular ''3'' 0), ([''got'', ''c''], Regular ''4'' 0)],
     fs_umask = 0, fs_answers = []\<rparr>"

theorem tree_diff_reports_witness:
  "\<exists>fs'. treeDiff [''want''] [''got''] drifted = (Inr [''added: c'', ''changed: a'', ''missing: b''], fs') \<and>
     sorted [''added: c'', ''changed: a'', ''missing: b''] \<and>
     content drifted [''want''] \<noteq> content drifted [''got'']"
proof -
  have "fst (treeDiff [''want''] [''got''] drifted) = Inr [''added: c'', ''changed: a'', ''missing: b'']" by code_simp
  then obtain fs' where run: "treeDiff [''want''] [''got''] drifted = (Inr [''added: c'', ''changed: a'', ''missing: b''], fs')"
    by (metis prod.collapse)
  have "rooted drifted" by (rule rooted_files) (simp add: drifted_def node_at_def)
  from tree_diff_reports [OF this run] run show ?thesis by blast
qed

section \<open>Verifying what is committed\<close>

lemma installerDiffers_result:
  assumes "installerDiffers actual expected fs = (r, fs')"
  shows "node_at fs' = node_at fs"
    and "\<not> r \<Longrightarrow> \<exists>d. content fs actual [] = Some d \<and> content fs expected [] = Some d"
proof -
  obtain a fs1 where one: "ReadFile actual fs = (a, fs1)" by fastforce
  obtain b fs2 where two: "ReadFile expected fs1 = (b, fs2)" by fastforce
  note 1 = ReadFile_result [OF one] and 2 = ReadFile_result [OF two]
  show "node_at fs' = node_at fs"
    using assms one two 1(1) 2(1) by (auto simp: installerDiffers_def split: sum.splits)
  show "\<exists>d. content fs actual [] = Some d \<and> content fs expected [] = Some d" if "\<not> r"
  proof -
    obtain d where "a = Inr d" "b = Inr d"
      using assms one two \<open>\<not> r\<close> by (auto simp: installerDiffers_def split: sum.splits)
    with 1(1,3) 2(3) show ?thesis by (fastforce simp: content_def tree_def file_data_def)
  qed
qed

definition same_files :: "fsys \<Rightarrow> path \<Rightarrow> fsys \<Rightarrow> path \<Rightarrow> bool" where
  "same_files fs expected fs' actual \<longleftrightarrow> content fs' actual = content fs expected \<or>
     node_at fs' actual = None \<and> content fs expected = (\<lambda>q. None)"

lemma verify_staged:
  assumes "verifyStaged T root pinned stage fs = (None, fs')"
  obtains out pin fs1 fs2 fs3 where
    "runCommand T (Some stage) True ''go'' [''list'', ''-m'', ''-json'', fork @ ''@'' @ pinned] fs = (Inr out, fs1)"
    "moduleInfo T out = Inr (pinned, SourceCommit pin)"
    "readImagePin (tc_NextJSON T) (root @ imagePinPath) fs1 = (Inr pin, fs2)"
    "generate T (SourceCommit pin) (PinImage pin) stage fs2 = (Inr (stage @ [''config''], stage @ [''installer.yaml'']), fs3)"
    "node_at fs' = node_at fs3" "same_files fs3 (stage @ [''config'']) fs3 (root @ configPath)"
    "\<exists>d. content fs3 (root @ installerPath) [] = Some d \<and> content fs3 (stage @ [''installer.yaml'']) [] = Some d"
proof -
  obtain version fs1 pin fs3 c i fs2 diffs fs4 where
    run: "moduleVersion T pinned stage fs = (Inr (version, SourceCommit pin), fs1)" "version = pinned"
      "readImagePin (tc_NextJSON T) (root @ imagePinPath) fs1 = (Inr pin, fs3)"
    and gen: "generate T (SourceCommit pin) (PinImage pin) stage fs3 = (Inr (c, i), fs2)"
    and diff: "treeDiff c (root @ configPath) fs2 = (Inr [], fs4)"
    and inst: "installerDiffers (root @ installerPath) i fs4 = (False, fs')"
    using assms by (auto simp: verifyStaged_def split: sum.splits prod.splits if_splits)
  have ci: "c = stage @ [''config'']" "i = stage @ [''installer.yaml'']"
    using gen by (auto simp: generate_def Let_def split: sum.splits option.splits prod.splits if_splits)
  obtain out where "runCommand T (Some stage) True ''go'' [''list'', ''-m'', ''-json'', fork @ ''@'' @ pinned] fs = (Inr out, fs1)"
      "moduleInfo T out = Inr (pinned, SourceCommit pin)"
    using run(1,2) by (auto simp: moduleVersion_def split: sum.splits prod.splits)
  moreover have "same_files fs2 c fs2 (root @ configPath)"
    using treeDiff_result(2) [OF diff] by (auto simp: same_files_def)
  moreover have same: "node_at fs4 = node_at fs2" by (rule treeDiff_result(1) [OF diff])
  have "node_at fs' = node_at fs2" using installerDiffers_result(1) [OF inst] same by simp
  moreover have "\<exists>d. content fs2 (root @ installerPath) [] = Some d \<and> content fs2 i [] = Some d"
    using installerDiffers_result(2) [OF inst] unfolding content_same [OF same] by simp
  ultimately show thesis using that run(3) gen ci by blast
qed

end
