(* ===== verification/Source_Publish.thy ===== *)
theory Source_Publish
  imports Source_Spec Source_Checks Registry_Spec
begin

text \<open>
  The composition: what a run of \<open>update\<close> that reports no error has published, from the reference to
  the files of the repository; and samples on which both commands of the tool succeed.
\<close>

section \<open>Child processes that leave a file system\<close>

definition children_rooted :: "toolchain \<Rightarrow> bool" where
  "children_rooted T \<longleftrightarrow>
     (\<forall>env dir name args fs out fs'. tc_exec T env dir name args fs = (out, fs') \<longrightarrow> rooted fs \<longrightarrow> rooted fs') \<and>
     (\<forall>old new fs r fs'. tc_Symlink T old new fs = (r, fs') \<longrightarrow> rooted fs \<longrightarrow> rooted fs')"

lemma command_rooted:
  shows "runCommandEnv T dir capture env name args fs = (r, fs') \<Longrightarrow> children_rooted T \<Longrightarrow> rooted fs \<Longrightarrow> rooted fs'"
    and "runCommand T dir capture name args fs = (r, fs') \<Longrightarrow> children_rooted T \<Longrightarrow> rooted fs \<Longrightarrow> rooted fs'"
    and "generatorCommand T dir capture name args fs = (r, fs') \<Longrightarrow> children_rooted T \<Longrightarrow> rooted fs \<Longrightarrow> rooted fs'"
proof -
  have run: "rooted fs'"
    if "runCommandEnv T dir capture env name args fs = (r, fs')" "children_rooted T" "rooted fs" for env
  proof -
    obtain out fs1 where exec: "tc_exec T env dir name args fs = (out, fs1)" by fastforce
    then have "fs' = fs1" using that(1) by (auto simp: runCommandEnv_def split: option.splits prod.splits)
    with that exec show ?thesis unfolding children_rooted_def by blast
  qed
  then show "runCommandEnv T dir capture env name args fs = (r, fs') \<Longrightarrow> children_rooted T \<Longrightarrow> rooted fs \<Longrightarrow> rooted fs'"
    and "runCommand T dir capture name args fs = (r, fs') \<Longrightarrow> children_rooted T \<Longrightarrow> rooted fs \<Longrightarrow> rooted fs'"
    and "generatorCommand T dir capture name args fs = (r, fs') \<Longrightarrow> children_rooted T \<Longrightarrow> rooted fs \<Longrightarrow> rooted fs'"
    by (simp_all add: runCommand_def generatorCommand_def)
qed

text \<open>One implication per call, so that a run of calls becomes a chain of them.\<close>

lemma call_steps:
  "MkdirAll p fs = (None, fs') \<Longrightarrow> rooted fs \<longrightarrow> rooted fs'"
  "WriteFile p data perm fs = (None, fs') \<Longrightarrow> rooted fs \<longrightarrow> rooted fs'"
  "CopyFS dest source fs = (None, fs') \<Longrightarrow> rooted fs \<longrightarrow> rooted fs'"
  "ReadFile p fs = (x, fs') \<Longrightarrow> rooted fs \<longrightarrow> rooted fs'"
  "runCommand T dir capture name args fs = (r, fs') \<Longrightarrow> children_rooted T \<Longrightarrow> rooted fs \<longrightarrow> rooted fs'"
  "generatorCommand T dir capture name args fs = (r, fs') \<Longrightarrow> children_rooted T \<Longrightarrow> rooted fs \<longrightarrow> rooted fs'"
  "tc_Symlink T old new fs = (e, fs') \<Longrightarrow> children_rooted T \<Longrightarrow> rooted fs \<longrightarrow> rooted fs'"
proof (safe)
  show "MkdirAll p fs = (None, fs') \<Longrightarrow> rooted fs \<Longrightarrow> rooted fs'" by (rule MkdirAll_rooted)
  show "WriteFile p data perm fs = (None, fs') \<Longrightarrow> rooted fs \<Longrightarrow> rooted fs'" by (rule WriteFile_rooted)
  show "CopyFS dest source fs = (None, fs') \<Longrightarrow> rooted fs \<Longrightarrow> rooted fs'" by (rule CopyFS_rooted)
  show "ReadFile p fs = (x, fs') \<Longrightarrow> rooted fs \<Longrightarrow> rooted fs'" by (rule rooted_same [OF ReadFile_result(1)])
  show "runCommand T dir capture name args fs = (r, fs') \<Longrightarrow> children_rooted T \<Longrightarrow> rooted fs \<Longrightarrow> rooted fs'"
    by (rule command_rooted(2))
  show "generatorCommand T dir capture name args fs = (r, fs') \<Longrightarrow> children_rooted T \<Longrightarrow> rooted fs \<Longrightarrow> rooted fs'"
    by (rule command_rooted(3))
  show "tc_Symlink T old new fs = (e, fs') \<Longrightarrow> children_rooted T \<Longrightarrow> rooted fs \<Longrightarrow> rooted fs'"
    unfolding children_rooted_def by blast
qed

lemma sourceCommit_result:
  assumes "sourceCommit T ref checkout remote fs = (Inr commit, fs')"
  shows "children_rooted T \<Longrightarrow> rooted fs \<longrightarrow> rooted fs'" and "length commit = 40" and "fullSHA commit"
  using assms
  by (auto simp: sourceCommit_def Let_def split: sum.splits prod.splits if_splits dest!: call_steps)

lemma checkGeneratorGo_rooted:
  "checkGeneratorGo T source fs = (None, fs') \<Longrightarrow> children_rooted T \<Longrightarrow> rooted fs \<longrightarrow> rooted fs'"
  by (auto simp: checkGeneratorGo_def Let_def split: sum.splits prod.splits if_splits dest!: call_steps)

lemma renderInstaller_rooted:
  "renderInstaller T source stage installer kustomize ref fs = (None, fs') \<Longrightarrow> children_rooted T \<Longrightarrow>
     rooted fs \<longrightarrow> rooted fs'"
  by (auto simp: renderInstaller_def Let_def split: sum.splits option.splits prod.splits if_splits dest!: call_steps)

lemma generate_result:
  assumes "generate T commit ref stage fs = (Inr (c, i), fs')"
  shows "children_rooted T \<Longrightarrow> rooted fs \<longrightarrow> rooted fs'" and "c = stage @ [''config'']" and "i = stage @ [''installer.yaml'']"
  using assms
  by (auto simp: generate_def copyTree_def Let_def split: sum.splits option.splits prod.splits if_splits
      dest!: call_steps sourceCommit_result(1) checkGeneratorGo_rooted renderInstaller_rooted)

section \<open>The run of an update\<close>

lemma moduleInfo_result:
  "moduleInfo T out = Inr (version, commit) \<Longrightarrow> length commit = 40 \<and> fullSHA commit"
  by (auto simp: moduleInfo_def split: sum.splits if_splits)

lemma layout_below:
  assumes "update_layout caches out root {dir}" and "\<And>s. s \<in> staged \<Longrightarrow> \<exists>x. s = dir @ x"
  shows "update_layout caches out root staged"
proof -
  have one: "update_layout caches out root {dir @ x}" for x
  proof -
    have "dir \<parallel> root" and caches: "\<And>c. c \<in> caches \<Longrightarrow> c \<parallel> dir" and out: "\<And>o'. out = Some o' \<Longrightarrow> \<not> prefix dir o'"
      using assms(1) by (auto simp: update_layout_def)
    then have "dir @ x \<parallel> root" using parallel_append [of dir root x "[]"] by simp
    moreover have "c \<parallel> dir @ x" if "c \<in> caches" for c using parallel_append [OF caches [OF that], of "[]" x] by simp
    moreover have "\<not> prefix (dir @ x) o'" if "out = Some o'" for o' using out [OF that] by (auto dest: append_prefixD)
    ultimately show ?thesis using assms(1) by (simp add: update_layout_def)
  qed
  have "s \<parallel> root \<and> (\<forall>o'. out = Some o' \<longrightarrow> \<not> prefix s o') \<and> (\<forall>c \<in> caches. c \<parallel> s)" if s: "s \<in> staged" for s
  proof -
    obtain x where "s = dir @ x" using assms(2) [OF s] by blast
    with one [of x] show ?thesis by (simp add: update_layout_def)
  qed
  with assms(1) show ?thesis by (simp add: update_layout_def)
qed

lemma writeImagePin_result:
  assumes "writeImagePin p record fs = (None, fs')"
  shows "\<exists>m. node_at fs' p = Some (Regular (marshalPin record @ [CHR 0x0A]) m)" and "rooted fs \<Longrightarrow> rooted fs'"
  using assms
  by (auto simp: writeImagePin_def split: option.splits dest: WriteFile_writes WriteFile_rooted)

lemma update_run:
  assumes "update T R out root ref (fs, w) = (None, fs', w')"
  obtains f0 stage f1 commit f2 version f3 selectedImage c i f4 f5 f6 where
    "validateRef T ref fs = (None, f0)" "MkdirTemp (tc_TempDir T) ''operand-update-'' f0 = (Inr stage, f1)"
    "sourceCommit T ref (stage @ [''resolve'']) repo f1 = (Inr commit, f2)"
    "moduleVersion T commit stage f2 = (Inr (version, commit), f3)"
    "resolveOperandImage R commit w = (Inr selectedImage, w')"
    "generate T commit selectedImage (stage @ [''generated'']) f3 = (Inr (c, i), f4)"
    "writeImagePin (stage @ [''generated'', ''operand-image.json''])
       \<lparr>SourceCommit = commit, PinImage = selectedImage\<rparr> f4 = (None, f5)"
    "applyUpdate T out root version commit selectedImage c i (stage @ [''generated'', ''operand-image.json'']) f5 = (None, f6)"
    "fs' = snd (RemoveAll stage f6)"
  using assms
  by (auto simp: update_def Let_def split: sum.splits option.splits prod.splits if_splits)

lemma moduleVersion_result:
  assumes "moduleVersion T query dir fs = (Inr (version, commit), fs')"
  shows "children_rooted T \<Longrightarrow> rooted fs \<longrightarrow> rooted fs'" and "\<exists>out. moduleInfo T out = Inr (version, commit)"
  using assms by (auto simp: moduleVersion_def split: sum.splits prod.splits dest!: call_steps)

lemma validateRef_rooted: "validateRef T ref fs = (None, fs') \<Longrightarrow> children_rooted T \<Longrightarrow> rooted fs \<longrightarrow> rooted fs'"
  by (auto simp: validateRef_def split: sum.splits prod.splits if_splits dest!: call_steps)

text \<open>What the run leaves in the repository, from the stage it generated.\<close>

lemma update_installed:
  assumes "rooted fs" and "children_rooted T" and "go_tool T root caches"
    and "update_layout caches out root {tc_TempDir T}" and "update T R out root ref (fs, w) = (None, fs', w')"
  obtains f0 stage f1 commit f2 version f3 selectedImage c i f4 where
    "MkdirTemp (tc_TempDir T) ''operand-update-'' f0 = (Inr stage, f1)" "rooted f0"
    "sourceCommit T ref (stage @ [''resolve'']) repo f1 = (Inr commit, f2)"
    "moduleVersion T commit stage f2 = (Inr (version, commit), f3)"
    "resolveOperandImage R commit w = (Inr selectedImage, w')"
    "generate T commit selectedImage (stage @ [''generated'']) f3 = (Inr (c, i), f4)"
    "version_pinned T root version fs'"
    "\<exists>mode. node_at fs' (root @ imagePinPath) =
       Some (Regular (marshalPin \<lparr>SourceCommit = commit, PinImage = selectedImage\<rparr> @ [CHR 0x0A]) mode)"
    "tree fs' (root @ configPath) = copied_tree (fs_umask f4) True (tree f4 c)"
    "tree fs' (root @ installerPath) = copied_tree (fs_umask f4) False (tree f4 i)"
    "\<forall>o'. out = Some o' \<longrightarrow>
       (\<exists>old mode. node_at fs' o' = Some (Regular (old @ output_lines version commit selectedImage) mode))"
    "validateImagePin \<lparr>SourceCommit = commit, PinImage = selectedImage\<rparr> = None"
proof -
  obtain f0 stage f1 commit f2 version f3 selectedImage c i f4 f5 f6 where
    ref: "validateRef T ref fs = (None, f0)" and tmp: "MkdirTemp (tc_TempDir T) ''operand-update-'' f0 = (Inr stage, f1)"
    and source: "sourceCommit T ref (stage @ [''resolve'']) repo f1 = (Inr commit, f2)"
    and mod: "moduleVersion T commit stage f2 = (Inr (version, commit), f3)"
    and image': "resolveOperandImage R commit w = (Inr selectedImage, w')"
    and gen: "generate T commit selectedImage (stage @ [''generated'']) f3 = (Inr (c, i), f4)"
    and pin: "writeImagePin (stage @ [''generated'', ''operand-image.json''])
       \<lparr>SourceCommit = commit, PinImage = selectedImage\<rparr> f4 = (None, f5)"
    and apply': "applyUpdate T out root version commit selectedImage c i (stage @ [''generated'', ''operand-image.json'']) f5 = (None, f6)"
    and fs': "fs' = snd (RemoveAll stage f6)"
    by (rule update_run [OF assms(5)])
  obtain name where stage: "stage = tc_TempDir T @ [''operand-update-'' @ name]" using MkdirTemp_result(3) [OF tmp] by blast
  let ?pin = "stage @ [''generated'', ''operand-image.json'']"
  have "rooted f0" using assms(1) validateRef_rooted [OF ref assms(2)] by blast
  then have "rooted f5"
    using MkdirTemp_rooted [OF tmp] sourceCommit_result(1) [OF source assms(2)]
      moduleVersion_result(1) [OF mod assms(2)] generate_result(1) [OF gen assms(2)] writeImagePin_result(2) [OF pin]
    by blast
  have layout: "update_layout caches out root {c, i, ?pin}"
    by (rule layout_below [OF assms(4)]) (auto simp: stage generate_result(2,3) [OF gen])
  note applied = applied_update [OF \<open>rooted f5\<close> assms(3) layout apply']
  have layout': "update_layout caches out root {stage}" by (rule layout_below [OF assms(4)]) (simp add: stage)
  obtain r where rm: "RemoveAll stage f6 = (r, fs')" using fs' by (metis prod.collapse)
  have kept: "node_at fs' q = node_at f6 q" if "\<not> prefix stage q" for q
    using RemoveAll_result(1) [OF rm] that by (simp add: changes_below_def)
  have under: "node_at fs' (root @ q) = node_at f6 (root @ q)" for q
  proof (rule kept)
    show "\<not> prefix stage (root @ q)" using layout' by (intro prefix_apart) (simp add: update_layout_def)
  qed
  have trees: "tree fs' (root @ t) = tree f6 (root @ t)" for t
    using under [of "t @ q" for q] by (simp add: tree_def fun_eq_iff)
  have pinned: "version_pinned T root version fs'"
    using applied(3) under by (simp add: version_pinned_def)
  have written: "validateImagePin \<lparr>SourceCommit = commit, PinImage = selectedImage\<rparr> = None"
      "fs_umask f5 = fs_umask f4" "tree f5 c = tree f4 c" "tree f5 i = tree f4 i"
    using pin WriteFile_result(1,2)
    by (auto simp: writeImagePin_def generate_result(2,3) [OF gen] tree_def fun_eq_iff split: option.splits)
  have config: "tree fs' (root @ configPath) = copied_tree (fs_umask f4) True (tree f4 c)"
    using applied(1) [of "root @ configPath"] trees written
    by (simp add: installTargets_def installed_tree_def)
  have installer: "tree fs' (root @ installerPath) = copied_tree (fs_umask f4) False (tree f4 i)"
    using applied(1) [of "root @ installerPath"] trees written
    by (simp add: installTargets_def installed_tree_def installerPath_def configPath_def)
  have "tree fs' (root @ imagePinPath) = copied_tree (fs_umask f5) False (tree f5 ?pin)"
    using applied(1) [of "root @ imagePinPath"] trees
    by (simp add: installTargets_def installed_tree_def configPath_def installerPath_def imagePinPath_def)
  from fun_cong [OF this, of "[]"]
  have "node_at fs' (root @ imagePinPath) = map_option (written_node (fs_umask f5)) (node_at f5 ?pin)"
    by (simp add: copied_tree_def tree_def)
  with writeImagePin_result(1) [OF pin] have image_pin: "\<exists>mode. node_at fs' (root @ imagePinPath) =
      Some (Regular (marshalPin \<lparr>SourceCommit = commit, PinImage = selectedImage\<rparr> @ [CHR 0x0A]) mode)"
    by (auto simp: written_node_def)
  have "\<forall>o'. out = Some o' \<longrightarrow>
      (\<exists>old mode. node_at fs' o' = Some (Regular (old @ output_lines version commit selectedImage) mode))"
    using applied(2) kept layout' by (auto simp: announced_def update_layout_def)
  from that [OF tmp \<open>rooted f0\<close> source mod image' gen pinned image_pin config installer this written(1)]
  show thesis .
qed

text \<open>
  C12: What a successful update publishes belongs together. There is one full commit that the go
  command resolved to the version go.mod now pins, and one image, the one the registry verification
  selected for that commit; the installed image pin records exactly these two, and the workflow
  outputs announce them.
\<close>

theorem update_publishes:
  assumes "rooted fs" and "children_rooted T" and "go_tool T root caches"
    and "update_layout caches out root {tc_TempDir T}" and "update T R out root ref (fs, w) = (None, fs', w')"
  shows "\<exists>commit version selectedImage.
    length commit = 40 \<and> fullSHA commit \<and> (\<exists>out. moduleInfo T out = Inr (version, commit)) \<and>
    resolveOperandImage R commit w = (Inr selectedImage, w') \<and> version_pinned T root version fs' \<and>
    (\<exists>mode. node_at fs' (root @ imagePinPath) =
       Some (Regular (marshalPin \<lparr>SourceCommit = commit, PinImage = selectedImage\<rparr> @ [CHR 0x0A]) mode)) \<and>
    (\<forall>o'. out = Some o' \<longrightarrow>
       (\<exists>old mode. node_at fs' o' = Some (Regular (old @ output_lines version commit selectedImage) mode)))"
proof -
  obtain f0 stage f1 commit f2 version f3 selectedImage c i f4 where
    source: "sourceCommit T ref (stage @ [''resolve'']) repo f1 = (Inr commit, f2)"
    and mod: "moduleVersion T commit stage f2 = (Inr (version, commit), f3)"
    and rest: "resolveOperandImage R commit w = (Inr selectedImage, w')" "version_pinned T root version fs'"
    "\<exists>mode. node_at fs' (root @ imagePinPath) =
       Some (Regular (marshalPin \<lparr>SourceCommit = commit, PinImage = selectedImage\<rparr> @ [CHR 0x0A]) mode)"
    "\<forall>o'. out = Some o' \<longrightarrow>
       (\<exists>old mode. node_at fs' o' = Some (Regular (old @ output_lines version commit selectedImage) mode))"
    by (rule update_installed [OF assms])
  with moduleVersion_result(2) [OF mod] sourceCommit_result(2,3) [OF source] show ?thesis by blast
qed

section \<open>A desk on which both commands succeed\<close>

text \<open>
  Child processes that check out a tiny source tree, print one commit, one module and one rendered
  installer, and edit go.mod as \<open>sample_exec\<close> does.
\<close>

definition put_node :: "path \<Rightarrow> node \<Rightarrow> fsys \<Rightarrow> fsys" where
  "put_node p n fs = (if node_at fs (filepath_Dir p) = None then fs else set_node p n fs)"

definition check_out :: "path \<Rightarrow> fsys \<Rightarrow> fsys" where
  "check_out d fs = put_node (d @ [''go.mod'']) (Regular ''go 1.24.0'' 0x1A4)
     (put_node (d @ [''config''] @ [''a.yaml'']) (Regular ''a'' 0x1A4)
       (put_node (d @ [''config'']) Directory (put_node d Directory fs)))"

definition desk_exec ::
    "string list \<Rightarrow> path option \<Rightarrow> string \<Rightarrow> string list \<Rightarrow> fsys \<Rightarrow> (gerror option \<times> go_bytes \<times> go_bytes) \<times> fsys" where
  "desk_exec env dir name args fs =
     (if args = [] then ((None, [], []), fs)
      else if last args \<in> {''HEAD'', ''FETCH_HEAD^{commit}''} then ((None, sample_commit @ [CHR 0x0A], []), fs)
      else case dir of None \<Rightarrow> ((None, [], []), fs) | Some d \<Rightarrow>
      if name = ''git'' \<and> last args = ''FETCH_HEAD'' then ((None, [], []), check_out d fs)
      else if args = [''env'', ''GOVERSION''] then ((None, ''go1.24.0'', []), fs)
      else if hd args = ''build'' then ((None, ''kind: List'', []), fs)
      else if hd args = ''list'' then ((None, ''info'', []), fs)
      else sample_exec env (Some d) name args fs)"

definition desk_pin :: imagePinRecord where
  "desk_pin = \<lparr>SourceCommit = sample_commit, PinImage = imageRepository @ ''@'' @ sample_digest ''i''\<rparr>"

text \<open>A parser of the pins that are written, by the quotes in their text.\<close>

fun quoted :: "string \<Rightarrow> string list" where
  "quoted [] = [[]]"
| "quoted (c # cs) =
     (if c = CHR 0x22 then [] # quoted cs
      else (case quoted cs of [] \<Rightarrow> [[c]] | q # qs \<Rightarrow> (c # q) # qs))"

definition read_pin :: "go_bytes \<Rightarrow> json_read" where
  "read_pin data =
     (case quoted data of
        [a, k1, b, v1, c, k2, d, v2, e] \<Rightarrow> JValue (VMap [(k1, VStr v1), (k2, VStr v2)]) []
      | _ \<Rightarrow> JEnd)"

definition desk_tools :: toolchain where
  "desk_tools = sample_tools\<lparr>tc_exec := desk_exec,
     tc_ParseJSON := (\<lambda>data. if data = ''info''
       then Inr (VMap [(''Path'', VStr fork), (''Version'', VStr ''v1.2.0''), (''Origin'', VMap [(''Hash'', VStr sample_commit)])])
       else tc_ParseJSON sample_tools data),
     tc_NextJSON := (\<lambda>data. if data = ''pin''
       then JValue (VMap [(''sourceCommit'', VStr (SourceCommit desk_pin)), (''image'', VStr (PinImage desk_pin))]) []
       else read_pin data)\<rparr>"

definition desk :: fsys where
  "desk = \<lparr>fs_nodes =
     [([], Directory), ([''tmp''], Directory), ([''run''], Directory), ([''run'', ''out''], Regular ''a=b'' 0x180),
      ([''repo''], Directory), ([''repo'', ''go.mod''], Regular sample_mod_text 0x1A4),
      ([''repo'', ''operand-image.json''], Regular ''pin'' 0x1A4), ([''repo'', ''config''], Directory),
      ([''repo'', ''config'', ''manifests''], Directory),
      ([''repo'', ''config'', ''manifests'', ''mcp-lifecycle-operator''], Directory),
      ([''repo'', ''config'', ''manifests'', ''mcp-lifecycle-operator'', ''a.yaml''], Regular ''a'' 0x1A4),
      ([''repo'', ''internal''], Directory), ([''repo'', ''internal'', ''controller''], Directory),
      ([''repo'', ''internal'', ''controller'', ''resources''], Directory),
      ([''repo'', ''internal'', ''controller'', ''resources'', ''mcp-lifecycle-operator.yaml''], Regular ''kind: List'' 0x1A4)],
     fs_umask = 0x12, fs_answers = []\<rparr>"

lemma put_node_rooted: "rooted fs \<Longrightarrow> rooted (put_node p n fs)"
  by (auto simp: put_node_def fun_eq_iff intro!: rooted_new [of fs p _ n])

lemma sample_exec_rooted: "rooted fs \<Longrightarrow> rooted (snd (sample_exec env dir name args fs))"
  by (auto simp: sample_exec_def Let_def fun_eq_iff split: option.splits node.splits
      intro: rooted_set [of fs "the dir @ [''go.mod'']" _ "Regular (args ! 3) 0x1A4"])

lemma desk_children: "children_rooted desk_tools"
proof -
  have "rooted (snd (desk_exec env dir name args fs))" if "rooted fs" for env dir name args fs
    using that by (simp add: desk_exec_def check_out_def put_node_rooted sample_exec_rooted del: append.simps split: option.split)
  then have "desk_exec env dir name args fs = (out, fs') \<Longrightarrow> rooted fs \<Longrightarrow> rooted fs'" for env dir name args fs out fs'
    by (metis snd_conv)
  then show ?thesis by (auto simp: children_rooted_def desk_tools_def sample_tools_def)
qed

lemma desk_go: "go_tool desk_tools root {}"
proof -
  have "go_step root {} fs fs'" if "desk_exec env (Some root) ''go'' (''mod'' # args) fs = (out, fs')" for env args fs out fs'
  proof (cases "sample_exec env (Some root) ''go'' (''mod'' # args) fs = (out, fs')")
    case True
    with sample_go [of root] show ?thesis unfolding go_tool_def sample_tools_def toolchain.select_convs by blast
  next
    case False
    with that have "fs' = fs" by (auto simp: desk_exec_def Let_def split: if_splits)
    then show ?thesis by simp
  qed
  then show ?thesis by (simp add: go_tool_def desk_tools_def)
qed

lemma desk_rooted: "rooted desk"
  by (rule rooted_files) (simp add: desk_def node_at_def)

lemma desk_apart: "tc_TempDir desk_tools \<parallel> [''repo'']"
  by (simp add: desk_tools_def sample_tools_def parallel_def)

lemma desk_layout: "update_layout {} (Some [''run'', ''out'']) [''repo''] {tc_TempDir desk_tools}"
  by (simp add: update_layout_def desk_tools_def sample_tools_def filepath_Dir_def parallel_def)

definition desk_staged :: "string \<Rightarrow> fsys" where
  "desk_staged name = set_node [''tmp'', name] Directory desk"

lemma desk_commands:
  "runCommand desk_tools (Some [''repo'']) True ''go'' [''mod'', ''edit'', ''-json''] desk = (Inr sample_mod_text, desk)"
  "sourcePin desk_tools sample_mod_text = Inr ''v1.2.0''"
  "MkdirTemp (tc_TempDir desk_tools) ''operand-verify-'' desk =
     (Inr [''tmp'', ''operand-verify-''], desk_staged ''operand-verify-'')"
  "moduleVersion desk_tools ''v1.2.0'' [''tmp'', ''operand-verify-''] (desk_staged ''operand-verify-'') =
     (Inr (''v1.2.0'', sample_commit), desk_staged ''operand-verify-'')"
  by code_simp+

lemma desk_pin_decoded:
  "decode_struct decode_pin (VMap [(''sourceCommit'', VStr (SourceCommit desk_pin)), (''image'', VStr (PinImage desk_pin))])
     \<lparr>SourceCommit = [], PinImage = []\<rparr> = Inr desk_pin"
  "validateImagePin desk_pin = None"
  by code_simp+

lemma desk_pin_read:
  "readImagePin (tc_NextJSON desk_tools) ([''repo''] @ imagePinPath) (desk_staged ''operand-verify-'') =
     (Inr desk_pin, desk_staged ''operand-verify-'')"
proof -
  have "ReadFile ([''repo''] @ imagePinPath) (desk_staged ''operand-verify-'') = (Inr ''pin'', desk_staged ''operand-verify-'')"
    by code_simp
  then have "readBoundedFile ([''repo''] @ imagePinPath) maxRegistryResponse (desk_staged ''operand-verify-'') =
      (Inr ''pin'', desk_staged ''operand-verify-'')"
    by (simp add: readBoundedFile_def maxRegistryResponse_def)
  moreover have "tc_NextJSON desk_tools ''pin'' =
      JValue (VMap [(''sourceCommit'', VStr (SourceCommit desk_pin)), (''image'', VStr (PinImage desk_pin))]) []"
    "tc_NextJSON desk_tools [] = JEnd" by (simp_all add: desk_tools_def read_pin_def)
  ultimately show ?thesis
    unfolding readImagePin_def by (simp add: desk_pin_decoded ensureJSONEOF_def del: append.simps decode_struct.simps)
qed

lemma desk_generated:
  "case generate desk_tools sample_commit (PinImage desk_pin) [''tmp'', ''operand-verify-''] (desk_staged ''operand-verify-'') of
     (Inl e, g) \<Rightarrow> False
   | (Inr (c, i), g) \<Rightarrow>
       (case treeDiff c ([''repo''] @ configPath) g of
          (Inr [], h) \<Rightarrow> \<not> fst (installerDiffers ([''repo''] @ installerPath) i h)
        | _ \<Rightarrow> False)"
  by code_simp

lemma desk_verified: "fst (verify desk_tools [''repo''] desk) = None"
proof -
  have commit: "SourceCommit desk_pin = sample_commit" by (simp add: desk_pin_def)
  obtain r g where gen: "generate desk_tools sample_commit (PinImage desk_pin) [''tmp'', ''operand-verify-'']
      (desk_staged ''operand-verify-'') = (r, g)" by fastforce
  with desk_generated obtain c i where r: "r = Inr (c, i)" by (cases r) auto
  obtain d h where diff: "treeDiff c ([''repo''] @ configPath) g = (d, h)" by fastforce
  have "d = Inr [] \<and> \<not> fst (installerDiffers ([''repo''] @ installerPath) i h)"
    using desk_generated [unfolded gen r] diff by (cases d) (auto split: list.splits simp del: append.simps)
  then show ?thesis using gen r diff commit
    by (simp add: verify_def verifyStaged_def desk_commands desk_pin_read case_prod_unfold del: append.simps)
qed

definition desk_updating :: fsys where
  "desk_updating = desk_staged ''operand-update-''"

lemma desk_update_commands:
  "validateRef desk_tools ''main'' desk = (None, desk)"
  "MkdirTemp (tc_TempDir desk_tools) ''operand-update-'' desk = (Inr [''tmp'', ''operand-update-''], desk_updating)"
  "sourceCommit desk_tools ''main'' [''tmp'', ''operand-update-'', ''resolve''] repo desk_updating = (Inr sample_commit, desk_updating)"
  "moduleVersion desk_tools sample_commit [''tmp'', ''operand-update-''] desk_updating = (Inr (''v1.2.0'', sample_commit), desk_updating)"
  by code_simp+

text \<open>One evaluation: the update succeeds, and leaves a file system in order, without another module.\<close>

definition in_order :: "fsys \<Rightarrow> bool" where
  "in_order fs \<longleftrightarrow> fs_answers fs = [] \<and>
     list_all (\<lambda>(p, n). list_all (\<lambda>q. node_at fs q \<noteq> None) (prefixes p)) (fs_nodes fs) \<and>
     node_at fs [''repo'', ''internal'', ''controller'', ''resources'', ''go.mod''] = None"

lemma desk_published:
  "case generate desk_tools sample_commit (PinImage desk_pin) [''tmp'', ''operand-update-'', ''generated''] desk_updating of
     (Inl e, g) \<Rightarrow> False
   | (Inr (c, i), g) \<Rightarrow>
       (case writeImagePin [''tmp'', ''operand-update-'', ''generated'', ''operand-image.json''] desk_pin g of
          (Some e, h) \<Rightarrow> False
        | (None, h) \<Rightarrow>
            (case applyUpdate desk_tools (Some [''run'', ''out'']) [''repo''] ''v1.2.0'' sample_commit (PinImage desk_pin)
                c i [''tmp'', ''operand-update-'', ''generated'', ''operand-image.json''] h of
               (e, k) \<Rightarrow> e = None \<and> in_order (snd (RemoveAll [''tmp'', ''operand-update-''] k))))"
  by code_simp

lemma desk_updated:
  "\<exists>fs'. update desk_tools sample_registry (Some [''run'', ''out'']) [''repo''] ''main'' (desk, ()) = (None, fs', ())"
proof -
  obtain r g where gen: "generate desk_tools sample_commit (PinImage desk_pin) [''tmp'', ''operand-update-'', ''generated'']
      desk_updating = (r, g)" by fastforce
  with desk_published obtain c i where r: "r = Inr (c, i)" by (cases r) auto
  obtain e h where pin: "writeImagePin [''tmp'', ''operand-update-'', ''generated'', ''operand-image.json''] desk_pin g = (e, h)"
    by fastforce
  then have e: "e = None" and app: "fst (applyUpdate desk_tools (Some [''run'', ''out'']) [''repo''] ''v1.2.0'' sample_commit
      (PinImage desk_pin) c i [''tmp'', ''operand-update-'', ''generated'', ''operand-image.json''] h) = None"
    using desk_published [unfolded gen r] by (cases e; simp add: case_prod_unfold)+
  have "desk_pin = \<lparr>SourceCommit = sample_commit, PinImage = PinImage desk_pin\<rparr>" by (simp add: desk_pin_def)
  moreover have "resolveOperandImage sample_registry sample_commit () = (Inr (PinImage desk_pin), ())"
    by (simp add: resolveOperandImage_def sample_resolved desk_pin_def del: append.simps)
  ultimately show ?thesis using gen r pin e app
    by (simp add: update_def desk_update_commands case_prod_unfold Let_def)
qed

theorem update_publishes_witness:
  "\<exists>fs' commit selectedImage mode.
     update desk_tools sample_registry (Some [''run'', ''out'']) [''repo''] ''main'' (desk, ()) = (None, fs', ()) \<and>
     resolveOperandImage sample_registry commit () = (Inr selectedImage, ()) \<and>
     node_at fs' ([''repo''] @ imagePinPath) =
       Some (Regular (marshalPin \<lparr>SourceCommit = commit, PinImage = selectedImage\<rparr> @ [CHR 0x0A]) mode)"
proof -
  obtain fs' where run: "update desk_tools sample_registry (Some [''run'', ''out'']) [''repo''] ''main'' (desk, ()) = (None, fs', ())"
    using desk_updated by blast
  from update_publishes [OF desk_rooted desk_children desk_go desk_layout run] obtain commit selectedImage mode where
    "resolveOperandImage sample_registry commit () = (Inr selectedImage, ())"
    "node_at fs' ([''repo''] @ imagePinPath) =
       Some (Regular (marshalPin \<lparr>SourceCommit = commit, PinImage = selectedImage\<rparr> @ [CHR 0x0A]) mode)"
    by (elim exE conjE) (rule that; assumption)
  with run show ?thesis by (intro exI conjI)
qed

text \<open>
  C16: The command verify passes only what it should. If it reports no error, go.mod pins a version that the go
  command resolves to the commit of the committed image pin, that pin is well formed, and generating
  from this commit and image gave exactly the committed config files, byte for byte, and exactly the
  committed installer. So any drift is an error.
\<close>

theorem verify_accepts:
  assumes "tc_TempDir T \<parallel> root" and "verify T root fs = (None, fs')"
  shows "\<exists>json pinned out pin stage fs0 fs1 fs2 fs3 fs4.
    runCommand T (Some root) True ''go'' [''mod'', ''edit'', ''-json''] fs = (Inr json, fs0) \<and>
    sourcePin T json = Inr pinned \<and>
    runCommand T (Some stage) True ''go'' [''list'', ''-m'', ''-json'', fork @ ''@'' @ pinned] fs1 = (Inr out, fs2) \<and>
    moduleInfo T out = Inr (pinned, SourceCommit pin) \<and>
    readImagePin (tc_NextJSON T) (root @ imagePinPath) fs2 = (Inr pin, fs3) \<and>
    fullSHA (SourceCommit pin) \<and> validImageReference (PinImage pin) \<and>
    generate T (SourceCommit pin) (PinImage pin) stage fs3 = (Inr (stage @ [''config''], stage @ [''installer.yaml'']), fs4) \<and>
    same_files fs4 (stage @ [''config'']) fs' (root @ configPath) \<and>
    (\<exists>d. content fs' (root @ installerPath) [] = Some d \<and> content fs4 (stage @ [''installer.yaml'']) [] = Some d)"
proof -
  obtain json fs0 pinned stage fs1 fs5 where
    pin: "runCommand T (Some root) True ''go'' [''mod'', ''edit'', ''-json''] fs = (Inr json, fs0)" "sourcePin T json = Inr pinned"
    and tmp: "MkdirTemp (tc_TempDir T) ''operand-verify-'' fs0 = (Inr stage, fs1)"
    and staged: "verifyStaged T root pinned stage fs1 = (None, fs5)" and fs': "fs' = snd (RemoveAll stage fs5)"
    using assms(2) by (auto simp: verify_def split: sum.splits prod.splits)
  obtain name where "stage = tc_TempDir T @ [''operand-verify-'' @ name]" using MkdirTemp_result(3) [OF tmp] by blast
  then have "stage \<parallel> root" using parallel_append [OF assms(1), of "[''operand-verify-'' @ name]" "[]"] by simp
  obtain r where rm: "RemoveAll stage fs5 = (r, fs')" using fs' by (metis prod.collapse)
  have kept: "tree fs' (root @ q) = tree fs5 (root @ q)" for q
    using tree_unchanged [OF RemoveAll_result(1) [OF rm]] below_workspace [OF \<open>stage \<parallel> root\<close>] by blast
  obtain out pin' fs2 fs3 fs4 where
    rest: "runCommand T (Some stage) True ''go'' [''list'', ''-m'', ''-json'', fork @ ''@'' @ pinned] fs1 = (Inr out, fs2)"
      "moduleInfo T out = Inr (pinned, SourceCommit pin')"
      "readImagePin (tc_NextJSON T) (root @ imagePinPath) fs2 = (Inr pin', fs3)"
      "generate T (SourceCommit pin') (PinImage pin') stage fs3 = (Inr (stage @ [''config''], stage @ [''installer.yaml'']), fs4)"
    and same: "node_at fs5 = node_at fs4" "same_files fs4 (stage @ [''config'']) fs4 (root @ configPath)"
      "\<exists>d. content fs4 (root @ installerPath) [] = Some d \<and> content fs4 (stage @ [''installer.yaml'']) [] = Some d"
    by (rule verify_staged [OF staged])
  have at: "tree fs' (root @ q) = tree fs4 (root @ q)" for q using kept tree_same [OF same(1)] by simp
  have "content fs' (root @ q) = content fs4 (root @ q)" for q by (simp add: content_def at fun_eq_iff)
  moreover have "node_at fs' (root @ q) = node_at fs4 (root @ q)" for q using fun_cong [OF at [of q], of "[]"] by (simp add: tree_def)
  ultimately have "same_files fs4 (stage @ [''config'']) fs' (root @ configPath)"
      "\<exists>d. content fs' (root @ installerPath) [] = Some d \<and> content fs4 (stage @ [''installer.yaml'']) [] = Some d"
    using same(2,3) by (simp_all add: same_files_def)
  with pin rest read_pin_valid [OF rest(3)] show ?thesis by blast
qed

theorem verify_accepts_witness:
  "\<exists>fs' d. verify desk_tools [''repo''] desk = (None, fs') \<and> content fs' ([''repo''] @ installerPath) [] = Some d"
proof -
  obtain fs' where run: "verify desk_tools [''repo''] desk = (None, fs')" using desk_verified by (metis prod.collapse)
  from verify_accepts [OF desk_apart run] obtain d where "content fs' ([''repo''] @ installerPath) [] = Some d"
    by (elim exE conjE) (rule that)
  with run show ?thesis by (intro exI conjI)
qed

end
