(* ===== verification/Source_Round.thy ===== *)
theory Source_Round
  imports Source_Publish
begin

text \<open>
  The two commands of tools/source-update together: what \<open>update\<close> published, \<open>verify\<close> accepts, as
  far as the tools it calls do their work again. The laws of this theory say what that means: the
  tools change nothing but their directory and the caches, and what they generate is reproducible.
\<close>

section \<open>Calls that do not fail\<close>

definition quiet :: "fsys \<Rightarrow> bool" where
  "quiet fs \<longleftrightarrow> fs_answers fs = []"

lemma quiet_answer [simp]: "quiet fs \<Longrightarrow> next_answer fs = (Works [], fs)"
  by (simp add: quiet_def next_answer_def)

lemma quiet_read: "quiet fs \<Longrightarrow> node_at fs p = Some (Regular data mode) \<Longrightarrow> ReadFile p fs = (Inr data, fs)"
  by (simp add: ReadFile_def)

lemma content_node: "content fs p [] = Some d \<longleftrightarrow> (\<exists>mode. node_at fs p = Some (Regular d mode))"
  by (simp add: content_def tree_def file_data_def split: option.splits node.splits)

lemma quiet_readTree:
  assumes "quiet fs"
  shows "list_all (\<lambda>p. node_at fs p \<noteq> None) ps \<Longrightarrow> \<exists>files. readTree root ps fs = (Inr files, fs)"
proof (induction ps)
  case (Cons p ps)
  then obtain n files where "node_at fs p = Some n" and "readTree root ps fs = (Inr files, fs)" by auto
  then show ?case using assms by (cases n) (auto simp: isDirectory_def quiet_read)
qed simp

lemma quiet_treeFiles:
  assumes "quiet fs" and "node_at fs root \<noteq> None"
  shows "\<exists>files. treeFiles root fs = (Inr files, fs)"
proof -
  have "list_all (\<lambda>p. node_at fs p \<noteq> None) (walk_paths root fs)" by (simp add: list_all_iff walk_result)
  from quiet_readTree [OF assms(1) this] assms show ?thesis by (auto simp: treeFiles_def Lstat_def)
qed

lemma quiet_treeDiff:
  assumes "quiet fs" and "node_at fs expected \<noteq> None" and "node_at fs actual \<noteq> None"
    and "content fs expected = content fs actual"
  shows "treeDiff expected actual fs = (Inr [], fs)"
proof -
  obtain want got where "treeFiles expected fs = (Inr want, fs)" and "treeFiles actual fs = (Inr got, fs)"
    using quiet_treeFiles assms(1-3) by meson
  then have diff: "treeDiff expected actual fs = (Inr (diffFiles want got), fs)"
    using assms(1,3) by (auto simp: treeDiff_def Lstat_def)
  with treeDiff_result(2) [OF diff] assms(3,4) show ?thesis by auto
qed

lemma quiet_installerDiffers:
  assumes "quiet fs" and "content fs actual [] = Some d" and "content fs expected [] = Some d"
  shows "installerDiffers actual expected fs = (False, fs)"
  using assms by (auto simp: installerDiffers_def content_node quiet_read)

section \<open>What the tools are relied on for\<close>

text \<open>
  Git, go list and the generators work in a directory below the one for temporary files, change only
  that and the caches, and do not make the file system fail.
\<close>

definition confined :: "toolchain \<Rightarrow> path set \<Rightarrow> bool" where
  "confined T caches \<longleftrightarrow>
     (\<forall>ref checkout fs r fs'. prefix (tc_TempDir T) checkout \<longrightarrow> rooted fs \<longrightarrow> isDirectory fs (filepath_Dir checkout) \<longrightarrow>
        sourceCommit T ref checkout repo fs = (r, fs') \<longrightarrow> changes_below (insert checkout caches) fs fs') \<and>
     (\<forall>query dir fs r fs'. prefix (tc_TempDir T) dir \<longrightarrow>
        moduleVersion T query dir fs = (r, fs') \<longrightarrow> changes_below caches fs fs' \<and> (quiet fs \<longrightarrow> quiet fs')) \<and>
     (\<forall>commit ref stage fs r fs'. prefix (tc_TempDir T) stage \<longrightarrow> rooted fs \<longrightarrow> isDirectory fs stage \<longrightarrow> quiet fs \<longrightarrow>
        generate T commit ref stage fs = (r, fs') \<longrightarrow> changes_below (insert stage caches) fs fs' \<and> quiet fs')"

text \<open>
  Nothing below the stage yet, what generating leaves there is determined by the commit and the
  image: a tree of config files and an installer.
\<close>

definition fresh :: "fsys \<Rightarrow> path \<Rightarrow> bool" where
  "fresh fs stage \<longleftrightarrow> (\<forall>q. q \<noteq> [] \<longrightarrow> node_at fs (stage @ q) = None)"

definition reproducible :: "toolchain \<Rightarrow> bool" where
  "reproducible T \<longleftrightarrow>
     (\<forall>commit ref. \<exists>files installer. \<forall>stage fs c i fs'. fresh fs stage \<longrightarrow>
        generate T commit ref stage fs = (Inr (c, i), fs') \<longrightarrow>
        isDirectory fs' c \<and> content fs' c = files \<and> content fs' i [] = Some installer)"

text \<open>
  A version, once resolved, stands for its commit; \<open>go mod edit -json\<close> prints what go.mod says; and
  the parser of JSON reads the pin that was printed.
\<close>

definition immutable_versions :: "toolchain \<Rightarrow> bool" where
  "immutable_versions T \<longleftrightarrow>
     (\<forall>query dir fs version commit fs' dir2 fs2 r fs2'.
        moduleVersion T query dir fs = (Inr (version, commit), fs') \<longrightarrow>
        moduleVersion T version dir2 fs2 = (Inr r, fs2') \<longrightarrow> r = (version, commit))"

definition prints_module :: "toolchain \<Rightarrow> path \<Rightarrow> bool" where
  "prints_module T root \<longleftrightarrow>
     (\<forall>fs json fs' fs2 json2 fs2'.
        runCommand T (Some root) True ''go'' [''mod'', ''edit'', ''-json''] fs = (Inr json, fs') \<longrightarrow>
        runCommand T (Some root) True ''go'' [''mod'', ''edit'', ''-json''] fs2 = (Inr json2, fs2') \<longrightarrow>
        node_at fs2 (root @ [''go.mod'']) = node_at fs' (root @ [''go.mod'']) \<longrightarrow> json2 = json) \<and>
     (\<forall>fs r fs'. runCommand T (Some root) True ''go'' [''mod'', ''edit'', ''-json''] fs = (r, fs') \<longrightarrow>
        quiet fs \<longrightarrow> quiet fs')"

definition reads_pins :: "toolchain \<Rightarrow> bool" where
  "reads_pins T \<longleftrightarrow>
     (\<forall>record. validateImagePin record = None \<longrightarrow>
        (\<exists>rest. tc_NextJSON T (marshalPin record @ [CHR 0x0A]) =
           JValue (VMap [(''sourceCommit'', VStr (SourceCommit record)), (''image'', VStr (PinImage record))]) rest \<and>
         tc_NextJSON T rest = JEnd))"

definition reliable :: "toolchain \<Rightarrow> path set \<Rightarrow> path \<Rightarrow> bool" where
  "reliable T caches root \<longleftrightarrow> children_rooted T \<and> go_tool T root caches \<and> confined T caches \<and>
     reproducible T \<and> immutable_versions T \<and> prints_module T root \<and> reads_pins T"

text \<open>
  \<open>verify\<close> without its checks: it prints go.mod, makes a stage, resolves the version and generates.
\<close>

definition rerun :: "toolchain \<Rightarrow> path \<Rightarrow> string \<Rightarrow> string \<Rightarrow> string \<Rightarrow> fsys \<Rightarrow> gerror option \<times> fsys" where
  "rerun T root version commit selectedImage fs =
     (case runCommand T (Some root) True ''go'' [''mod'', ''edit'', ''-json''] fs of
        (Inl err, fs) \<Rightarrow> (Some err, fs)
      | (Inr json, fs) \<Rightarrow>
          (case MkdirTemp (tc_TempDir T) ''operand-verify-'' fs of
             (Inl err, fs) \<Rightarrow> (Some err, fs)
           | (Inr stage, fs) \<Rightarrow>
               (case (case moduleVersion T version stage fs of
                        (Inl err, fs) \<Rightarrow> (Some err, fs)
                      | (Inr r, fs) \<Rightarrow>
                          (case generate T commit selectedImage stage fs of
                             (Inl err, fs) \<Rightarrow> (Some err, fs)
                           | (Inr r, fs) \<Rightarrow> (None, fs))) of
                  (err, fs) \<Rightarrow> (err, snd (RemoveAll stage fs)))))"

section \<open>A repository in step with its sources\<close>

text \<open>
  The committed files are what generating from the commit and the image gives: what \<open>update\<close>
  establishes and \<open>verify\<close> relies on.
\<close>

definition in_step :: "toolchain \<Rightarrow> path \<Rightarrow> string \<Rightarrow> string \<Rightarrow> string \<Rightarrow> fsys \<Rightarrow> bool" where
  "in_step T root version commit selectedImage fs \<longleftrightarrow>
     (\<exists>fs1 json fs2. runCommand T (Some root) True ''go'' [''mod'', ''edit'', ''-json''] fs1 = (Inr json, fs2) \<and>
       sourcePin T json = Inr version \<and> node_at fs (root @ [''go.mod'']) = node_at fs2 (root @ [''go.mod''])) \<and>
     (\<exists>query dir fs1 fs2. moduleVersion T query dir fs1 = (Inr (version, commit), fs2)) \<and>
     (let pin = \<lparr>SourceCommit = commit, PinImage = selectedImage\<rparr> in
      validateImagePin pin = None \<and>
      (\<exists>mode. node_at fs (root @ imagePinPath) = Some (Regular (marshalPin pin @ [CHR 0x0A]) mode))) \<and>
     (\<exists>files installer. node_at fs (root @ configPath) \<noteq> None \<and> content fs (root @ configPath) = files \<and>
       content fs (root @ installerPath) [] = Some installer \<and>
       (\<forall>stage fs1 c i fs2. fresh fs1 stage \<longrightarrow> generate T commit selectedImage stage fs1 = (Inr (c, i), fs2) \<longrightarrow>
          isDirectory fs2 c \<and> content fs2 c = files \<and> content fs2 i [] = Some installer))"

lemma file_data_copy [simp]:
  "file_data (map_option (copied_node u) n) = file_data n"
  "file_data (map_option (written_node u) n) = file_data n"
  by (simp_all add: file_data_def copied_node_def written_node_def split: option.split node.split)

lemma content_copied:
  "tree fs p = copied_tree u True (tree fs' p') \<Longrightarrow> content fs p = content fs' p'"
  "tree fs p = copied_tree u False (tree fs' p') \<Longrightarrow> content fs p [] = content fs' p' []"
  by (simp_all add: content_def copied_tree_def fun_eq_iff)

lemma layout_outside:
  assumes "update_layout caches out root {tc_TempDir T}"
  shows "c \<in> caches \<Longrightarrow> \<not> prefix c (root @ q)" and "c \<in> caches \<Longrightarrow> \<not> prefix c (tc_TempDir T @ q)"
    and "\<not> prefix (tc_TempDir T @ q) (root @ x)"
proof -
  show "\<not> prefix c (root @ q)" "\<not> prefix c (tc_TempDir T @ q)" if "c \<in> caches"
    using assms that by (auto simp: update_layout_def intro!: prefix_apart)
  have "tc_TempDir T @ q \<parallel> root @ x"
    using assms by (intro parallel_append) (simp add: update_layout_def)
  then show "\<not> prefix (tc_TempDir T @ q) (root @ x)" by (simp add: parallel_def)
qed

lemma update_in_step:
  assumes "rooted fs" and "reliable T caches root" and "update_layout caches out root {tc_TempDir T}"
    and "update T R out root ref (fs, w) = (None, fs', w')"
  obtains version commit selectedImage where "resolveOperandImage R commit w = (Inr selectedImage, w')"
    and "in_step T root version commit selectedImage fs'"
proof -
  note laws = assms(2) [unfolded reliable_def]
  obtain f0 stage f1 commit f2 version f3 selectedImage c i f4 where
    tmp: "MkdirTemp (tc_TempDir T) ''operand-update-'' f0 = (Inr stage, f1)" "rooted f0"
    and source: "sourceCommit T ref (stage @ [''resolve'']) repo f1 = (Inr commit, f2)"
    and mod: "moduleVersion T commit stage f2 = (Inr (version, commit), f3)"
    and image': "resolveOperandImage R commit w = (Inr selectedImage, w')"
    and gen: "generate T commit selectedImage (stage @ [''generated'']) f3 = (Inr (c, i), f4)"
    and pinned: "version_pinned T root version fs'"
    and pin: "\<exists>mode. node_at fs' (root @ imagePinPath) =
       Some (Regular (marshalPin \<lparr>SourceCommit = commit, PinImage = selectedImage\<rparr> @ [CHR 0x0A]) mode)"
    and config: "tree fs' (root @ configPath) = copied_tree (fs_umask f4) True (tree f4 c)"
    and installer: "tree fs' (root @ installerPath) = copied_tree (fs_umask f4) False (tree f4 i)"
    and valid: "validateImagePin \<lparr>SourceCommit = commit, PinImage = selectedImage\<rparr> = None"
    using laws by - (rule update_installed [OF assms(1) _ _ assms(3,4)], simp_all)
  obtain name where stage: "stage = tc_TempDir T @ [''operand-update-'' @ name]" using MkdirTemp_result(3) [OF tmp(1)] by blast
  have below: "prefix (tc_TempDir T) (stage @ x)" for x by (simp add: stage)
  have caches: "\<not> prefix k (stage @ x)" if "k \<in> caches" for k x
    using layout_outside(2) [OF assms(3) that] by (simp add: stage)
  have "isDirectory f1 stage" by (simp add: MkdirTemp_result(5) [OF tmp(1) refl] isDirectory_def)
  then have "changes_below (insert (stage @ [''resolve'']) caches) f1 f2"
    using laws source below [of "[''resolve'']"] MkdirTemp_rooted [OF tmp] by (auto simp: confined_def filepath_Dir_def)
  moreover have "changes_below caches f2 f3" using laws mod below [of "[]"] by (auto simp: confined_def)
  moreover have "node_at f1 (stage @ ''generated'' # x) = None" for x
    using tmp(2) MkdirTemp_result(4,5) [OF tmp(1) refl] by (simp add: rooted_def)
  ultimately have "fresh f3 (stage @ [''generated''])"
    using caches by (auto simp: fresh_def changes_below_def)
  moreover obtain files script where same: "\<And>stage fs c i fs'. fresh fs stage \<Longrightarrow>
      generate T commit selectedImage stage fs = (Inr (c, i), fs') \<Longrightarrow>
      isDirectory fs' c \<and> content fs' c = files \<and> content fs' i [] = Some script"
    using laws unfolding reproducible_def by meson
  ultimately have "isDirectory f4 c" "content f4 c = files" "content f4 i [] = Some script"
    using gen by blast+
  moreover have "node_at fs' (root @ configPath) \<noteq> None" if "isDirectory f4 c"
    using fun_cong [OF config, of "[]"] that by (simp add: copied_tree_def tree_def isDirectory_def)
  ultimately have "in_step T root version commit selectedImage fs'"
    using pinned mod pin valid same content_copied(1) [OF config] content_copied(2) [OF installer]
    unfolding in_step_def version_pinned_def Let_def by (intro conjI) (blast | simp)+
  from that [OF image' this] show thesis .
qed

lemma quiet_MkdirTemp:
  assumes "MkdirTemp dir pattern fs = (r, fs')" and "quiet fs"
  shows "quiet fs'"
proof -
  have "mkdirTempFrom tries dir pattern fs = (r, fs') \<Longrightarrow> quiet fs \<Longrightarrow> quiet fs'" for tries
  proof (induction tries dir pattern fs rule: mkdirTempFrom.induct)
    case (1 tries dir pattern fs)
    from "1.IH" [of "Works []" fs "[]"] "1.prems" show ?case
      by (auto simp: mkdirTempFrom.simps [of tries] Let_def quiet_def [of "set_node _ _ _"] set_node_def
          split: if_splits) (simp add: quiet_def)
  qed
  with assms show ?thesis unfolding MkdirTemp_def by blast
qed

lemma outside_modules:
  "root @ configPath @ q \<notin> modules root" "root @ installerPath @ q \<notin> modules root"
  "root @ imagePinPath \<notin> modules root"
  by (auto simp: modules_def configPath_def installerPath_def imagePinPath_def)

text \<open>The stage of \<open>verify\<close>, in a repository that is in step.\<close>

lemma verify_stage:
  assumes "reliable T caches root" and "update_layout caches out root {tc_TempDir T}"
    and "in_step T root version commit selectedImage fs"
    and "\<And>q. q \<notin> modules root \<Longrightarrow> prefix root q \<Longrightarrow> node_at g q = node_at fs q"
    and "quiet g" and "fresh g stage" and "isDirectory g stage" and "stage = tc_TempDir T @ [name]" and "rooted g"
  shows "verifyStaged T root version stage g =
    (case moduleVersion T version stage g of
       (Inl err, fs) \<Rightarrow> (Some err, fs)
     | (Inr r, fs) \<Rightarrow>
         (case generate T commit selectedImage stage fs of
            (Inl err, fs) \<Rightarrow> (Some err, fs)
          | (Inr r, fs) \<Rightarrow> (None, fs)))"
proof -
  note laws = assms(1) [unfolded reliable_def] and step = assms(3) [unfolded in_step_def Let_def]
  let ?pin = "\<lparr>SourceCommit = commit, PinImage = selectedImage\<rparr>"
  have below: "prefix (tc_TempDir T) stage" by (simp add: assms(8))
  have caches: "\<not> prefix k (root @ q) \<and> \<not> prefix k (stage @ q)" if "k \<in> caches" for k q
    using layout_outside(1,2) [OF assms(2) that] by (simp add: assms(8))
  have apart: "\<not> prefix stage (root @ q)" for q
    using layout_outside(3) [OF assms(2)] by (simp add: assms(8))
  obtain r1 g1 where mod: "moduleVersion T version stage g = (r1, g1)" by fastforce
  have g1: "changes_below caches g g1" "quiet g1" using laws mod below assms(5) by (auto simp: confined_def)
  show ?thesis
  proof (cases r1)
    case (Inl e)
    with mod show ?thesis by (simp add: verifyStaged_def)
  next
    case (Inr vc)
    have vc: "vc = (version, commit)"
      using laws step mod Inr unfolding immutable_versions_def by blast
    have repo1: "node_at g1 (root @ q) = node_at fs (root @ q)" if "root @ q \<notin> modules root" for q
      using g1(1) caches assms(4) [OF that] by (simp add: changes_below_def)
    obtain mode where "node_at g1 (root @ imagePinPath) = Some (Regular (marshalPin ?pin @ [CHR 0x0A]) mode)"
      using step repo1 [OF outside_modules(3)] by auto
    from quiet_read [OF g1(2) this]
    have read: "ReadFile (root @ imagePinPath) g1 = (Inr (marshalPin ?pin @ [CHR 0x0A]), g1)" .
    have valid: "validateImagePin ?pin = None" using step by blast
    then obtain rest where "tc_NextJSON T (marshalPin ?pin @ [CHR 0x0A]) =
        JValue (VMap [(''sourceCommit'', VStr (SourceCommit ?pin)), (''image'', VStr (PinImage ?pin))]) rest"
        "tc_NextJSON T rest = JEnd"
      using laws unfolding reads_pins_def by blast
    from pin_read_back [OF valid this read]
    have pin: "readImagePin (tc_NextJSON T) (root @ imagePinPath) g1 = (Inr ?pin, g1)" .
    obtain r2 g2 where gen: "generate T commit selectedImage stage g1 = (r2, g2)" by fastforce
    have fresh: "fresh g1 stage" "isDirectory g1 stage"
      using assms(6,7) g1(1) caches caches [of _ "[]"] by (auto simp: fresh_def changes_below_def isDirectory_def)
    moreover have "rooted g1" using moduleVersion_result(1) mod Inr vc laws assms(9) by blast
    ultimately have g2: "changes_below (insert stage caches) g1 g2" "quiet g2"
      using laws gen below g1(2) by (auto simp: confined_def)
    show ?thesis
    proof (cases r2)
      case (Inl e)
      with mod Inr vc pin gen show ?thesis by (simp add: verifyStaged_def)
    next
      case ci: (Inr ci)
      obtain c i where c: "ci = (c, i)" by fastforce
      have repo2: "node_at g2 (root @ q) = node_at fs (root @ q)" if "root @ q \<notin> modules root" for q
        using g2(1) caches apart repo1 [OF that] by (simp add: changes_below_def)
      have config: "node_at g2 (root @ configPath @ q) = node_at fs (root @ configPath @ q)"
        and installer: "node_at g2 (root @ installerPath @ q) = node_at fs (root @ installerPath @ q)" for q
        using repo2 outside_modules by auto
      have config': "content g2 (root @ configPath) = content fs (root @ configPath)"
        and installer': "content g2 (root @ installerPath) = content fs (root @ installerPath)"
        using config installer by (simp_all add: content_def tree_def fun_eq_iff)
      obtain files script where "node_at fs (root @ configPath) \<noteq> None" "content fs (root @ configPath) = files"
          "content fs (root @ installerPath) [] = Some script"
        and same: "isDirectory g2 c" "content g2 c = files" "content g2 i [] = Some script"
        using step fresh(1) gen ci c by blast
      moreover have "node_at g2 (root @ configPath) = node_at fs (root @ configPath)" using config [of "[]"] by simp
      ultimately have diff: "treeDiff c (root @ configPath) g2 = (Inr [], g2)"
          "installerDiffers (root @ installerPath) i g2 = (False, g2)"
        using config' installer' g2(2)
        by (intro quiet_treeDiff quiet_installerDiffers; simp add: isDirectory_def)+
      show ?thesis
        using mod Inr vc pin gen ci c diff by (simp add: verifyStaged_def)
    qed
  qed
qed

lemma verify_reruns:
  assumes "reliable T caches root" and "update_layout caches out root {tc_TempDir T}"
    and "in_step T root version commit selectedImage fs" and "rooted fs" and "quiet fs"
  shows "verify T root fs = rerun T root version commit selectedImage fs"
proof -
  note laws = assms(1) [unfolded reliable_def]
  obtain r g where edit: "runCommand T (Some root) True ''go'' [''mod'', ''edit'', ''-json''] fs = (r, g)" by fastforce
  have go: "go_step root caches fs g" using laws edit run_go by blast
  show ?thesis
  proof (cases r)
    case (Inl e)
    with edit show ?thesis by (simp add: verify_def rerun_def)
  next
    case (Inr json)
    have "sourcePin T json = Inr version"
      using assms(3) laws edit Inr unfolding in_step_def prints_module_def by blast
    moreover have "quiet g" using laws edit assms(5) unfolding prints_module_def by blast
    moreover obtain s h where tmp: "MkdirTemp (tc_TempDir T) ''operand-verify-'' g = (s, h)" by fastforce
    moreover have "verifyStaged T root version stage h =
        (case moduleVersion T version stage h of
           (Inl err, fs) \<Rightarrow> (Some err, fs)
         | (Inr r, fs) \<Rightarrow>
             (case generate T commit selectedImage stage fs of
                (Inl err, fs) \<Rightarrow> (Some err, fs)
              | (Inr r, fs) \<Rightarrow> (None, fs)))" if staged: "s = Inr stage" for stage
    proof -
      note made = MkdirTemp_result(3-5) [OF tmp staged]
      obtain name where stage: "stage = tc_TempDir T @ [name]" using made(1) by blast
      have "rooted g" using go assms(4) by (simp add: go_step_def)
      then have "fresh h stage" using made(2,3) by (simp add: fresh_def rooted_def)
      moreover have "node_at h q = node_at fs q" if outside: "q \<notin> modules root" "prefix root q" for q
      proof -
        obtain x where q: "q = root @ x" using outside(2) by (rule prefixE)
        have "\<forall>c \<in> caches. \<not> prefix c q" using layout_outside(1) [OF assms(2)] by (simp add: q)
        then have "node_at g q = node_at fs q" using go outside(1) by (simp add: go_step_def)
        moreover have "q \<noteq> stage" using layout_outside(3) [OF assms(2), of "[name]" x] by (auto simp: q stage)
        ultimately show ?thesis by (simp add: made(3))
      qed
      moreover have "quiet h" using quiet_MkdirTemp [OF tmp \<open>quiet g\<close>] .
      moreover have "isDirectory h stage" by (simp add: made(3) isDirectory_def)
      moreover have "rooted h" using MkdirTemp_rooted tmp staged \<open>rooted g\<close> by blast
      ultimately show ?thesis using verify_stage [OF assms(1-3) _ _ _ _ stage] by blast
    qed
    ultimately show ?thesis using edit Inr by (cases s) (simp_all add: verify_def rerun_def)
  qed
qed

section \<open>The desk is reliable\<close>

lemma json_hex: "any_hex c \<Longrightarrow> json_char c = [c] \<and> c \<noteq> CHR 0x22"
  by (auto simp: json_char_def any_hex_def lower_hex_def is_digit_def Let_def)

lemma lower_is_hex: "lower_hex c \<Longrightarrow> any_hex c"
  by (auto simp: lower_hex_def any_hex_def)

lemma json_plain:
  "list_all (\<lambda>c. json_char c = [c]) s \<Longrightarrow> json_literal s = CHR 0x22 # s @ [CHR 0x22]"
proof -
  assume "list_all (\<lambda>c. json_char c = [c]) s"
  then have "concat (map json_char s) = s" by (induction s) auto
  then show ?thesis by (simp add: json_literal_def)
qed

lemma quoted_split: "CHR 0x22 \<notin> set xs \<Longrightarrow> quoted (xs @ CHR 0x22 # ys) = xs # quoted ys"
  by (induction xs) auto

lemma quoted_plain: "CHR 0x22 \<notin> set xs \<Longrightarrow> quoted xs = [xs]"
  by (induction xs) auto

lemma desk_reads_pins: "reads_pins desk_tools"
proof -
  have "tc_NextJSON desk_tools (marshalPin p @ [CHR 0x0A]) =
      JValue (VMap [(''sourceCommit'', VStr (SourceCommit p)), (''image'', VStr (PinImage p))]) []"
    if "validateImagePin p = None" for p
  proof -
    have sha: "fullSHA (SourceCommit p)" and "validImageReference (PinImage p)"
      using that by (simp_all add: validate_pin_None)
    then obtain hex where ref: "PinImage p = imageRepository @ ''@'' @ ''sha256:'' @ hex" "list_all lower_hex hex"
      unfolding valid_reference digest_pattern by blast
    have "list_all any_hex (SourceCommit p)"
      using sha by (auto simp: fullSHA_def hex_decodes_def list_all_iff split: if_splits)
    then have commit: "list_all (\<lambda>c. json_char c = [c]) (SourceCommit p)" "CHR 0x22 \<notin> set (SourceCommit p)"
      using json_hex by (auto simp: list_all_iff)
    have "list_all (\<lambda>c. json_char c = [c] \<and> c \<noteq> CHR 0x22) (imageRepository @ ''@'' @ ''sha256:'')" by code_simp
    then have pin: "list_all (\<lambda>c. json_char c = [c]) (PinImage p)" "CHR 0x22 \<notin> set (PinImage p)"
      using ref json_hex lower_is_hex by (auto simp: list_all_iff)
    have keys: "json_literal ''sourceCommit'' = CHR 0x22 # ''sourceCommit'' @ [CHR 0x22]"
        "json_literal ''image'' = CHR 0x22 # ''image'' @ [CHR 0x22]"
      by code_simp+
    have printed: "marshalPin p @ [CHR 0x0A] =
        (''{'' @ [CHR 0x0A] @ ''  '') @ CHR 0x22 # ''sourceCommit'' @ CHR 0x22 # '': '' @ CHR 0x22 # SourceCommit p @
        CHR 0x22 # ('','' @ [CHR 0x0A] @ ''  '') @ CHR 0x22 # ''image'' @ CHR 0x22 # '': '' @ CHR 0x22 # PinImage p @
        CHR 0x22 # ([CHR 0x0A] @ ''}'' @ [CHR 0x0A])"
      by (simp add: marshalPin_def json_plain commit pin keys)
    have "quoted (marshalPin p @ [CHR 0x0A]) =
        [''{'' @ [CHR 0x0A] @ ''  '', ''sourceCommit'', '': '', SourceCommit p, '','' @ [CHR 0x0A] @ ''  '',
         ''image'', '': '', PinImage p, [CHR 0x0A] @ ''}'' @ [CHR 0x0A]]"
      unfolding printed
      by (simp add: quoted_split [OF commit(2)] quoted_split [OF pin(2)])
    then show ?thesis by (simp add: desk_tools_def read_pin_def marshalPin_def)
  qed
  moreover have "tc_NextJSON desk_tools [] = JEnd" by (simp add: desk_tools_def read_pin_def)
  ultimately show ?thesis unfolding reads_pins_def by blast
qed

text \<open>
  A child of the desk adds or changes files in the directory it is started in, and takes no answer.
\<close>

definition stays :: "path \<Rightarrow> fsys \<Rightarrow> fsys \<Rightarrow> bool" where
  "stays d fs fs' \<longleftrightarrow> changes_below {d} fs fs' \<and> fs_answers fs' = fs_answers fs \<and>
     (\<forall>q. node_at fs q \<noteq> None \<longrightarrow> node_at fs' q \<noteq> None)"

lemma stays_refl [simp]: "stays d fs fs"
  by (simp add: stays_def)

lemma stays_trans: "stays d fs fs' \<Longrightarrow> stays d fs' fs'' \<Longrightarrow> stays d fs fs''"
  by (auto simp: stays_def changes_below_def)

lemma stays_wider: "stays (d @ x) fs fs' \<Longrightarrow> stays d fs fs'"
  unfolding stays_def changes_below_def by (auto dest: append_prefixD)

lemma stays_set: "stays d fs (set_node (d @ x) n fs)"
proof -
  have "fs_answers (set_node (d @ x) n fs) = fs_answers fs" by (simp add: set_node_def)
  then show ?thesis by (auto simp: stays_def changes_below_def)
qed

lemma stays_put: "stays d g fs \<Longrightarrow> stays d g (put_node (d @ x) n fs)"
  using stays_trans [OF _ stays_set] by (simp add: put_node_def)

lemma check_out_stays: "stays d fs (check_out d fs)"
  unfolding check_out_def
  by (intro stays_put stays_put [of _ _ _ "[]", simplified] stays_refl)

lemma desk_exec_stays:
  assumes "desk_exec env dir name args fs = (out, fs')"
  shows "case dir of None \<Rightarrow> fs' = fs | Some d \<Rightarrow> stays d fs fs'"
  using assms check_out_stays stays_set
  by (auto simp: desk_exec_def sample_exec_def Let_def split: option.splits node.splits if_splits)

lemma desk_command_stays:
  "runCommand desk_tools (Some d) capture name args fs = (r, fs') \<Longrightarrow> stays d fs fs'"
  "generatorCommand desk_tools (Some d) capture name args fs = (r, fs') \<Longrightarrow> stays d fs fs'"
  "runCommand desk_tools None capture name args fs = (r, fs') \<Longrightarrow> fs' = fs"
  "generatorCommand desk_tools None capture name args fs = (r, fs') \<Longrightarrow> fs' = fs"
  using desk_exec_stays [of _ "Some d" name args fs] desk_exec_stays [of _ None name args fs]
  by (auto simp: runCommand_def generatorCommand_def runCommandEnv_def desk_tools_def
      split: prod.splits option.splits)

text \<open>So does every call of a run in a stage that exists.\<close>

definition within :: "path \<Rightarrow> fsys \<Rightarrow> fsys \<Rightarrow> bool" where
  "within stage g fs \<longleftrightarrow> quiet g \<longrightarrow> stays stage g fs \<and> (\<forall>p. prefix p stage \<longrightarrow> node_at fs p \<noteq> None)"

lemma within_stays: "stays stage fs fs' \<Longrightarrow> within stage g fs \<longrightarrow> within stage g fs'"
  using stays_trans [of stage g fs fs'] by (auto simp: within_def stays_def)

lemma stays_grown:
  assumes "fs_answers fs' = fs_answers fs" and "\<forall>p. prefix p stage \<longrightarrow> node_at fs p \<noteq> None"
    and "\<And>q. node_at fs' q = node_at fs q \<or> node_at fs q = None \<and> prefix q (stage @ x) \<or>
      prefix stage q \<and> (node_at fs q \<noteq> None \<longrightarrow> node_at fs' q \<noteq> None)"
  shows "stays stage fs fs'"
proof -
  have "node_at fs' q = node_at fs q" if "\<not> prefix stage q" for q
  proof -
    have "prefix q stage" if "prefix q (stage @ x)"
      using that \<open>\<not> prefix stage q\<close> by (metis prefix_append prefix_order.eq_iff prefixI)
    with assms(2) assms(3) [of q] that show ?thesis by blast
  qed
  moreover have "node_at fs' q \<noteq> None" if "node_at fs q \<noteq> None" for q using assms(3) [of q] that by metis
  ultimately show ?thesis using assms(1) by (simp add: stays_def changes_below_def)
qed

lemma answers_kept [simp]:
  "fs_answers (set_node p n fs) = fs_answers fs" "fs_answers (add_nodes pns fs) = fs_answers fs"
  "fs_answers (makeDirs ps fs) = fs_answers fs"
  by (simp_all add: set_node_def add_nodes_def) (induction ps arbitrary: fs; simp add: set_node_def)

lemma quiet_calls:
  assumes "quiet fs"
  shows "MkdirAll p fs = (e, fs') \<Longrightarrow> fs_answers fs' = fs_answers fs"
    and "WriteFile p data perm fs = (e, fs') \<Longrightarrow> fs_answers fs' = fs_answers fs"
    and "CopyFS p source fs = (e, fs') \<Longrightarrow> fs_answers fs' = fs_answers fs"
    and "ReadFile p fs = (d, fs') \<Longrightarrow> fs' = fs"
  using assms
  by (auto simp: MkdirAll_def WriteFile_def CopyFS_def ReadFile_def split: option.splits node.splits if_splits)

lemma within_quiet: "within stage g fs \<Longrightarrow> quiet g \<Longrightarrow> quiet fs \<and> (\<forall>p. prefix p stage \<longrightarrow> node_at fs p \<noteq> None)"
  by (simp add: within_def stays_def quiet_def)

lemma CopyFS_keeps: "CopyFS p source fs = (e, fs') \<Longrightarrow> node_at fs q \<noteq> None \<Longrightarrow> node_at fs' q \<noteq> None"
  by (auto simp: CopyFS_def node_add make_dirs split: prod.splits answer.splits if_splits option.splits)

lemma stays_calls:
  assumes "quiet fs \<and> (\<forall>p. prefix p stage \<longrightarrow> node_at fs p \<noteq> None)"
  shows "MkdirAll (stage @ x) fs = (e, fs') \<Longrightarrow> stays stage fs fs'"
    and "WriteFile (stage @ x) data perm fs = (e, fs') \<Longrightarrow> stays stage fs fs'"
    and "CopyFS (stage @ x) source fs = (e, fs') \<Longrightarrow> stays stage fs fs'"
proof -
  show "stays stage fs fs'" if call: "MkdirAll (stage @ x) fs = (e, fs')"
  proof (rule stays_grown)
    show "node_at fs' q = node_at fs q \<or> node_at fs q = None \<and> prefix q (stage @ x) \<or>
        prefix stage q \<and> (node_at fs q \<noteq> None \<longrightarrow> node_at fs' q \<noteq> None)" for q
      using MkdirAll_result(2) [OF call, of q] by blast
  qed (use quiet_calls(1) [OF _ call] assms in auto)
  show "stays stage fs fs'" if call: "WriteFile (stage @ x) data perm fs = (e, fs')"
  proof (rule stays_grown)
    have "node_at fs' (stage @ x) \<noteq> None" if "node_at fs (stage @ x) \<noteq> None"
      using call that assms by (auto simp: WriteFile_def split: option.splits node.splits if_splits)
    then show "node_at fs' q = node_at fs q \<or> node_at fs q = None \<and> prefix q (stage @ []) \<or>
        prefix stage q \<and> (node_at fs q \<noteq> None \<longrightarrow> node_at fs' q \<noteq> None)" for q
      using WriteFile_result(2) [OF call, of q] by (cases "q = stage @ x") auto
  qed (use quiet_calls(2) [OF _ call] assms in auto)
  show "stays stage fs fs'" if call: "CopyFS (stage @ x) source fs = (e, fs')"
  proof (rule stays_grown)
    show "node_at fs' q = node_at fs q \<or> node_at fs q = None \<and> prefix q (stage @ x) \<or>
        prefix stage q \<and> (node_at fs q \<noteq> None \<longrightarrow> node_at fs' q \<noteq> None)" for q
      using CopyFS_result(2) [OF call, of q] CopyFS_keeps [OF call, of q]
      by (cases "prefix (stage @ x) q") (auto dest: append_prefixD)
  qed (use quiet_calls(3) [OF _ call] assms in auto)
qed

lemma within_calls:
  "MkdirAll (stage @ x) fs = (e, fs') \<Longrightarrow> within stage g fs \<longrightarrow> within stage g fs'"
  "WriteFile (stage @ x) data perm fs = (e, fs') \<Longrightarrow> within stage g fs \<longrightarrow> within stage g fs'"
  "CopyFS (stage @ x) source fs = (e, fs') \<Longrightarrow> within stage g fs \<longrightarrow> within stage g fs'"
  "ReadFile p fs = (d, fs') \<Longrightarrow> within stage g fs \<longrightarrow> within stage g fs'"
  "runCommand desk_tools (Some (stage @ x)) capture name args fs = (r, fs') \<Longrightarrow> within stage g fs \<longrightarrow> within stage g fs'"
  "generatorCommand desk_tools (Some (stage @ x)) capture name args fs = (r, fs') \<Longrightarrow> within stage g fs \<longrightarrow> within stage g fs'"
  "runCommand desk_tools None capture name args fs = (r, fs') \<Longrightarrow> within stage g fs \<longrightarrow> within stage g fs'"
  "generatorCommand desk_tools None capture name args fs = (r, fs') \<Longrightarrow> within stage g fs \<longrightarrow> within stage g fs'"
  "tc_Symlink desk_tools old new fs = (e', fs') \<Longrightarrow> within stage g fs \<longrightarrow> within stage g fs'"
proof -
  have step: "within stage g fs \<longrightarrow> within stage g fs'"
    if "quiet fs \<and> (\<forall>p. prefix p stage \<longrightarrow> node_at fs p \<noteq> None) \<Longrightarrow> stays stage fs fs'"
  proof
    assume before: "within stage g fs"
    show "within stage g fs'"
    proof (cases "quiet g")
      case True
      from within_stays [OF that [OF within_quiet [OF before True]]] before show ?thesis by (rule mp)
    qed (simp add: within_def)
  qed
  show "MkdirAll (stage @ x) fs = (e, fs') \<Longrightarrow> within stage g fs \<longrightarrow> within stage g fs'"
    by (rule step, erule (1) stays_calls)
  show "WriteFile (stage @ x) data perm fs = (e, fs') \<Longrightarrow> within stage g fs \<longrightarrow> within stage g fs'"
    by (rule step, erule (1) stays_calls)
  show "CopyFS (stage @ x) source fs = (e, fs') \<Longrightarrow> within stage g fs \<longrightarrow> within stage g fs'"
    by (rule step, erule (1) stays_calls)
  show "ReadFile p fs = (d, fs') \<Longrightarrow> within stage g fs \<longrightarrow> within stage g fs'"
    by (rule step) (auto dest: quiet_calls(4))
  show "runCommand desk_tools (Some (stage @ x)) capture name args fs = (r, fs') \<Longrightarrow> within stage g fs \<longrightarrow> within stage g fs'"
    "generatorCommand desk_tools (Some (stage @ x)) capture name args fs = (r, fs') \<Longrightarrow> within stage g fs \<longrightarrow> within stage g fs'"
    by (rule within_stays, erule stays_wider [OF desk_command_stays(1)] stays_wider [OF desk_command_stays(2)])+
  show "runCommand desk_tools None capture name args fs = (r, fs') \<Longrightarrow> within stage g fs \<longrightarrow> within stage g fs'"
    "generatorCommand desk_tools None capture name args fs = (r, fs') \<Longrightarrow> within stage g fs \<longrightarrow> within stage g fs'"
    using desk_command_stays(3,4) by blast+
  show "tc_Symlink desk_tools old new fs = (e', fs') \<Longrightarrow> within stage g fs \<longrightarrow> within stage g fs'"
    by (simp add: desk_tools_def sample_tools_def)
qed

lemma desk_sourceCommit_same: "sourceCommit desk_tools ref checkout remote fs = (r, fs') \<Longrightarrow> fs' = fs"
  by (auto simp: sourceCommit_def Let_def split: sum.splits prod.splits if_splits dest!: desk_command_stays(3))

lemma desk_checkGeneratorGo_within:
  "checkGeneratorGo desk_tools (stage @ x) fs = (e, fs') \<Longrightarrow> within stage g fs \<longrightarrow> within stage g fs'"
  by (auto simp: checkGeneratorGo_def Let_def split: sum.splits prod.splits if_splits
      dest!: within_calls [where stage = stage and g = g])

lemma desk_renderInstaller_within:
  "renderInstaller desk_tools source stage (stage @ x) kustomize ref fs = (e, fs') \<Longrightarrow>
     within stage g fs \<longrightarrow> within stage g fs'"
  by (auto simp: renderInstaller_def Let_def split: sum.splits option.splits prod.splits if_splits
      dest!: within_calls [where stage = stage and g = g])

lemma desk_generate_within:
  "generate desk_tools commit ref stage fs = (r, fs') \<Longrightarrow> within stage g fs \<longrightarrow> within stage g fs'"
  by (auto simp: generate_def copyTree_def Let_def split: sum.splits option.splits prod.splits if_splits
      dest!: within_calls [where stage = stage and g = g] within_calls(1) [of stage "[]", simplified]
        desk_sourceCommit_same desk_checkGeneratorGo_within [where stage = stage and g = g]
        desk_renderInstaller_within [where stage = stage and g = g])

text \<open>What the children of the desk print and change.\<close>

lemma desk_children_print:
  "runCommand desk_tools (Some d) True ''go'' [''list'', ''-m'', ''-json'', fork @ ''@'' @ query] fs = (Inr ''info'', fs)"
  "runCommand desk_tools (Some d) False ''git'' [''-C'', p, ''checkout'', ''--detach'', ''FETCH_HEAD''] fs = (Inr [], check_out d fs)"
  "runCommand desk_tools (Some d) True ''git'' [''-C'', p, ''rev-parse'', ''HEAD''] fs = (Inr (sample_commit @ [CHR 0x0A]), fs)"
  "generatorCommand desk_tools (Some d) True ''go'' [''env'', ''GOVERSION''] fs = (Inr ''go1.24.0'', fs)"
  "generatorCommand desk_tools (Some d) True (path_text k) [''build'', path_text o'] fs = (Inr ''kind: List'', fs)"
  by (simp_all add: runCommand_def generatorCommand_def runCommandEnv_def desk_tools_def desk_exec_def fork_def path_text_def)

lemma desk_moduleVersion: "moduleVersion desk_tools query d fs = (Inr (''v1.2.0'', sample_commit), fs)"
proof -
  have "moduleInfo desk_tools ''info'' = Inr (''v1.2.0'', sample_commit)" by code_simp
  then show ?thesis unfolding moduleVersion_def desk_children_print by simp
qed

lemma desk_immutable: "immutable_versions desk_tools"
  by (simp add: immutable_versions_def desk_moduleVersion)

lemma desk_confined: "confined desk_tools {}"
proof -
  have "changes_below {stage} fs fs' \<and> quiet fs'"
    if "generate desk_tools commit ref stage fs = (r, fs')" "rooted fs" "isDirectory fs stage" "quiet fs"
    for commit ref stage fs r fs'
  proof -
    have "node_at fs p \<noteq> None" if p: "prefix p stage" for p
      using \<open>rooted fs\<close> \<open>isDirectory fs stage\<close> p by (auto simp: rooted_def isDirectory_def elim!: prefixE)
    then have "within stage fs fs" by (simp add: within_def)
    with desk_generate_within [OF that(1)] have "within stage fs fs'" by blast
    with that(4) show ?thesis by (simp add: within_def stays_def quiet_def)
  qed
  then show ?thesis
    by (auto simp: confined_def desk_moduleVersion dest: desk_sourceCommit_same)
qed

lemma desk_prints: "prints_module desk_tools root"
proof -
  have "runCommand desk_tools (Some root) True ''go'' [''mod'', ''edit'', ''-json''] fs =
      (case node_at fs (root @ [''go.mod'']) of
         Some (Regular data m) \<Rightarrow> (Inr data, fs)
       | _ \<Rightarrow> (Inl (Wrapped ''go mod edit -json: '' ENOENT), fs))" for fs
    by (simp add: runCommand_def runCommandEnv_def desk_tools_def desk_exec_def sample_exec_def TrimSpace_def
        split: option.split node.split)
  then show ?thesis by (auto simp: prints_module_def split: option.splits node.splits)
qed

lemma desk_staged_config:
  assumes "fresh fs stage" and "MkdirAll stage fs = (None, f1)"
    and "node_at h = node_at (check_out (stage @ [''source'']) f1)"
    and "CopyFS (stage @ [''config'']) (stage @ [''source'', ''config'']) h = (None, f2)"
  shows "isDirectory f2 (stage @ [''config''])" and "content f2 (stage @ [''config'']) = [[''a.yaml''] \<mapsto> ''a'']"
    and "node_at f2 (stage @ [''installer.yaml'']) = None"
proof -
  have fresh1: "node_at f1 (stage @ x # q) = None" for x q
    using assms(1) MkdirAll_result(2) [OF assms(2), of "stage @ x # q"] by (auto simp: fresh_def)
  have "isDirectory f1 stage"
    using assms(2)
    by (auto simp: MkdirAll_def isDirectory_def make_dirs list_all_iff dest: bspec [of _ _ stage]
        split: prod.splits answer.splits if_splits)
  then have at: "node_at h (stage @ x # q) =
      (if x # q = [''source'', ''go.mod''] then Some (Regular ''go 1.24.0'' 0x1A4)
       else if x # q = [''source'', ''config'', ''a.yaml''] then Some (Regular ''a'' 0x1A4)
       else if x # q \<in> {[''source''], [''source'', ''config'']} then Some Directory else None)" for x q
    unfolding assms(3) by (auto simp: check_out_def put_node_def filepath_Dir_def butlast_append fresh1 isDirectory_def)
  have "tree h (stage @ [''config'']) = no_tree"
    by (simp add: tree_def no_tree_def at fun_eq_iff)
  from CopyFS_result(3) [OF assms(4) refl this]
  have copied: "tree f2 (stage @ [''config'']) q = map_option (copied_node (fs_umask h))
      (node_at h (stage @ ''source'' # ''config'' # q))" for q
    by (simp add: tree_def)
  show "isDirectory f2 (stage @ [''config''])"
    using copied [of "[]"] by (simp add: tree_def at isDirectory_def copied_node_def)
  show "content f2 (stage @ [''config'']) = [[''a.yaml''] \<mapsto> ''a'']"
    by (auto simp: content_def copied at fun_eq_iff)
      (simp_all add: file_data_def)
  show "node_at f2 (stage @ [''installer.yaml'']) = None"
    using CopyFS_result(2) [OF assms(4), of "stage @ [''installer.yaml'']"] by (simp add: at)
qed

lemma generate_run:
  assumes "generate T commit ref stage fs = (Inr (c, i), fs')"
  obtains f1 resolved f2 out1 f3 out2 f4 f5 out3 f6 f7 where
    "MkdirAll stage fs = (None, f1)" "sourceCommit T commit (stage @ [''source'']) repo f1 = (Inr resolved, f2)"
    "runCommand T (Some (stage @ [''source''])) False ''git''
       [''-C'', path_text (stage @ [''source'']), ''checkout'', ''--detach'', ''FETCH_HEAD''] f2 = (Inr out1, f3)"
    "runCommand T (Some (stage @ [''source''])) True ''git''
       [''-C'', path_text (stage @ [''source'']), ''rev-parse'', ''HEAD''] f3 = (Inr out2, f4)"
    "checkGeneratorGo T (stage @ [''source'']) f4 = (None, f5)"
    "generatorCommand T None False ''make'' (generatorMakeArgs (stage @ [''source''])) f5 = (Inr out3, f6)"
    "CopyFS (stage @ [''config'']) (stage @ [''source'', ''config'']) f6 = (None, f7)"
    "renderInstaller T (stage @ [''source'']) stage (stage @ [''installer.yaml'']) (stage @ [''source'', ''bin'', ''kustomize'']) ref f7
       = (None, fs')"
    "c = stage @ [''config'']" "i = stage @ [''installer.yaml'']"
  using assms
  by (auto simp: generate_def copyTree_def Let_def split: sum.splits option.splits prod.splits if_splits)

lemma desk_checked: "checkGeneratorGo desk_tools source fs = (None, fs') \<Longrightarrow> node_at fs' = node_at fs"
  by (auto simp: checkGeneratorGo_def Let_def desk_children_print split: sum.splits prod.splits if_splits
      dest!: ReadFile_result(1))

lemma desk_rendered:
  assumes "renderInstaller desk_tools source stage (stage @ [''installer.yaml'']) kustomize ref fs = (None, fs')"
    and "node_at fs (stage @ [''installer.yaml'']) = None"
  shows "tree fs' (stage @ [''config'']) = tree fs (stage @ [''config''])"
    and "content fs' (stage @ [''installer.yaml'']) [] = Some ''kind: List''"
proof -
  let ?overlay = "stage @ [''installer-overlay'']"
  obtain f1 f2 f3 r where made: "MkdirAll ?overlay fs = (None, f1)"
    and kust: "WriteFile (?overlay @ [''kustomization.yaml''])
        (''resources:'' @ [CHR 0x0A] @ ''- base'' @ [CHR 0x0A]) 0x1A4 f1 = (None, f2)"
    and edit: "generatorCommand desk_tools (Some ?overlay) True (path_text kustomize)
        [''edit'', ''set'', ''image'', ''controller='' @ ref] f2 = (r, f3)"
    and inst: "WriteFile (stage @ [''installer.yaml'']) ''kind: List'' 0x1A4 f3 = (None, fs')"
    using assms(1)
    by (auto simp: renderInstaller_def Let_def desk_children_print desk_tools_def [THEN arg_cong [of _ _ tc_Symlink]]
        sample_tools_def split: sum.splits option.splits prod.splits if_splits)
  have "node_at f3 p = node_at f2 p" if "\<not> prefix ?overlay p" for p
    using desk_command_stays(2) [OF edit] that by (simp add: stays_def changes_below_def)
  then have same: "node_at f3 (stage @ x # q) = node_at fs (stage @ x # q)" if "x \<noteq> ''installer-overlay''" for x q
    using that MkdirAll_result(2) [OF made, of "stage @ x # q"] WriteFile_result(2) [OF kust, of "stage @ x # q"]
    by auto
  then have "node_at fs' (stage @ ''config'' # q) = node_at fs (stage @ ''config'' # q)" for q
    using WriteFile_result(2) [OF inst, of "stage @ ''config'' # q"] by simp
  then show "tree fs' (stage @ [''config'']) = tree fs (stage @ [''config''])"
    by (simp add: tree_def fun_eq_iff)
  show "content fs' (stage @ [''installer.yaml'']) [] = Some ''kind: List''"
    using WriteFile_writes [OF inst] by (simp add: content_node)
qed

lemma desk_reproducible: "reproducible desk_tools"
proof -
  have "isDirectory fs' c \<and> content fs' c = [[''a.yaml''] \<mapsto> ''a''] \<and> content fs' i [] = Some ''kind: List''"
    if new: "fresh fs stage" and gen: "generate desk_tools commit ref stage fs = (Inr (c, i), fs')"
    for stage fs c i fs' commit ref
  proof -
    obtain f1 resolved f2 out1 f3 out2 f4 f5 out3 f6 f7 where made: "MkdirAll stage fs = (None, f1)"
      and source: "sourceCommit desk_tools commit (stage @ [''source'']) repo f1 = (Inr resolved, f2)"
      and git: "runCommand desk_tools (Some (stage @ [''source''])) False ''git''
         [''-C'', path_text (stage @ [''source'']), ''checkout'', ''--detach'', ''FETCH_HEAD''] f2 = (Inr out1, f3)"
        "runCommand desk_tools (Some (stage @ [''source''])) True ''git''
         [''-C'', path_text (stage @ [''source'']), ''rev-parse'', ''HEAD''] f3 = (Inr out2, f4)"
      and checked: "checkGeneratorGo desk_tools (stage @ [''source'']) f4 = (None, f5)"
      and make: "generatorCommand desk_tools None False ''make'' (generatorMakeArgs (stage @ [''source''])) f5 = (Inr out3, f6)"
      and copied: "CopyFS (stage @ [''config'']) (stage @ [''source'', ''config'']) f6 = (None, f7)"
      and rendered: "renderInstaller desk_tools (stage @ [''source'']) stage (stage @ [''installer.yaml''])
         (stage @ [''source'', ''bin'', ''kustomize'']) ref f7 = (None, fs')"
      and ci: "c = stage @ [''config'']" "i = stage @ [''installer.yaml'']"
      by (rule generate_run [OF gen])
    have "f4 = check_out (stage @ [''source'']) f2" using git by (simp add: desk_children_print del: append.simps)
    then have "node_at f6 = node_at (check_out (stage @ [''source'']) f1)"
      using desk_checked [OF checked] desk_sourceCommit_same [OF source] desk_command_stays(4) [OF make] by simp
    note config = desk_staged_config [OF new made this copied]
    note render = desk_rendered [OF rendered config(3)]
    have "content fs' c = [[''a.yaml''] \<mapsto> ''a'']" using config(2) render(1) by (simp add: content_def ci fun_eq_iff)
    moreover have "isDirectory fs' c"
      using config(1) fun_cong [OF render(1), of "[]"] by (simp add: tree_def isDirectory_def ci)
    ultimately show ?thesis using render(2) ci by simp
  qed
  then show ?thesis unfolding reproducible_def by blast
qed

lemma desk_reliable: "reliable desk_tools {} root"
  unfolding reliable_def
  using desk_children desk_go desk_confined desk_reproducible desk_immutable desk_prints desk_reads_pins by blast

lemma desk_update_kept:
  assumes "update desk_tools sample_registry (Some [''run'', ''out'']) [''repo''] ''main'' (desk, ()) = (None, fs', ())"
  shows "rooted fs'" and "quiet fs'"
    and "node_at fs' [''repo'', ''internal'', ''controller'', ''resources'', ''go.mod''] = None"
proof -
  obtain f0 stage f1 commit f2 version f3 selectedImage c i f4 f5 f6 where
    run: "validateRef desk_tools ''main'' desk = (None, f0)" "MkdirTemp (tc_TempDir desk_tools) ''operand-update-'' f0 = (Inr stage, f1)"
      "sourceCommit desk_tools ''main'' (stage @ [''resolve'']) repo f1 = (Inr commit, f2)"
      "moduleVersion desk_tools commit stage f2 = (Inr (version, commit), f3)"
      "resolveOperandImage sample_registry commit () = (Inr selectedImage, ())"
    and gen: "generate desk_tools commit selectedImage (stage @ [''generated'']) f3 = (Inr (c, i), f4)"
    and pin: "writeImagePin (stage @ [''generated'', ''operand-image.json''])
       \<lparr>SourceCommit = commit, PinImage = selectedImage\<rparr> f4 = (None, f5)"
    and app: "applyUpdate desk_tools (Some [''run'', ''out'']) [''repo''] version commit selectedImage c i
       (stage @ [''generated'', ''operand-image.json'']) f5 = (None, f6)"
    and fs': "fs' = snd (RemoveAll stage f6)"
    by (rule update_run [OF assms])
  have stage: "stage = [''tmp'', ''operand-update-'']" "f1 = desk_updating" using run(1,2) by (simp_all add: desk_update_commands)
  have "commit = sample_commit" "version = ''v1.2.0''" "f3 = desk_updating"
    using run(3,4) desk_update_commands(3) desk_sourceCommit_same [OF run(3)] by (simp_all add: stage desk_moduleVersion)
  moreover from this have "selectedImage = PinImage desk_pin"
    using run(5) by (simp add: resolveOperandImage_def sample_resolved desk_pin_def del: append.simps)
  moreover have "\<lparr>SourceCommit = sample_commit, PinImage = PinImage desk_pin\<rparr> = desk_pin" by (simp add: desk_pin_def)
  ultimately have "in_order fs'" using desk_published gen pin app fs' by (simp add: stage)
  then show "rooted fs'" "quiet fs'"
    "node_at fs' [''repo'', ''internal'', ''controller'', ''resources'', ''go.mod''] = None"
    by (simp_all add: in_order_def rooted_files quiet_def)
qed

section \<open>Properties\<close>

text \<open>
  C13: The two commands agree. After an update that reported no error, the pinned version, the
  record of the image and the committed files are such that the command verify finds no fault of its own in
  them: it comes down to the four calls that print go.mod, make a stage, resolve the version and
  generate, and reports an error only if one of them does.
\<close>

theorem verify_follows_update:
  assumes "rooted fs" and "reliable T caches root" and "update_layout caches out root {tc_TempDir T}"
    and "update T R out root ref (fs, w) = (None, fs', w')" and "rooted fs'" and "quiet fs'"
  shows "\<exists>version commit selectedImage. resolveOperandImage R commit w = (Inr selectedImage, w') \<and>
    verify T root fs' = rerun T root version commit selectedImage fs'"
proof -
  obtain version commit selectedImage where "resolveOperandImage R commit w = (Inr selectedImage, w')"
    and "in_step T root version commit selectedImage fs'"
    by (rule update_in_step [OF assms(1-4)])
  with verify_reruns [OF assms(2,3) _ assms(5,6)] show ?thesis by blast
qed

theorem verify_follows_update_witness:
  "\<exists>fs' version commit selectedImage.
     update desk_tools sample_registry (Some [''run'', ''out'']) [''repo''] ''main'' (desk, ()) = (None, fs', ()) \<and>
     resolveOperandImage sample_registry commit () = (Inr selectedImage, ()) \<and>
     verify desk_tools [''repo''] fs' = rerun desk_tools [''repo''] version commit selectedImage fs'"
proof -
  obtain fs' where run: "update desk_tools sample_registry (Some [''run'', ''out'']) [''repo''] ''main'' (desk, ()) = (None, fs', ())"
    using desk_updated by blast
  from verify_follows_update [OF desk_rooted desk_reliable desk_layout run desk_update_kept(1,2) [OF run]] run
  show ?thesis by blast
qed

end
