(* ===== verification/Operator_Main.thy ===== *)
theory Operator_Main
  imports Reconciler
begin

text \<open>
  src/cmd/main.go: the transform of cached CRDs, the cache the manager is given, and the start of
  the operator, from the registration of the schemes to the run of the manager. The environment,
  the command line, the Kubernetes clients, the manager and the watcher of the TLS profile are
  the record \<open>host\<close> of parameters. The outcome of a start is an \<open>ending\<close>; what was handed to the
  manager before it ran is the record \<open>operator_setup\<close>.
\<close>

section \<open>The cache\<close>

text \<open>
  Of a CRD, what the transform and the watches read or change: its metadata, the managed fields
  and the versions with their schemas. Every other cached object is opaque.
\<close>

record crd_version =
  ver_name :: string
  ver_served :: bool
  ver_storage :: bool
  ver_schema :: "gval option"

record crd_object =
  crd_meta :: object_meta
  crd_managed :: "gval list"
  crd_versions :: "crd_version list"

datatype cached_object = CRD crd_object | OtherObject object_meta "gval list"

fun cached_meta :: "cached_object \<Rightarrow> object_meta" where
  "cached_meta (CRD crd) = crd_meta crd"
| "cached_meta (OtherObject m managed) = m"

type_synonym transform = "cached_object \<Rightarrow> cached_object \<times> gerror option"

definition stripCRDSchema :: "transform \<Rightarrow> transform" where
  "stripCRDSchema stripManagedFields obj =
     (case stripManagedFields obj of
        (obj, Some err) \<Rightarrow> (obj, Some err)
      | (obj, None) \<Rightarrow>
          (case obj of
             CRD crd \<Rightarrow>
               (CRD (crd\<lparr>crd_versions := map (\<lambda>v. v\<lparr>ver_schema := None\<rparr>) (crd_versions crd)\<rparr>), None)
           | OtherObject m managed \<Rightarrow> (obj, None)))"

type_synonym label_selector = "(string \<times> string) list"

record by_object =
  bo_Label :: "label_selector option"
  bo_Transform :: "transform option"

record cache_options =
  co_DefaultNamespaces :: "string list"
  co_DefaultTransform :: transform
  co_ByObject :: "(string \<times> by_object) list"

definition managedSelector :: label_selector where
  "managedSelector = [(PlatformPartOf, MCPLifecycleOperatorServiceName)]"

definition cacheOptions :: "transform \<Rightarrow> string \<Rightarrow> cache_options" where
  "cacheOptions stripManagedFields podNamespace =
     \<lparr>co_DefaultNamespaces = [podNamespace],
      co_DefaultTransform = stripManagedFields,
      co_ByObject =
        [(MCPLifecycleOperatorKind, \<lparr>bo_Label = None, bo_Transform = None\<rparr>),
         (''ClusterRole'', \<lparr>bo_Label = Some managedSelector, bo_Transform = None\<rparr>),
         (''ClusterRoleBinding'', \<lparr>bo_Label = Some managedSelector, bo_Transform = None\<rparr>),
         (''CustomResourceDefinition'',
           \<lparr>bo_Label = None, bo_Transform = Some (stripCRDSchema stripManagedFields)\<rparr>)]\<rparr>"

section \<open>Starting the operator\<close>

record flag_vars =
  fl_probeAddr :: string
  fl_enableLeaderElection :: bool


record 'f manager_options =
  mg_Metrics :: "'f metrics_options"
  mg_HealthProbeBindAddress :: string
  mg_LeaderElection :: bool
  mg_LeaderElectionID :: string
  mg_Cache :: cache_options

record 'w profile_watcher =
  wa_InitialTLSProfileSpec :: tls_profile_spec
  wa_InitialTLSAdherencePolicy :: string
  wa_OnProfileChange :: "tls_profile_spec \<Rightarrow> tls_profile_spec \<Rightarrow> 'w \<Rightarrow> 'w"
  wa_OnAdherencePolicyChange :: "string \<Rightarrow> string \<Rightarrow> 'w \<Rightarrow> 'w"

record ('w, 'f) operator_setup =
  os_options :: "'f manager_options"
  os_reconciler :: reconciler
  os_watcher :: "'w profile_watcher option"

text \<open>
  A start ends by a rejected command line, a panic of a Must or OrDie function, \<open>os.Exit(1)\<close> after
  a message and an error, if there is one, were logged, or by the return of main.
\<close>

datatype ending = FlagsRejected | Panicked gerror | Exit1 string "gerror option" | Returned

record ('w, 'f) host =
  h_AddToScheme :: "string \<Rightarrow> 'w \<Rightarrow> gerror option \<times> 'w"
  h_Parse :: "flag_vars \<Rightarrow> flag_vars option"
  h_Getenv :: "string \<Rightarrow> string"
  h_GetConfig :: "'w \<Rightarrow> gerror option \<times> 'w"
  h_metrics :: "'f metrics_api"
  h_tls :: "'w tls_api"
  h_backoff :: "'w retry_state backoff"
  h_stripManagedFields :: transform
  h_NewManager :: "'f manager_options \<Rightarrow> 'w \<Rightarrow> gerror option \<times> 'w"
  h_NewDynamicClient :: "'w \<Rightarrow> gerror option \<times> 'w"
  h_NewDiscoveryClient :: "'w \<Rightarrow> gerror option \<times> 'w"
  h_ResourcesFS :: "string \<Rightarrow> go_bytes result"
  h_decoder :: "go_bytes \<Rightarrow> gmap option list \<times> gerror option"
  h_RESTMapping :: "string \<times> string \<Rightarrow> unit result"
  h_Build :: "(string \<times> (object_meta \<Rightarrow> bool)) list \<Rightarrow> gerror option"
  h_AddHealthzCheck :: "string \<Rightarrow> 'w \<Rightarrow> gerror option \<times> 'w"
  h_AddReadyzCheck :: "string \<Rightarrow> 'w \<Rightarrow> gerror option \<times> 'w"
  h_SetupWatcher :: "'w profile_watcher \<Rightarrow> 'w \<Rightarrow> gerror option \<times> 'w"
  h_cancel :: "'w \<Rightarrow> 'w"
  h_Start :: "('w, 'f) operator_setup \<Rightarrow> 'w \<Rightarrow> gerror option \<times> 'w"

text \<open>A call whose error ends the process, in the way the second argument says.\<close>

definition dying ::
    "gerror option \<times> 'w \<Rightarrow> (gerror \<Rightarrow> ending) \<Rightarrow> ('w \<Rightarrow> (ending + 'a) \<times> 'w) \<Rightarrow> (ending + 'a) \<times> 'w" where
  "dying call die continue =
     (case call of (Some err, w) \<Rightarrow> (Inl (die err), w) | (None, w) \<Rightarrow> continue w)"

definition exit1 :: "string \<Rightarrow> gerror \<Rightarrow> ending" where
  "exit1 message err = Exit1 message (Some err)"



text \<open>NewKustomizeProvider of internal/manifests.\<close>

definition NewKustomizeProvider ::
    "(string \<Rightarrow> go_bytes result) \<Rightarrow> (go_bytes \<Rightarrow> gmap option list \<times> gerror option) \<Rightarrow> kustomize_provider" where
  "NewKustomizeProvider fsys decoder = \<lparr>p_fs = fsys, p_decoder = decoder\<rparr>"

definition managerOptions ::
    "('w, 'f) host \<Rightarrow> flag_vars \<Rightarrow> 'f metrics_options \<Rightarrow> string \<Rightarrow> 'f manager_options" where
  "managerOptions H flags metricsOptions podNamespace =
     \<lparr>mg_Metrics = metricsOptions,
      mg_HealthProbeBindAddress = fl_probeAddr flags,
      mg_LeaderElection = fl_enableLeaderElection flags,
      mg_LeaderElectionID = ''mcp-lifecycle-module-operator-leader'',
      mg_Cache = cacheOptions (h_stripManagedFields H) podNamespace\<rparr>"

text \<open>
  The reconciler's fields. Its Deployer, clients and informer factory are not fields of the model
  but for the presence of the factory, which the registration of the gateway watches tests.
\<close>

definition newReconciler :: "('w, 'f) host \<Rightarrow> string \<Rightarrow> string \<Rightarrow> string \<Rightarrow> reconciler" where
  "newReconciler H operatorVersion podNamespace operandImage =
     \<lparr>r_ManifestProvider = NewKustomizeProvider (h_ResourcesFS H) (h_decoder H),
      r_OperatorVersion = operatorVersion,
      r_PodNamespace = podNamespace,
      r_OperandImage = operandImage,
      r_watches = \<lparr>gw_controller = False, gw_informers = True,
        gw_extension_once = False, gw_gateway_once = False\<rparr>\<rparr>"

definition profileWatcher :: "('w, 'f) host \<Rightarrow> resolved_tls \<Rightarrow> 'w profile_watcher" where
  "profileWatcher H tlsConfig =
     \<lparr>wa_InitialTLSProfileSpec = rt_ProfileSpec tlsConfig,
      wa_InitialTLSAdherencePolicy = rt_Adherence tlsConfig,
      wa_OnProfileChange = (\<lambda>_ _. h_cancel H),
      wa_OnAdherencePolicyChange = (\<lambda>_ _. h_cancel H)\<rparr>"

text \<open>From the manager on: the reconciler, the checks and the watcher, lines 164 to 237.\<close>

definition setupWatcher ::
    "('w, 'f) host \<Rightarrow> resolved_tls \<Rightarrow> 'w \<Rightarrow> (ending + 'w profile_watcher option) \<times> 'w" where
  "setupWatcher H tlsConfig w =
     (if rt_APIAvailable tlsConfig then
        dying (h_SetupWatcher H (profileWatcher H tlsConfig) w)
          (exit1 ''unable to set up TLS profile watcher'')
          (\<lambda>w. (Inr (Some (profileWatcher H tlsConfig)), w))
      else (Inr None, w))"

definition setupChecks :: "('w, 'f) host \<Rightarrow> 'w \<Rightarrow> (ending + unit) \<times> 'w" where
  "setupChecks H w =
     dying (h_AddHealthzCheck H ''healthz'' w) (exit1 ''unable to set up health check'') (\<lambda>w.
     dying (h_AddReadyzCheck H ''readyz'' w) (exit1 ''unable to set up ready check'') (\<lambda>w.
     (Inr (), w)))"

definition setupReconciler ::
    "('w, 'f) host \<Rightarrow> string \<Rightarrow> 'w \<Rightarrow> (ending + reconciler) \<times> 'w" where
  "setupReconciler H podNamespace w =
     dying (h_NewDynamicClient H w) Panicked (\<lambda>w.
     dying (h_NewDiscoveryClient H w) Panicked (\<lambda>w.
     let operatorVersion = h_Getenv H ''OPERATOR_VERSION'' in
     if operatorVersion = [] then (Inl (Exit1 ''missing required environment variable'' None), w)
     else
       let operandImage = h_Getenv H ''RELATED_IMAGE_ODH_MCP_LIFECYCLE_OPERATOR_IMAGE'';
           (err, r) = SetupWithManager (isOpenShiftCluster (h_RESTMapping H)) (h_Build H)
                        (newReconciler H operatorVersion podNamespace operandImage)
       in dying (err, w) (exit1 ''unable to create controller'') (\<lambda>w. (Inr r, w))))"

text \<open>Up to the manager, lines 117 to 162, then the rest.\<close>

definition setupOperator ::
    "('w, 'f) host \<Rightarrow> flag_vars \<Rightarrow> 'w \<Rightarrow> (ending + ('w, 'f) operator_setup) \<times> 'w" where
  "setupOperator H flags w =
     (let podNamespace = h_Getenv H ''SYSTEM_NAMESPACE'' in
      if podNamespace = [] then (Inl (Exit1 ''missing required environment variable'' None), w)
      else
        dying (h_GetConfig H w) (\<lambda>err. Exit1 ''unable to get kubeconfig'' (Some err)) (\<lambda>w.
        case MetricsOptionsWithTLSConfig (h_metrics H) (h_tls H) (h_backoff H) w of
          (Inl err, w) \<Rightarrow> (Inl (exit1 ''unable to resolve metrics TLS options'' err), w)
        | (Inr (metricsOptions, tlsConfig), w) \<Rightarrow>
            let options = managerOptions H flags metricsOptions podNamespace in
            dying (h_NewManager H options w) (exit1 ''unable to start manager'') (\<lambda>w.
            case setupReconciler H podNamespace w of
              (Inl e, w) \<Rightarrow> (Inl e, w)
            | (Inr r, w) \<Rightarrow>
                (case setupChecks H w of
                   (Inl e, w) \<Rightarrow> (Inl e, w)
                 | (Inr u, w) \<Rightarrow>
                     (case setupWatcher H tlsConfig w of
                        (Inl e, w) \<Rightarrow> (Inl e, w)
                      | (Inr watcher, w) \<Rightarrow>
                          (Inr \<lparr>os_options = options, os_reconciler = r, os_watcher = watcher\<rparr>, w))))))"



section \<open>What the cache holds\<close>

text \<open>
  The documented behaviour of controller-runtime's cache, as far as the options above use it: an
  object of a namespaced kind is held when its namespace is one of the default namespaces, an
  object of a kind with a label selector when it matches it; a kind's own transform replaces the
  default one. The scope of the watched kinds is Kubernetes'.
\<close>

definition cluster_scoped :: "string list" where
  "cluster_scoped =
     [MCPLifecycleOperatorKind, ''ClusterRole'', ''ClusterRoleBinding'', ''CustomResourceDefinition'', ''APIServer'']"

definition in_scope :: "string list \<Rightarrow> string \<Rightarrow> object_meta \<Rightarrow> bool" where
  "in_scope namespaces kind obj \<longleftrightarrow> kind \<in> set cluster_scoped \<or> om_namespace obj \<in> set namespaces"

definition own_selector :: "cache_options \<Rightarrow> string \<Rightarrow> label_selector" where
  "own_selector opts kind =
     (case map_of (co_ByObject opts) kind of
        Some b \<Rightarrow> (case bo_Label b of Some sel \<Rightarrow> sel | None \<Rightarrow> []) | None \<Rightarrow> [])"

definition own_transform :: "cache_options \<Rightarrow> string \<Rightarrow> transform" where
  "own_transform opts kind =
     (case map_of (co_ByObject opts) kind of
        Some b \<Rightarrow> (case bo_Transform b of Some t \<Rightarrow> t | None \<Rightarrow> co_DefaultTransform opts)
      | None \<Rightarrow> co_DefaultTransform opts)"

definition selects :: "label_selector \<Rightarrow> object_meta \<Rightarrow> bool" where
  "selects sel obj \<longleftrightarrow> list_all (\<lambda>(k, v). map_of (om_labels obj) k = Some v) sel"

locale informer_cache =
  fixes holds :: "cache_options \<Rightarrow> string \<Rightarrow> object_meta \<Rightarrow> bool"
    and stored :: "cache_options \<Rightarrow> string \<Rightarrow> transform"
  assumes holds_iff: "co_DefaultNamespaces opts \<noteq> [] \<Longrightarrow>
      holds opts kind obj \<longleftrightarrow>
        in_scope (co_DefaultNamespaces opts) kind obj \<and> selects (own_selector opts kind) obj"
    and stored_by: "stored opts kind x = own_transform opts kind x"
begin

lemma operator_cache:
  "holds (cacheOptions strip ns) kind obj \<longleftrightarrow>
     in_scope [ns] kind obj \<and>
     (kind = ''ClusterRole'' \<or> kind = ''ClusterRoleBinding'' \<longrightarrow> managedPredicate obj)"
  by (auto simp: holds_iff cacheOptions_def own_selector_def selects_def managedSelector_def
      managed_label MCPLifecycleOperatorKind_def)

lemma watched_held:
  assumes "requestsFor r openShift kind obj \<noteq> []" and "in_scope [r_PodNamespace r] kind obj"
  shows "holds (cacheOptions strip (r_PodNamespace r)) kind obj"
  using assms unfolding operator_cache requests_watching watching_kinds
  by (auto split: if_splits)

lemma held_watched:
  assumes "holds (cacheOptions strip (r_PodNamespace r)) kind obj"
    and "kind = ''ClusterRole'' \<or> kind = ''ClusterRoleBinding''"
  shows "requestsFor r openShift kind obj \<noteq> []"
  using assms unfolding operator_cache requests_watching watching_kinds
  by (auto simp: labelled_kinds_def)

lemma operator_transform:
  "stored (cacheOptions strip ns) kind =
     (if kind = ''CustomResourceDefinition'' then stripCRDSchema strip else strip)"
  by (rule ext) (simp add: stored_by own_transform_def cacheOptions_def MCPLifecycleOperatorKind_def)

end

text \<open>The contract read as a definition: a cache that does what the laws say.\<close>

definition literal_holds :: "cache_options \<Rightarrow> string \<Rightarrow> object_meta \<Rightarrow> bool" where
  "literal_holds opts kind obj \<longleftrightarrow>
     in_scope (co_DefaultNamespaces opts) kind obj \<and> selects (own_selector opts kind) obj"

interpretation literal_cache: informer_cache literal_holds own_transform
  by unfold_locales (simp_all add: literal_holds_def)

text \<open>\<open>TransformStripManagedFields\<close> empties the managed fields and leaves the rest.\<close>

fun drop_managed :: transform where
  "drop_managed (CRD crd) = (CRD (crd\<lparr>crd_managed := []\<rparr>), None)"
| "drop_managed (OtherObject m managed) = (OtherObject m [], None)"

section \<open>What a started operator is\<close>







lemma setup_start [simp]: "setupOperator (H\<lparr>h_Start := start\<rparr>) flags w = setupOperator H flags w"
  by (simp add: setupOperator_def setupReconciler_def setupChecks_def setupWatcher_def
      managerOptions_def newReconciler_def profileWatcher_def Let_def
      cong: if_cong sum.case_cong prod.case_cong)

section \<open>Properties\<close>

definition recorded :: "string \<Rightarrow> string list \<Rightarrow> gerror option \<times> string list" where
  "recorded name calls = (None, calls @ [name])"

definition sample_host :: "(string go_map) \<Rightarrow> (string list, unit) host" where
  "sample_host env = \<lparr>
     h_AddToScheme = (\<lambda>g. recorded ''scheme''),
     h_Parse = Some,
     h_Getenv = data_at env,
     h_GetConfig = recorded ''config'',
     h_metrics = \<lparr>m_Install = None, m_NewClient = None,
       m_ConfigFromProfileStrict = (\<lambda>sp. Inr (\<lambda>t. t)), m_WithAuthenticationAndAuthorization = ()\<rparr>,
     h_tls = \<lparr>
       t_LoadWithAdherence = (\<lambda>w. (Inr \<lparr>lo_Spec = test_profile, lo_AdherencePolicy = ''Strict'',
         lo_UsedFallback = False, lo_Watchable = True\<rparr>, w @ [''tls''])),
       t_ShouldHonor = (\<lambda>p. p = ''Strict''), t_MinVersion = sp_MinTLSVersion,
       t_CipherSuites = (\<lambda>sp. []), t_CurveIDs = (\<lambda>gs. [29]), t_IntermediateProfile = test_profile\<rparr>,
     h_backoff = stepped_backoff 3,
     h_stripManagedFields = drop_managed,
     h_NewManager = (\<lambda>opts. recorded ''manager''),
     h_NewDynamicClient = recorded ''dynamic'',
     h_NewDiscoveryClient = recorded ''discovery'',
     h_ResourcesFS = (\<lambda>path. Inr []),
     h_decoder = (\<lambda>data. ([], None)),
     h_RESTMapping = (\<lambda>kind. Inr ()),
     h_Build = (\<lambda>ws. None),
     h_AddHealthzCheck = (\<lambda>name. recorded ''healthz''),
     h_AddReadyzCheck = (\<lambda>name. recorded ''readyz''),
     h_SetupWatcher = (\<lambda>watcher. recorded ''watcher''),
     h_cancel = (\<lambda>w. w @ [''cancel'']),
     h_Start = (\<lambda>s. recorded ''start'')\<rparr>"

definition sample_env :: "string go_map" where
  "sample_env = [(''SYSTEM_NAMESPACE'', ''opendatahub''), (''OPERATOR_VERSION'', ''1.2.0'')]"




text \<open>
  C37: The cache and the watches agree: an event the reconciler reacts to on an object of the
  operator's namespace or of a cluster-scoped kind comes from an object the cache holds; what the
  cache holds lies in that scope; and of ClusterRoles and ClusterRoleBindings it holds only those
  whose events the reconciler reacts to.
\<close>

theorem cache_covers_watches:
  assumes "informer_cache holds stored"
  shows "(requestsFor r openShift kind obj \<noteq> [] \<and> in_scope [r_PodNamespace r] kind obj \<longrightarrow>
      holds (cacheOptions strip (r_PodNamespace r)) kind obj) \<and>
    (holds (cacheOptions strip (r_PodNamespace r)) kind obj \<longrightarrow>
      in_scope [r_PodNamespace r] kind obj \<and>
      (kind \<in> {''ClusterRole'', ''ClusterRoleBinding''} \<longrightarrow> requestsFor r openShift kind obj \<noteq> []))"
proof (intro conjI impI; (elim conjE)?)
  assume "requestsFor r openShift kind obj \<noteq> []" "in_scope [r_PodNamespace r] kind obj"
  then show "holds (cacheOptions strip (r_PodNamespace r)) kind obj"
    by (rule informer_cache.watched_held [OF assms])
next
  assume held: "holds (cacheOptions strip (r_PodNamespace r)) kind obj"
  then show "in_scope [r_PodNamespace r] kind obj"
    by (simp add: informer_cache.operator_cache [OF assms])
  assume "kind \<in> {''ClusterRole'', ''ClusterRoleBinding''}"
  with held show "requestsFor r openShift kind obj \<noteq> []"
    by (intro informer_cache.held_watched [OF assms]) auto
qed

definition sample_role :: "string \<Rightarrow> object_meta" where
  "sample_role v = \<lparr>om_name = ''manager'', om_namespace = [], om_labels = [(PlatformPartOf, v)]\<rparr>"

theorem cache_covers_watches_witness:
  "\<exists>r. r_PodNamespace r = ''opendatahub'' \<and>
     requestsFor r False ''ClusterRole'' (sample_role MCPLifecycleOperatorServiceName) \<noteq> [] \<and>
     literal_holds (cacheOptions drop_managed ''opendatahub'') ''ClusterRole''
       (sample_role MCPLifecycleOperatorServiceName) \<and>
     \<not> literal_holds (cacheOptions drop_managed ''opendatahub'') ''ClusterRole'' (sample_role ''dashboard'')"
proof -
  let ?r = "newReconciler (sample_host sample_env) ''1.2.0'' ''opendatahub'' []"
  have ns: "r_PodNamespace ?r = ''opendatahub''" by (simp add: newReconciler_def)
  have reacts: "requestsFor ?r False ''ClusterRole'' (sample_role v) \<noteq> [] \<longleftrightarrow> v = MCPLifecycleOperatorServiceName" for v
    unfolding requests_watching watching_kinds
    by (simp add: labelled_kinds_def managed_label sample_role_def)
  have scope: "in_scope [''opendatahub''] ''ClusterRole'' (sample_role v)" for v
    by (simp add: in_scope_def cluster_scoped_def)
  note cache = cache_covers_watches [OF literal_cache.informer_cache_axioms, of ?r False "''ClusterRole''",
      unfolded ns]
  have "literal_holds (cacheOptions drop_managed ''opendatahub'') ''ClusterRole''
      (sample_role MCPLifecycleOperatorServiceName)"
    using cache [of "sample_role MCPLifecycleOperatorServiceName"] reacts scope by blast
  moreover have "\<not> literal_holds (cacheOptions drop_managed ''opendatahub'') ''ClusterRole'' (sample_role ''dashboard'')"
    using cache [of "sample_role ''dashboard''"] reacts [of "''dashboard''"]
    by (auto simp: MCPLifecycleOperatorServiceName_def)
  ultimately show ?thesis using ns reacts by blast
qed

text \<open>
  A CRD is cached without managed fields and without the schema of any version, but with its
  versions and with everything the watch on CRDs tests, so an event on it requests what it
  requested before; objects of the other kinds are cached as the stripping of managed fields
  leaves them. An error of that stripping is passed on.
\<close>

theorem cached_crds_still_watched:
  assumes "informer_cache holds stored"
    and "strip (CRD crd) = (CRD (crd\<lparr>crd_managed := []\<rparr>), None)"
  shows "\<exists>c. stored (cacheOptions strip ns) ''CustomResourceDefinition'' (CRD crd) = (CRD c, None) \<and>
      crd_managed c = [] \<and> list_all (\<lambda>v. ver_schema v = None) (crd_versions c) \<and>
      map (\<lambda>v. (ver_name v, ver_served v, ver_storage v)) (crd_versions c) =
        map (\<lambda>v. (ver_name v, ver_served v, ver_storage v)) (crd_versions crd) \<and>
      (\<forall>r openShift. requestsFor r openShift ''CustomResourceDefinition'' (crd_meta c) =
        requestsFor r openShift ''CustomResourceDefinition'' (crd_meta crd)) \<and>
      (\<forall>kind obj. stored (cacheOptions strip ns) kind obj =
        (if kind = ''CustomResourceDefinition'' \<and> snd (strip obj) = None
         then stripCRDSchema strip obj else strip obj))"
proof -
  have "stripCRDSchema strip obj = strip obj" if "snd (strip obj) \<noteq> None" for obj
    using that by (auto simp: stripCRDSchema_def split: prod.splits option.splits)
  then have "stored (cacheOptions strip ns) kind obj =
      (if kind = ''CustomResourceDefinition'' \<and> snd (strip obj) = None
       then stripCRDSchema strip obj else strip obj)" for kind obj
    by (simp add: informer_cache.operator_transform [OF assms(1)] del: not_None_eq)
  then show ?thesis
    by (intro exI [of _ "crd\<lparr>crd_managed := [], crd_versions := map (\<lambda>v. v\<lparr>ver_schema := None\<rparr>) (crd_versions crd)\<rparr>"])
      (simp add: assms(2) stripCRDSchema_def list_all_iff)
qed

definition gateway_crd :: crd_object where
  "gateway_crd = \<lparr>
     crd_meta = \<lparr>om_name = gatewayCRDName, om_namespace = [], om_labels = []\<rparr>,
     crd_managed = [VStr ''kubectl''],
     crd_versions = [\<lparr>ver_name = ''v1'', ver_served = True, ver_storage = True, ver_schema = Some (VStr ''schema'')\<rparr>]\<rparr>"

theorem cached_crds_still_watched_witness:
  "\<exists>c. own_transform (cacheOptions drop_managed ''opendatahub'') ''CustomResourceDefinition'' (CRD gateway_crd) =
     (CRD c, None) \<and> length (crd_versions c) = 1 \<and> list_all (\<lambda>v. ver_schema v = None) (crd_versions c)"
proof -
  have strip: "drop_managed (CRD gateway_crd) = (CRD (gateway_crd\<lparr>crd_managed := []\<rparr>), None)" by simp
  from cached_crds_still_watched [where strip = drop_managed and crd = gateway_crd and ns = "''opendatahub''",
      OF literal_cache.informer_cache_axioms this]
  obtain c where c: "own_transform (cacheOptions drop_managed ''opendatahub'') ''CustomResourceDefinition''
      (CRD gateway_crd) = (CRD c, None)" "list_all (\<lambda>v. ver_schema v = None) (crd_versions c)"
    and "map (\<lambda>v. (ver_name v, ver_served v, ver_storage v)) (crd_versions c) =
        map (\<lambda>v. (ver_name v, ver_served v, ver_storage v)) (crd_versions gateway_crd)"
    by blast
  from arg_cong [OF this(3), of length] c show ?thesis by (simp add: gateway_crd_def)
qed

end
