(* ===== verification/Embedded.thy ===== *)
theory Embedded
  imports Source_Round Operator_Main
begin

text \<open>
  internal/controller/embed.go: the resources the operator carries in its binary, as the go command
  embeds them from the repository when the operator is built. This is where the two programs of the
  repository meet: the developer's tool writes the installer into the tree that is embedded, and the
  operator's manifest provider reads it from there.
\<close>

section \<open>The embedded file system\<close>

text \<open>
  The go command embeds, for a directory in a \<open>go:embed\<close> pattern, the regular files below it but
  for those with a component that begins with a dot or an underscore, that module paths do not
  admit (\<open>check\<close>, \<open>module.CheckFilePath\<close>), or that are in a directory with a go.mod file, which is
  another module. A pattern without any file fails the build.
\<close>

definition visible :: "(string \<Rightarrow> bool) \<Rightarrow> string \<Rightarrow> bool" where
  "visible check name \<longleftrightarrow> name \<noteq> [] \<and> hd name \<noteq> CHR ''.'' \<and> hd name \<noteq> CHR ''_'' \<and> check name"

definition embeddable :: "(string \<Rightarrow> bool) \<Rightarrow> fsys \<Rightarrow> path \<Rightarrow> string \<Rightarrow> path \<Rightarrow> bool" where
  "embeddable check fs package pattern p \<longleftrightarrow>
     p \<noteq> [] \<and> hd p = pattern \<and> list_all (visible check) (tl p) \<and>
     list_all (\<lambda>k. node_at fs (package @ take k p @ [''go.mod'']) = None) [1..<length p]"

definition embedded_file :: "(string \<Rightarrow> bool) \<Rightarrow> fsys \<Rightarrow> path \<Rightarrow> string \<Rightarrow> path \<Rightarrow> go_bytes option" where
  "embedded_file check fs package pattern p =
     (case node_at fs (package @ p) of
        Some (Regular data mode) \<Rightarrow> if embeddable check fs package pattern p then Some data else None
      | _ \<Rightarrow> None)"

text \<open>The paths of the embedded files, relative to the package.\<close>

definition embedded_paths :: "(string \<Rightarrow> bool) \<Rightarrow> fsys \<Rightarrow> path \<Rightarrow> string \<Rightarrow> path list" where
  "embedded_paths check fs package pattern =
     filter (\<lambda>p. embedded_file check fs package pattern p \<noteq> None)
       (map (\<lambda>(p, n). drop (length package) p) (filter (\<lambda>(p, n). prefix package p) (fs_nodes fs)))"

text \<open>\<open>embed.FS.ReadFile\<close>: a file, a directory above one, or nothing.\<close>

definition embed_ReadFile :: "(string \<Rightarrow> bool) \<Rightarrow> fsys \<Rightarrow> path \<Rightarrow> string \<Rightarrow> string \<Rightarrow> go_bytes result" where
  "embed_ReadFile check fs package pattern name =
     (case embedded_file check fs package pattern (split_slash name) of
        Some data \<Rightarrow> Inr data
      | None \<Rightarrow>
          if name = ''.'' \<or> list_ex (strict_prefix (split_slash name)) (embedded_paths check fs package pattern)
          then Inl (Wrapped (''read '' @ name) (Message ''is a directory''))
          else Inl (Wrapped (''open '' @ name) ErrNotExist))"

definition embeddedPattern :: string where "embeddedPattern = ''resources''"

text \<open>The package of embed.go, in the repository at \<open>root\<close>.\<close>

definition controllerPackage :: path where
  "controllerPackage = [''internal'', ''controller'']"

definition ResourcesFS :: "(string \<Rightarrow> bool) \<Rightarrow> fsys \<Rightarrow> path \<Rightarrow> (string \<Rightarrow> go_bytes result) option" where
  "ResourcesFS check fs root =
     (if embedded_paths check fs (root @ controllerPackage) embeddedPattern = [] then None
      else Some (embed_ReadFile check fs (root @ controllerPackage) embeddedPattern))"

section \<open>The operand file is the installed one\<close>

lemma operand_components:
  "split_slash operandYAMLPath = [embeddedPattern, ''mcp-lifecycle-operator.yaml'']"
  by code_simp

text \<open>The tool's path of the installer, from the root, is the operator's, from the package.\<close>

lemma installer_in_package: "root @ installerPath = (root @ controllerPackage) @ split_slash operandYAMLPath"
  by (simp add: operand_components installerPath_def controllerPackage_def embeddedPattern_def)

lemma embedded_member:
  assumes "embedded_file check fs package pattern p = Some data"
  shows "p \<in> set (embedded_paths check fs package pattern)"
proof -
  from assms obtain mode where "node_at fs (package @ p) = Some (Regular data mode)"
    by (auto simp: embedded_file_def split: option.splits node.splits if_splits)
  then have "(package @ p, Regular data mode) \<in> set (fs_nodes fs)" by (simp add: node_at_def map_of_SomeD)
  then have "(package @ p, Regular data mode) \<in> set (filter (\<lambda>(p, n). prefix package p) (fs_nodes fs))" by simp
  then have "drop (length package) (package @ p) \<in>
      set (map (\<lambda>(p, n). drop (length package) p) (filter (\<lambda>(p, n). prefix package p) (fs_nodes fs)))"
    unfolding set_map by (rule rev_image_eqI) simp
  with assms show ?thesis by (simp add: embedded_paths_def)
qed

lemma operand_embedded:
  assumes "node_at fs (root @ installerPath) = Some (Regular data mode)"
    and "check ''mcp-lifecycle-operator.yaml''"
    and "node_at fs (root @ [''internal'', ''controller'', ''resources'', ''go.mod'']) = None"
  obtains read where "ResourcesFS check fs root = Some read" and "read operandYAMLPath = Inr data"
proof -
  have "embeddable check fs (root @ controllerPackage) embeddedPattern (split_slash operandYAMLPath)"
    using assms(2,3)
    by (simp add: embeddable_def operand_components visible_def upt_rec embeddedPattern_def controllerPackage_def)
  with assms(1) have found: "embedded_file check fs (root @ controllerPackage) embeddedPattern
      (split_slash operandYAMLPath) = Some data"
    by (simp add: embedded_file_def installer_in_package)
  then have "embedded_paths check fs (root @ controllerPackage) embeddedPattern \<noteq> []"
    using embedded_member by fastforce
  with found that show thesis by (simp add: ResourcesFS_def embed_ReadFile_def)
qed

text \<open>What a generation leaves as the installer: the output of \<open>kustomize build\<close>.\<close>

lemma generated_installer:
  assumes "generate T commit ref stage fs = (Inr (c, i), fs')"
  obtains g data g' mode where "generatorCommand T (Some (stage @ [''installer-overlay''])) True
      (path_text (stage @ [''source'', ''bin'', ''kustomize'']))
      [''build'', path_text (stage @ [''installer-overlay''])] g = (Inr data, g')"
    and "node_at fs' i = Some (Regular data mode)"
proof -
  from assms obtain f where render: "renderInstaller T (stage @ [''source'']) stage (stage @ [''installer.yaml''])
      (stage @ [''source'', ''bin'', ''kustomize'']) ref f = (None, fs')" and i: "i = stage @ [''installer.yaml'']"
    by (rule generate_run)
  from render obtain g data g' where "generatorCommand T (Some (stage @ [''installer-overlay''])) True
      (path_text (stage @ [''source'', ''bin'', ''kustomize'']))
      [''build'', path_text (stage @ [''installer-overlay''])] g = (Inr data, g')"
    and "WriteFile (stage @ [''installer.yaml'']) data 0x1A4 g' = (None, fs')"
    by (auto simp: renderInstaller_def Let_def split: sum.splits option.splits prod.splits if_splits)
  with WriteFile_writes [of "stage @ [''installer.yaml'']" data _ g' fs'] i that show thesis by blast
qed

section \<open>Properties\<close>

text \<open>
  C10: What the tool generates is what the operator applies. After an update that reported no
  error, an operator built from the repository reads, as the file its manifests come from, exactly
  what kustomize printed for the commit and the image the update selected: the path the tool
  installs under and the path the operator reads are the same file, and it is embedded.
\<close>

theorem operator_applies_what_update_generated:
  assumes "rooted fs" and "children_rooted T" and "go_tool T root caches"
    and "update_layout caches out root {tc_TempDir T}" and "update T R out root ref (fs, w) = (None, fs', w')"
    and "check ''mcp-lifecycle-operator.yaml''"
    and "node_at fs' (root @ [''internal'', ''controller'', ''resources'', ''go.mod'']) = None"
  shows "\<exists>commit selectedImage stage f c i f' mode g data g' read.
    resolveOperandImage R commit w = (Inr selectedImage, w') \<and>
    generate T commit selectedImage stage f = (Inr (c, i), f') \<and> node_at f' i = Some (Regular data mode) \<and>
    generatorCommand T (Some (stage @ [''installer-overlay''])) True
      (path_text (stage @ [''source'', ''bin'', ''kustomize'']))
      [''build'', path_text (stage @ [''installer-overlay''])] g = (Inr data, g') \<and>
    ResourcesFS check fs' root = Some read \<and>
    (\<forall>H version ns img. h_ResourcesFS H = read \<longrightarrow>
       loadResources (r_ManifestProvider (newReconciler H version ns img)) =
         (case h_decoder H data of (docs, end) \<Rightarrow> decodeDocuments docs end))"
proof -
  obtain f0 stage f1 commit f2 version f3 selectedImage c i f4 where
    res: "resolveOperandImage R commit w = (Inr selectedImage, w')"
    and gen: "generate T commit selectedImage (stage @ [''generated'']) f3 = (Inr (c, i), f4)"
    and inst: "tree fs' (root @ installerPath) = copied_tree (fs_umask f4) False (tree f4 i)"
    by (rule update_installed [OF assms(1-5)])
  from gen obtain g data g' mode where
    build: "generatorCommand T (Some ((stage @ [''generated'']) @ [''installer-overlay''])) True
      (path_text ((stage @ [''generated'']) @ [''source'', ''bin'', ''kustomize'']))
      [''build'', path_text ((stage @ [''generated'']) @ [''installer-overlay''])] g = (Inr data, g')"
    and i: "node_at f4 i = Some (Regular data mode)" by (rule generated_installer)
  from i have "content fs' (root @ installerPath) [] = Some data"
    using content_copied(2) [OF inst] by (simp add: content_node)
  then obtain mode' where "node_at fs' (root @ installerPath) = Some (Regular data mode')"
    by (auto simp: content_node)
  from this assms(6,7) obtain read where read: "ResourcesFS check fs' root = Some read"
    and "read operandYAMLPath = Inr data" by (rule operand_embedded)
  then have "\<forall>H version ns img. h_ResourcesFS H = read \<longrightarrow>
      loadResources (r_ManifestProvider (newReconciler H version ns img)) =
        (case h_decoder H data of (docs, end) \<Rightarrow> decodeDocuments docs end)"
    by (simp add: loadResources_def newReconciler_def NewKustomizeProvider_def)
  with res gen i build read show ?thesis by blast
qed

theorem operator_applies_what_update_generated_witness:
  "\<exists>fs' data read.
     update desk_tools sample_registry (Some [''run'', ''out'']) [''repo''] ''main'' (desk, ()) = (None, fs', ()) \<and>
     ResourcesFS (\<lambda>name. True) fs' [''repo''] = Some read \<and>
     loadResources (r_ManifestProvider (newReconciler ((sample_host sample_env)\<lparr>h_ResourcesFS := read,
       h_decoder := \<lambda>data. ([], Some (Message data))\<rparr>) [] [] [])) =
       Inl (Wrapped ''decoding YAML document'' (Message data))"
proof -
  obtain fs' where run: "update desk_tools sample_registry (Some [''run'', ''out'']) [''repo''] ''main'' (desk, ()) = (None, fs', ())"
    using desk_updated by blast
  have "node_at fs' ([''repo''] @ [''internal'', ''controller'', ''resources'', ''go.mod'']) = None"
    using desk_update_kept(3) [OF run] by simp
  from operator_applies_what_update_generated [OF desk_rooted desk_children desk_go desk_layout run _ this,
      of "\<lambda>name. True"]
  obtain data read where "ResourcesFS (\<lambda>name. True) fs' [''repo''] = Some read"
    and load: "\<forall>(H :: (string list, unit) host) version ns img. h_ResourcesFS H = read \<longrightarrow>
       loadResources (r_ManifestProvider (newReconciler H version ns img)) =
         (case h_decoder H data of (docs, end) \<Rightarrow> decodeDocuments docs end)" by blast
  with run show ?thesis by auto
qed

end
