(* ===== verification/Deep_Copy.thy ===== *)
theory Deep_Copy
  imports Platform_API "HOL-Library.Sublist"
begin

text \<open>
  The deep copies of the API types (api/v1alpha1/zz_generated.deepcopy.go), over an explicit store.
  Elsewhere a resource is a value; here a slice is a reference into an array of the store, so that
  a shallow copy shares its elements with the original. A reconcile relies on the difference: it
  copies the resource, changes the original, partly in place, and patches what has changed.
\<close>

section \<open>Slices\<close>

text \<open>A slice that is not nil refers to part of an array: its number, an offset and a length.\<close>

datatype slice = NilSlice | Slice nat nat nat

record gateway_cell =
  gc_Name :: string
  gc_Namespace :: string
  gc_Listeners :: slice

record info_cell =
  ic_Name :: string
  ic_Namespace :: string
  ic_Ready :: bool
  ic_Gateway :: gateway_cell

text \<open>
  The library's part of the types: the metadata with its labels, the platform's status with its
  conditions, and the list of releases.
\<close>

record meta_cell =
  mc_Name :: string
  mc_UID :: string
  mc_Generation :: int
  mc_Labels :: slice

record platform_status_cell =
  ps_Phase :: string
  ps_ObservedGeneration :: int
  ps_Conditions :: slice

record status_cell =
  sc_Status :: platform_status_cell
  sc_Releases :: slice
  sc_Distribution :: distribution
  sc_Gateways :: slice

record spec_cell =
  sp_ManagementState :: string

record operator_cell =
  oc_TypeMeta :: "string \<times> string"
  oc_ObjectMeta :: meta_cell
  oc_Spec :: spec_cell
  oc_Status :: status_cell

text \<open>The elements of the arrays.\<close>

datatype cell =
    ListenerCell listener_ref
  | InfoCell info_cell
  | ConditionCell condition
  | ReleaseCell component_release
  | LabelCell "string \<times> string"
  | OperatorCell operator_cell

type_synonym store = "cell list list"

definition make_slice :: "cell \<Rightarrow> nat \<Rightarrow> store \<Rightarrow> slice \<times> store" where
  "make_slice zero n S = (Slice (length S) 0 n, S @ [replicate n zero])"

fun go_copy :: "slice \<Rightarrow> slice \<Rightarrow> store \<Rightarrow> store" where
  "go_copy (Slice d od nd) (Slice b off n) S =
     S[d := take od (S ! d) @ take (min n nd) (drop off (S ! b)) @ drop (od + min n nd) (S ! d)]"
| "go_copy _ _ S = S"

section \<open>The generated functions\<close>

text \<open>
  A \<open>DeepCopyInto\<close> begins with \<open>*out = *in\<close>, so what \<open>out\<close> held does not matter: it takes the
  receiver and returns the new \<open>out\<close>. The range over a slice reads each element when it gets to it.
\<close>

definition range_copy :: "cell \<Rightarrow> (cell \<Rightarrow> store \<Rightarrow> cell \<times> store) \<Rightarrow> slice \<Rightarrow> store \<Rightarrow> slice \<times> store" where
  "range_copy zero into s S =
     (case s of
        NilSlice \<Rightarrow> (NilSlice, S)
      | Slice b off n \<Rightarrow>
          (let out = length S; (s', S) = make_slice zero n S
           in (s', fold (\<lambda>i S. let (c, S) = into (S ! b ! (off + i)) S in S[out := (S ! out)[i := c]]) [0..<n] S)))"

definition value_copy :: "cell \<Rightarrow> slice \<Rightarrow> store \<Rightarrow> slice \<times> store" where
  "value_copy zero s S =
     (case s of
        NilSlice \<Rightarrow> (NilSlice, S)
      | Slice b off n \<Rightarrow> (let (s', S) = make_slice zero n S in (s', go_copy s' s S)))"

record library =
  l_ObjectMeta :: "meta_cell \<Rightarrow> store \<Rightarrow> meta_cell \<times> store"
  l_ListMeta :: "string \<Rightarrow> store \<Rightarrow> string \<times> store"
  l_Status :: "platform_status_cell \<Rightarrow> store \<Rightarrow> platform_status_cell \<times> store"
  l_Releases :: "slice \<Rightarrow> store \<Rightarrow> slice \<times> store"

definition Distribution_DeepCopyInto :: "distribution \<Rightarrow> store \<Rightarrow> distribution \<times> store" where
  "Distribution_DeepCopyInto d S = (d, S)"

definition ListenerRef_DeepCopyInto :: "listener_ref \<Rightarrow> store \<Rightarrow> listener_ref \<times> store" where
  "ListenerRef_DeepCopyInto l S = (l, S)"

definition zero_listener :: cell where
  "zero_listener = ListenerCell \<lparr>lr_name = [], lr_hostname = []\<rparr>"

definition GatewayRef_DeepCopyInto :: "gateway_cell \<Rightarrow> store \<Rightarrow> gateway_cell \<times> store" where
  "GatewayRef_DeepCopyInto g S =
     (let (l, S) = value_copy zero_listener (gc_Listeners g) S in (g\<lparr>gc_Listeners := l\<rparr>, S))"

definition MCPGatewayInfo_DeepCopyInto :: "info_cell \<Rightarrow> store \<Rightarrow> info_cell \<times> store" where
  "MCPGatewayInfo_DeepCopyInto i S =
     (let (g, S) = GatewayRef_DeepCopyInto (ic_Gateway i) S in (i\<lparr>ic_Gateway := g\<rparr>, S))"

definition zero_info :: cell where
  "zero_info = InfoCell \<lparr>ic_Name = [], ic_Namespace = [], ic_Ready = False,
     ic_Gateway = \<lparr>gc_Name = [], gc_Namespace = [], gc_Listeners = NilSlice\<rparr>\<rparr>"

text \<open>Slices are typed in Go; a cell of another type is never met.\<close>

definition info_into :: "cell \<Rightarrow> store \<Rightarrow> cell \<times> store" where
  "info_into c S =
     (case c of InfoCell i \<Rightarrow> (let (i, S) = MCPGatewayInfo_DeepCopyInto i S in (InfoCell i, S)) | _ \<Rightarrow> (c, S))"

definition MCPLifecycleOperatorStatus_DeepCopyInto ::
    "library \<Rightarrow> status_cell \<Rightarrow> store \<Rightarrow> status_cell \<times> store" where
  "MCPLifecycleOperatorStatus_DeepCopyInto L s S =
     (let (st, S) = l_Status L (sc_Status s) S;
          (rs, S) = l_Releases L (sc_Releases s) S;
          (gs, S) = range_copy zero_info info_into (sc_Gateways s) S
      in (s\<lparr>sc_Status := st, sc_Releases := rs, sc_Gateways := gs\<rparr>, S))"

definition MCPLifecycleOperatorSpec_DeepCopyInto :: "spec_cell \<Rightarrow> store \<Rightarrow> spec_cell \<times> store" where
  "MCPLifecycleOperatorSpec_DeepCopyInto s S = (s, S)"

definition MCPLifecycleOperator_DeepCopyInto ::
    "library \<Rightarrow> operator_cell \<Rightarrow> store \<Rightarrow> operator_cell \<times> store" where
  "MCPLifecycleOperator_DeepCopyInto L m S =
     (let (meta, S) = l_ObjectMeta L (oc_ObjectMeta m) S;
          (st, S) = MCPLifecycleOperatorStatus_DeepCopyInto L (oc_Status m) S
      in (m\<lparr>oc_ObjectMeta := meta, oc_Status := st\<rparr>, S))"

record list_cell =
  lc_TypeMeta :: "string \<times> string"
  lc_ListMeta :: string
  lc_Items :: slice

definition zero_operator :: cell where
  "zero_operator = OperatorCell \<lparr>oc_TypeMeta = ([], []),
     oc_ObjectMeta = \<lparr>mc_Name = [], mc_UID = [], mc_Generation = 0, mc_Labels = NilSlice\<rparr>,
     oc_Spec = \<lparr>sp_ManagementState = []\<rparr>,
     oc_Status = \<lparr>sc_Status = \<lparr>ps_Phase = [], ps_ObservedGeneration = 0, ps_Conditions = NilSlice\<rparr>,
       sc_Releases = NilSlice, sc_Distribution = \<lparr>dist_name = [], dist_version = []\<rparr>, sc_Gateways = NilSlice\<rparr>\<rparr>"

definition operator_into :: "library \<Rightarrow> cell \<Rightarrow> store \<Rightarrow> cell \<times> store" where
  "operator_into L c S =
     (case c of OperatorCell m \<Rightarrow> (let (m, S) = MCPLifecycleOperator_DeepCopyInto L m S in (OperatorCell m, S))
      | _ \<Rightarrow> (c, S))"

definition MCPLifecycleOperatorList_DeepCopyInto ::
    "library \<Rightarrow> list_cell \<Rightarrow> store \<Rightarrow> list_cell \<times> store" where
  "MCPLifecycleOperatorList_DeepCopyInto L l S =
     (let (meta, S) = l_ListMeta L (lc_ListMeta l) S;
          (items, S) = range_copy zero_operator (operator_into L) (lc_Items l) S
      in (l\<lparr>lc_ListMeta := meta, lc_Items := items\<rparr>, S))"

text \<open>The \<open>DeepCopy\<close> of each type is the same code: nil stays nil, else a new struct is filled.\<close>

definition deep_copy :: "('a \<Rightarrow> store \<Rightarrow> 'a \<times> store) \<Rightarrow> 'a option \<Rightarrow> store \<Rightarrow> 'a option \<times> store" where
  "deep_copy into p S = (case p of None \<Rightarrow> (None, S) | Some x \<Rightarrow> (let (out, S) = into x S in (Some out, S)))"

definition Distribution_DeepCopy where "Distribution_DeepCopy = deep_copy Distribution_DeepCopyInto"
definition GatewayRef_DeepCopy where "GatewayRef_DeepCopy = deep_copy GatewayRef_DeepCopyInto"
definition ListenerRef_DeepCopy where "ListenerRef_DeepCopy = deep_copy ListenerRef_DeepCopyInto"
definition MCPGatewayInfo_DeepCopy where "MCPGatewayInfo_DeepCopy = deep_copy MCPGatewayInfo_DeepCopyInto"
definition MCPLifecycleOperatorSpec_DeepCopy where
  "MCPLifecycleOperatorSpec_DeepCopy = deep_copy MCPLifecycleOperatorSpec_DeepCopyInto"
definition MCPLifecycleOperatorStatus_DeepCopy where
  "MCPLifecycleOperatorStatus_DeepCopy L = deep_copy (MCPLifecycleOperatorStatus_DeepCopyInto L)"
definition MCPLifecycleOperator_DeepCopy where
  "MCPLifecycleOperator_DeepCopy L = deep_copy (MCPLifecycleOperator_DeepCopyInto L)"
definition MCPLifecycleOperatorList_DeepCopy where
  "MCPLifecycleOperatorList_DeepCopy L = deep_copy (MCPLifecycleOperatorList_DeepCopyInto L)"

text \<open>A nil pointer becomes a nil interface.\<close>

definition MCPLifecycleOperator_DeepCopyObject ::
    "library \<Rightarrow> operator_cell option \<Rightarrow> store \<Rightarrow> operator_cell option \<times> store" where
  "MCPLifecycleOperator_DeepCopyObject L p S =
     (case MCPLifecycleOperator_DeepCopy L p S of (Some c, S) \<Rightarrow> (Some c, S) | (None, S) \<Rightarrow> (None, S))"

definition MCPLifecycleOperatorList_DeepCopyObject ::
    "library \<Rightarrow> list_cell option \<Rightarrow> store \<Rightarrow> list_cell option \<times> store" where
  "MCPLifecycleOperatorList_DeepCopyObject L p S =
     (case MCPLifecycleOperatorList_DeepCopy L p S of (Some c, S) \<Rightarrow> (Some c, S) | (None, S) \<Rightarrow> (None, S))"

section \<open>What a reader sees\<close>

text \<open>The value behind a reference, if the store has it: nil, or the elements.\<close>

definition slice_value :: "(store \<Rightarrow> cell \<Rightarrow> 'v option) \<Rightarrow> store \<Rightarrow> slice \<Rightarrow> 'v list option option" where
  "slice_value read S s =
     (case s of
        NilSlice \<Rightarrow> Some None
      | Slice b off n \<Rightarrow>
          if b < length S \<and> off + n \<le> length (S ! b)
          then map_option Some (those (map (read S) (take n (drop off (S ! b))))) else None)"

definition both_value ::
    "(store \<Rightarrow> 'a \<Rightarrow> 'v option) \<Rightarrow> (store \<Rightarrow> 'b \<Rightarrow> 'u option) \<Rightarrow> store \<Rightarrow> 'a \<times> 'b \<Rightarrow> ('v \<times> 'u) option" where
  "both_value v1 v2 S p = (case v1 S (fst p) of None \<Rightarrow> None | Some a \<Rightarrow> map_option (Pair a) (v2 S (snd p)))"

definition listener_value :: "store \<Rightarrow> cell \<Rightarrow> listener_ref option" where
  "listener_value S c = (case c of ListenerCell l \<Rightarrow> Some l | _ \<Rightarrow> None)"

definition condition_value :: "store \<Rightarrow> cell \<Rightarrow> condition option" where
  "condition_value S c = (case c of ConditionCell x \<Rightarrow> Some x | _ \<Rightarrow> None)"

definition release_value :: "store \<Rightarrow> cell \<Rightarrow> component_release option" where
  "release_value S c = (case c of ReleaseCell x \<Rightarrow> Some x | _ \<Rightarrow> None)"

definition label_value :: "store \<Rightarrow> cell \<Rightarrow> (string \<times> string) option" where
  "label_value S c = (case c of LabelCell x \<Rightarrow> Some x | _ \<Rightarrow> None)"

definition gateway_value where
  "gateway_value S g =
     map_option (\<lambda>ls. (gc_Name g, gc_Namespace g, ls)) (slice_value listener_value S (gc_Listeners g))"

definition info_value where
  "info_value S i =
     map_option (\<lambda>g. (ic_Name i, ic_Namespace i, ic_Ready i, g)) (gateway_value S (ic_Gateway i))"

definition info_cell_value where
  "info_cell_value S c = (case c of InfoCell i \<Rightarrow> info_value S i | _ \<Rightarrow> None)"

definition meta_value where
  "meta_value S m =
     map_option (\<lambda>ls. (mc_Name m, mc_UID m, mc_Generation m, ls)) (slice_value label_value S (mc_Labels m))"

definition platform_status_value where
  "platform_status_value S s =
     map_option (\<lambda>cs. (ps_Phase s, ps_ObservedGeneration s, cs)) (slice_value condition_value S (ps_Conditions s))"

definition status_value where
  "status_value S s =
     map_option (\<lambda>(st, rs, gs). (st, rs, sc_Distribution s, gs))
       (both_value platform_status_value (both_value (slice_value release_value) (slice_value info_cell_value))
          S (sc_Status s, sc_Releases s, sc_Gateways s))"

definition operator_value where
  "operator_value S m =
     map_option (\<lambda>(meta, st). (oc_TypeMeta m, meta, oc_Spec m, st))
       (both_value meta_value status_value S (oc_ObjectMeta m, oc_Status m))"

definition operator_cell_value where
  "operator_cell_value S c = (case c of OperatorCell m \<Rightarrow> operator_value S m | _ \<Rightarrow> None)"

definition list_value where
  "list_value S l =
     map_option (\<lambda>items. (lc_TypeMeta l, lc_ListMeta l, items))
       (slice_value operator_cell_value S (lc_Items l))"

section \<open>The contract of a deep copy\<close>

definition agree :: "nat \<Rightarrow> nat \<Rightarrow> store \<Rightarrow> store \<Rightarrow> bool" where
  "agree lo hi S S' \<longleftrightarrow> (\<forall>i. lo \<le> i \<longrightarrow> i < hi \<longrightarrow> i < length S' \<and> S' ! i = S ! i)"

text \<open>
  A value depends only on the arrays of the store it was read in; copying only adds arrays; and the
  copy has the same value in every store that has the added arrays, whatever happened to the old ones.
\<close>

locale deep_copier =
  fixes copy :: "'a \<Rightarrow> store \<Rightarrow> 'a \<times> store"
    and val :: "store \<Rightarrow> 'a \<Rightarrow> 'v option"
  assumes reads: "val S x = Some v \<Longrightarrow> agree 0 (length S) S S' \<Longrightarrow> val S' x = Some v"
    and grows: "val S x = Some v \<Longrightarrow> copy x S = (x', S') \<Longrightarrow> prefix S S'"
    and fresh: "val S x = Some v \<Longrightarrow> copy x S = (x', S') \<Longrightarrow> agree (length S) (length S') S' S'' \<Longrightarrow>
      val S'' x' = Some v"

lemma agree_prefix: "prefix S S' \<Longrightarrow> agree lo (length S) S S'"
  by (auto simp: agree_def prefix_def nth_append)

lemma agree_refl: "agree lo (length S) S S"
  by (simp add: agree_def)

lemma agree_narrow: "agree lo hi S S' \<Longrightarrow> lo \<le> lo' \<Longrightarrow> hi' \<le> hi \<Longrightarrow> agree lo' hi' S S'"
  by (auto simp: agree_def)

lemma agree_step:
  assumes "prefix S1 S2" and "agree lo hi S2 S''" and "hi' \<le> length S1" and "hi' \<le> hi" and "lo \<le> lo'"
  shows "agree lo' hi' S1 S''"
proof -
  obtain new where "S2 = S1 @ new" using assms(1) by (auto simp: prefix_def)
  with assms(2-5) show ?thesis by (auto simp: agree_def nth_append)
qed

context deep_copier
begin

lemma unchanged: "val S x = Some v \<Longrightarrow> prefix S S' \<Longrightarrow> val S' x = Some v"
  using reads agree_prefix by blast

lemma copied: "val S x = Some v \<Longrightarrow> copy x S = (x', S') \<Longrightarrow> val S' x' = Some v"
  using fresh agree_refl by blast

end

section \<open>Copies of parts\<close>

text \<open>A struct whose copy copies some of its parts.\<close>

lemma copier_via:
  assumes "deep_copier c v"
    and "\<And>x S. copy x S = (let (y, S') = c (parts x) S in (rebuild x y, S'))"
    and "\<And>x y. parts (rebuild x y) = y"
    and "\<And>S x. val S x = map_option (h x) (v S (parts x))" and "\<And>x y. h (rebuild x y) = h x"
  shows "deep_copier copy val"
proof
  fix S S' :: store and x a
  assume "val S x = Some a" and S': "agree 0 (length S) S S'"
  then obtain u where u: "v S (parts x) = Some u" and a: "a = h x u" by (auto simp: assms(4))
  from deep_copier.reads [OF assms(1) u S'] show "val S' x = Some a" by (simp add: assms(4) a)
next
  fix S S' S'' :: store and x x' a
  assume val: "val S x = Some a" and copy: "copy x S = (x', S')"
  obtain y S1 where c: "c (parts x) S = (y, S1)" by fastforce
  with copy have out: "x' = rebuild x y" "S' = S1" by (simp_all add: assms(2))
  from val obtain u where u: "v S (parts x) = Some u" and a: "a = h x u" by (auto simp: assms(4))
  show "prefix S S'" using deep_copier.grows [OF assms(1) u c] out by simp
  assume "agree (length S) (length S') S' S''"
  with deep_copier.fresh [OF assms(1) u c] have "v S'' y = Some u" by (simp add: out)
  then show "val S'' x' = Some a" by (simp add: assms(3-5) out a)
qed

text \<open>Two parts, one after the other.\<close>

definition both_copy where
  "both_copy c1 c2 p S = (let (a, S) = c1 (fst p) S; (b, S) = c2 (snd p) S in ((a, b), S))"

lemma copier_both:
  assumes "deep_copier c1 v1" and "deep_copier c2 v2"
  shows "deep_copier (both_copy c1 c2) (both_value v1 v2)"
proof
  fix S S' :: store and p a
  assume "both_value v1 v2 S p = Some a" and S': "agree 0 (length S) S S'"
  then obtain u w where v1: "v1 S (fst p) = Some u" and v2: "v2 S (snd p) = Some w" and a: "a = (u, w)"
    by (auto simp: both_value_def split: option.splits)
  from deep_copier.reads [OF assms(1) v1 S'] deep_copier.reads [OF assms(2) v2 S']
  show "both_value v1 v2 S' p = Some a" by (simp add: both_value_def a)
next
  fix S S' S'' :: store and p p' a
  assume val: "both_value v1 v2 S p = Some a" and copy: "both_copy c1 c2 p S = (p', S')"
  obtain x y where p: "p = (x, y)" by fastforce
  obtain x' S1 where c1: "c1 x S = (x', S1)" by fastforce
  obtain y' S2 where c2: "c2 y S1 = (y', S2)" by fastforce
  from copy c1 c2 have out: "p' = (x', y')" "S' = S2" by (simp_all add: both_copy_def p)
  from val obtain u w where v1: "v1 S x = Some u" and v2: "v2 S y = Some w" and a: "a = (u, w)"
    by (auto simp: both_value_def p split: option.splits)
  have 1: "prefix S S1" using deep_copier.grows [OF assms(1) v1 c1] .
  have v2': "v2 S1 y = Some w" using deep_copier.unchanged [OF assms(2) v2 1] .
  have 2: "prefix S1 S2" using deep_copier.grows [OF assms(2) v2' c2] .
  show "prefix S S'" using 1 2 out by simp
  assume "agree (length S) (length S') S' S''"
  then have ext: "agree (length S) (length S2) S2 S''" by (simp add: out)
  have "agree (length S) (length S1) S1 S''"
    by (rule agree_step [OF 2 ext]) (simp_all add: prefix_length_le [OF 2])
  moreover have "agree (length S1) (length S2) S2 S''"
    by (rule agree_narrow [OF ext]) (simp_all add: prefix_length_le [OF 1])
  ultimately show "both_value v1 v2 S'' p' = Some a"
    using deep_copier.fresh [OF assms(1) v1 c1] deep_copier.fresh [OF assms(2) v2' c2]
    by (simp add: both_value_def out a)
qed

section \<open>Copies of slices\<close>

lemma those_map: "those (map f xs) = Some ys \<longleftrightarrow> length ys = length xs \<and> (\<forall>i < length xs. f (xs ! i) = Some (ys ! i))"
proof (induction xs arbitrary: ys)
  case (Cons x xs)
  show ?case
  proof (cases ys)
    case Nil
    then show ?thesis by (auto split: option.splits)
  next
    case ys: (Cons y ys')
    have "those (map f (x # xs)) = Some ys \<longleftrightarrow> f x = Some y \<and> those (map f xs) = Some ys'"
      by (auto simp: ys split: option.splits)
    also have "\<dots> \<longleftrightarrow> length ys = length (x # xs) \<and> (\<forall>i < length (x # xs). f ((x # xs) ! i) = Some (ys ! i))"
      by (auto simp: ys Cons.IH nth_Cons all_conj_distrib split: nat.splits)
    finally show ?thesis .
  qed
qed auto

lemma slice_value_iff:
  "slice_value f S (Slice b off n) = Some v \<longleftrightarrow>
     b < length S \<and> off + n \<le> length (S ! b) \<and>
     (\<exists>vs. v = Some vs \<and> length vs = n \<and> (\<forall>i < n. f S (S ! b ! (off + i)) = Some (vs ! i)))"
  by (auto simp: slice_value_def those_map)

lemma agree_old: "agree 0 (length S) S S' \<Longrightarrow> b < length S \<Longrightarrow> b < length S' \<and> S' ! b = S ! b"
  by (simp add: agree_def)

lemma slice_reads:
  assumes "\<And>c u. f S c = Some u \<Longrightarrow> f S' c = Some u" and "slice_value f S s = Some v" and "agree 0 (length S) S S'"
  shows "slice_value f S' s = Some v"
proof (cases s)
  case NilSlice
  with assms(2) show ?thesis by (simp add: slice_value_def)
next
  case (Slice b off n)
  with assms(2) obtain vs where "b < length S" "off + n \<le> length (S ! b)" "v = Some vs" "length vs = n"
    "\<forall>i < n. f S (S ! b ! (off + i)) = Some (vs ! i)" by (auto simp: slice_value_iff)
  moreover have "b < length S' \<and> S' ! b = S ! b" by (rule agree_old [OF assms(3)]) fact
  ultimately show ?thesis using assms(1) by (auto simp: Slice slice_value_iff)
qed

text \<open>The loop over the elements, up to the k-th: the new array, and what the copied elements need.\<close>

lemma range_loop:
  assumes "deep_copier into f" and "b < length S" and "\<forall>i < n. f S (S ! b ! (off + i)) = Some (vs ! i)"
    and "k \<le> n"
  shows "\<exists>arr new. fold (\<lambda>i S'. let (c, S') = into (S' ! b ! (off + i)) S' in
        S'[length S := (S' ! length S)[i := c]]) [0..<k] (S @ [replicate n zero]) = S @ arr # new \<and>
      length arr = n \<and>
      (\<forall>i < k. \<forall>S''. agree (length S + 1) (length (S @ arr # new)) (S @ arr # new) S'' \<longrightarrow>
         f S'' (arr ! i) = Some (vs ! i))"
  using assms(4)
proof (induction k)
  case 0
  show ?case by simp
next
  case (Suc k)
  let ?step = "\<lambda>i S'. let (c, S') = into (S' ! b ! (off + i)) S' in S'[length S := (S' ! length S)[i := c]]"
  from Suc obtain arr new where run: "fold ?step [0..<k] (S @ [replicate n zero]) = S @ arr # new"
    and arr: "length arr = n"
    and ok: "\<forall>i < k. \<forall>S''. agree (length S + 1) (length (S @ arr # new)) (S @ arr # new) S'' \<longrightarrow>
      f S'' (arr ! i) = Some (vs ! i)" by auto
  let ?S = "S @ arr # new"
  have elem: "?S ! b ! (off + k) = S ! b ! (off + k)" using assms(2) by (simp add: nth_append)
  have val: "f ?S (S ! b ! (off + k)) = Some (vs ! k)"
    using deep_copier.unchanged [OF assms(1), of S "S ! b ! (off + k)" "vs ! k" ?S] assms(3) Suc.prems by simp
  obtain c S2 where c: "into (S ! b ! (off + k)) ?S = (c, S2)" by fastforce
  from deep_copier.grows [OF assms(1) val c] obtain more where S2: "S2 = ?S @ more" by (auto simp: prefix_def)
  have "fold ?step [0..<Suc k] (S @ [replicate n zero]) = S2[length S := (S2 ! length S)[k := c]]"
    using run c elem by simp
  also have "\<dots> = S @ arr[k := c] # (new @ more)" by (simp add: S2 list_update_append nth_append)
  finally have next': "fold ?step [0..<Suc k] (S @ [replicate n zero]) = S @ arr[k := c] # (new @ more)" .
  have "f S'' (arr[k := c] ! i) = Some (vs ! i)"
    if i: "i < Suc k" and S'': "agree (length S + 1) (length (S @ arr[k := c] # (new @ more))) (S @ arr[k := c] # (new @ more)) S''"
    for i S''
  proof -
    have above: "agree (length S + 1) (length S2) S2 S''"
      using S'' by (auto simp: agree_def S2 nth_append nth_Cons split: nat.splits)
    show ?thesis
    proof (cases "i = k")
      case True
      have "agree (length ?S) (length S2) S2 S''" by (rule agree_narrow [OF above]) simp_all
      from deep_copier.fresh [OF assms(1) val c this] show ?thesis
        using True arr Suc.prems by simp
    next
      case False
      have "prefix ?S S2" by (simp add: S2)
      from agree_step [OF this above, of "length ?S" "length S + 1"]
      have "agree (length S + 1) (length ?S) ?S S''" by (simp add: S2)
      with ok i False show ?thesis by auto
    qed
  qed
  with next' arr show ?case by (intro exI [of _ "arr[k := c]"] exI [of _ "new @ more"]) auto
qed

lemma copier_range:
  assumes "deep_copier into f"
  shows "deep_copier (range_copy zero into) (slice_value f)"
proof
  fix S S' :: store and s v
  assume "slice_value f S s = Some v" and "agree 0 (length S) S S'"
  then show "slice_value f S' s = Some v"
    using slice_reads [of f S S'] deep_copier.reads [OF assms] by blast
next
  fix S S' S'' :: store and s s' v
  assume val: "slice_value f S s = Some v" and copy: "range_copy zero into s S = (s', S')"
  have "prefix S S' \<and> (agree (length S) (length S') S' S'' \<longrightarrow> slice_value f S'' s' = Some v)"
  proof (cases s)
    case NilSlice
    with val copy show ?thesis by (simp add: range_copy_def slice_value_def)
  next
    case (Slice b off n)
    with val obtain vs where b: "b < length S" and v: "v = Some vs" "length vs = n"
      and vs: "\<forall>i < n. f S (S ! b ! (off + i)) = Some (vs ! i)" by (auto simp: slice_value_iff)
    from range_loop [OF assms b vs order_refl, of zero] obtain arr new where
      out: "s' = Slice (length S) 0 n" "S' = S @ arr # new" and "length arr = n"
      and ok: "\<forall>i < n. \<forall>S''. agree (length S + 1) (length (S @ arr # new)) (S @ arr # new) S'' \<longrightarrow>
        f S'' (arr ! i) = Some (vs ! i)"
      using copy by (auto simp: Slice range_copy_def make_slice_def Let_def)
    have "slice_value f S'' s' = Some v" if S'': "agree (length S) (length S') S' S''"
    proof -
      have "length S < length S'' \<and> S'' ! length S = arr" using S'' by (auto simp: agree_def out)
      moreover have "agree (length S + 1) (length S') S' S''" by (rule agree_narrow [OF S'']) simp_all
      ultimately show ?thesis using ok v \<open>length arr = n\<close> by (simp add: out slice_value_iff)
    qed
    with out show ?thesis by simp
  qed
  then show "prefix S S'" and "agree (length S) (length S') S' S'' \<Longrightarrow> slice_value f S'' s' = Some v" by blast+
qed

lemma copier_values:
  assumes "\<And>S S' c. f S c = f S' c"
  shows "deep_copier (value_copy zero) (slice_value f)"
proof
  fix S S' :: store and s v
  assume "slice_value f S s = Some v" and "agree 0 (length S) S S'"
  then show "slice_value f S' s = Some v" using slice_reads [of f S S'] assms by metis
next
  fix S S' S'' :: store and s s' v
  assume val: "slice_value f S s = Some v" and copy: "value_copy zero s S = (s', S')"
  have "prefix S S' \<and> (agree (length S) (length S') S' S'' \<longrightarrow> slice_value f S'' s' = Some v)"
  proof (cases s)
    case NilSlice
    with val copy show ?thesis by (simp add: value_copy_def slice_value_def)
  next
    case (Slice b off n)
    with val obtain vs where b: "b < length S" "off + n \<le> length (S ! b)" and v: "v = Some vs" "length vs = n"
      and vs: "\<forall>i < n. f S (S ! b ! (off + i)) = Some (vs ! i)" by (auto simp: slice_value_iff)
    have out: "s' = Slice (length S) 0 n" "S' = S @ [take n (drop off (S ! b))]"
      using copy b(1) by (auto simp: Slice value_copy_def make_slice_def nth_append)
    have "slice_value f S'' s' = Some v" if "agree (length S) (length S') S' S''"
    proof -
      from that have "length S < length S'' \<and> S'' ! length S = take n (drop off (S ! b))"
        by (auto simp: agree_def out)
      with vs v b show ?thesis using assms [of S'' _ S] by (auto simp: out slice_value_iff)
    qed
    with out show ?thesis by simp
  qed
  then show "prefix S S'" and "agree (length S) (length S') S' S'' \<Longrightarrow> slice_value f S'' s' = Some v" by blast+
qed

section \<open>The types of the API\<close>

text \<open>A struct as an element of an array.\<close>

lemma copier_cell:
  assumes "deep_copier c v" and "\<And>S x. val S (con x) = v S x"
    and "\<And>S x. into (con x) S = (let (x, S) = c x S in (con x, S))"
    and "\<And>S y a. val S y = Some a \<Longrightarrow> \<exists>x. y = con x"
  shows "deep_copier into val"
proof
  fix S S' :: store and y a
  assume val: "val S y = Some a" and S': "agree 0 (length S) S S'"
  obtain x where y: "y = con x" using assms(4) [OF val] by blast
  from val have "v S x = Some a" by (simp add: y assms(2))
  from deep_copier.reads [OF assms(1) this S'] show "val S' y = Some a" by (simp add: y assms(2))
next
  fix S S' S'' :: store and y y' a
  assume val: "val S y = Some a" and copy: "into y S = (y', S')"
  obtain x where y: "y = con x" using assms(4) [OF val] by blast
  from val have v: "v S x = Some a" by (simp add: y assms(2))
  obtain x' S1 where c: "c x S = (x', S1)" by fastforce
  with copy have out: "y' = con x'" "S' = S1" by (simp_all add: y assms(3))
  show "prefix S S'" using deep_copier.grows [OF assms(1) v c] out by simp
  assume "agree (length S) (length S') S' S''"
  with deep_copier.fresh [OF assms(1) v c] show "val S'' y' = Some a" by (simp add: out assms(2))
qed

interpretation listener_slices: deep_copier "value_copy zero_listener" "slice_value listener_value"
  by (rule copier_values) (simp add: listener_value_def)

interpretation gateway_refs: deep_copier GatewayRef_DeepCopyInto gateway_value
  by (rule copier_via [OF listener_slices.deep_copier_axioms,
        where parts = gc_Listeners and rebuild = "\<lambda>g l. g\<lparr>gc_Listeners := l\<rparr>"
          and h = "\<lambda>g ls. (gc_Name g, gc_Namespace g, ls)"])
    (simp_all add: GatewayRef_DeepCopyInto_def gateway_value_def)

interpretation gateway_infos: deep_copier MCPGatewayInfo_DeepCopyInto info_value
  by (rule copier_via [OF gateway_refs.deep_copier_axioms,
        where parts = ic_Gateway and rebuild = "\<lambda>i g. i\<lparr>ic_Gateway := g\<rparr>"
          and h = "\<lambda>i g. (ic_Name i, ic_Namespace i, ic_Ready i, g)"])
    (simp_all add: MCPGatewayInfo_DeepCopyInto_def info_value_def)

interpretation info_cells: deep_copier info_into info_cell_value
  by (rule copier_cell [OF gateway_infos.deep_copier_axioms, where con = InfoCell])
    (auto simp: info_into_def info_cell_value_def split: cell.splits)

text \<open>What the code relies on of the library: its types are copied deeply as well.\<close>

definition library_laws :: "library \<Rightarrow> bool" where
  "library_laws L \<longleftrightarrow>
     deep_copier (l_ObjectMeta L) meta_value \<and> deep_copier (l_ListMeta L) (\<lambda>S m. Some m) \<and>
     deep_copier (l_Status L) platform_status_value \<and> deep_copier (l_Releases L) (slice_value release_value)"

lemma status_copier:
  assumes "library_laws L"
  shows "deep_copier (MCPLifecycleOperatorStatus_DeepCopyInto L) status_value"
proof (rule copier_via)
  show "deep_copier
      (both_copy (l_Status L) (both_copy (l_Releases L) (range_copy zero_info info_into)))
      (both_value platform_status_value (both_value (slice_value release_value) (slice_value info_cell_value)))"
    using assms unfolding library_laws_def
    by (intro copier_both copier_range info_cells.deep_copier_axioms) simp_all
  show "MCPLifecycleOperatorStatus_DeepCopyInto L s S =
     (let (y, S') = both_copy (l_Status L) (both_copy (l_Releases L) (range_copy zero_info info_into))
        (sc_Status s, sc_Releases s, sc_Gateways s) S
      in ((\<lambda>s (st, rs, gs). s\<lparr>sc_Status := st, sc_Releases := rs, sc_Gateways := gs\<rparr>) s y, S'))" for s S
    by (simp add: MCPLifecycleOperatorStatus_DeepCopyInto_def both_copy_def split: prod.split)
  show "status_value S s = map_option ((\<lambda>s (st, rs, gs). (st, rs, sc_Distribution s, gs)) s)
     (both_value platform_status_value (both_value (slice_value release_value) (slice_value info_cell_value))
        S (sc_Status s, sc_Releases s, sc_Gateways s))" for S s
    by (simp add: status_value_def)
qed (auto split: prod.splits)

lemma operator_copier:
  assumes "library_laws L"
  shows "deep_copier (MCPLifecycleOperator_DeepCopyInto L) operator_value"
proof (rule copier_via)
  show "deep_copier (both_copy (l_ObjectMeta L) (MCPLifecycleOperatorStatus_DeepCopyInto L))
      (both_value meta_value status_value)"
    using assms status_copier [OF assms] unfolding library_laws_def by (intro copier_both) simp_all
  show "MCPLifecycleOperator_DeepCopyInto L m S =
     (let (y, S') = both_copy (l_ObjectMeta L) (MCPLifecycleOperatorStatus_DeepCopyInto L)
        (oc_ObjectMeta m, oc_Status m) S
      in ((\<lambda>m (meta, st). m\<lparr>oc_ObjectMeta := meta, oc_Status := st\<rparr>) m y, S'))" for m S
    by (simp add: MCPLifecycleOperator_DeepCopyInto_def both_copy_def split: prod.split)
  show "operator_value S m = map_option ((\<lambda>m (meta, st). (oc_TypeMeta m, meta, oc_Spec m, st)) m)
     (both_value meta_value status_value S (oc_ObjectMeta m, oc_Status m))" for S m
    by (simp add: operator_value_def)
qed (auto split: prod.splits)

lemma operator_cell_copier:
  assumes "library_laws L"
  shows "deep_copier (operator_into L) operator_cell_value"
  by (rule copier_cell [OF operator_copier [OF assms], where con = OperatorCell])
    (auto simp: operator_into_def operator_cell_value_def split: cell.splits)

lemma list_copier:
  assumes "library_laws L"
  shows "deep_copier (MCPLifecycleOperatorList_DeepCopyInto L) list_value"
proof (rule copier_via)
  show "deep_copier (both_copy (l_ListMeta L) (range_copy zero_operator (operator_into L)))
      (both_value (\<lambda>S m. Some m) (slice_value operator_cell_value))"
    using assms unfolding library_laws_def
    by (intro copier_both copier_range operator_cell_copier [OF assms]) simp_all
  show "MCPLifecycleOperatorList_DeepCopyInto L l S =
     (let (y, S') = both_copy (l_ListMeta L) (range_copy zero_operator (operator_into L)) (lc_ListMeta l, lc_Items l) S
      in ((\<lambda>l (meta, items). l\<lparr>lc_ListMeta := meta, lc_Items := items\<rparr>) l y, S'))" for l S
    by (simp add: MCPLifecycleOperatorList_DeepCopyInto_def both_copy_def split: prod.split)
  show "list_value S l = map_option ((\<lambda>l (meta, items). (lc_TypeMeta l, meta, items)) l)
     (both_value (\<lambda>S m. Some m) (slice_value operator_cell_value) S (lc_ListMeta l, lc_Items l))" for S l
    by (simp add: list_value_def both_value_def option.map_comp comp_def)
qed (auto split: prod.splits)

section \<open>A library and a resource\<close>

definition value_library :: library where
  "value_library = \<lparr>
     l_ObjectMeta = (\<lambda>m S. let (ls, S) = value_copy (LabelCell ([], [])) (mc_Labels m) S in (m\<lparr>mc_Labels := ls\<rparr>, S)),
     l_ListMeta = Pair,
     l_Status = (\<lambda>s S. let (cs, S) = value_copy (ConditionCell \<lparr>ctype = [], cstatus = [], creason = [],
        cmessage = [], cobserved = 0, cseverity = []\<rparr>) (ps_Conditions s) S in (s\<lparr>ps_Conditions := cs\<rparr>, S)),
     l_Releases = value_copy (ReleaseCell \<lparr>rel_name = [], rel_repo_url = [], rel_version = []\<rparr>)\<rparr>"

lemma value_library_laws: "library_laws value_library"
  unfolding library_laws_def
proof (intro conjI)
  have labels: "deep_copier (value_copy (LabelCell ([], []))) (slice_value label_value)"
    by (rule copier_values) (simp add: label_value_def)
  show "deep_copier (l_ObjectMeta value_library) meta_value"
    by (rule copier_via [OF labels, where parts = mc_Labels and rebuild = "\<lambda>m ls. m\<lparr>mc_Labels := ls\<rparr>"
          and h = "\<lambda>m ls. (mc_Name m, mc_UID m, mc_Generation m, ls)"])
      (simp_all add: value_library_def meta_value_def)
  have conditions: "deep_copier (value_copy z) (slice_value condition_value)" for z
    by (rule copier_values) (simp add: condition_value_def)
  show "deep_copier (l_Status value_library) platform_status_value"
    by (rule copier_via [OF conditions, where parts = ps_Conditions and rebuild = "\<lambda>s cs. s\<lparr>ps_Conditions := cs\<rparr>"
          and h = "\<lambda>s cs. (ps_Phase s, ps_ObservedGeneration s, cs)"])
      (simp_all add: value_library_def platform_status_value_def)
  show "deep_copier (l_ListMeta value_library) (\<lambda>S m. Some m)"
    by unfold_locales (simp_all add: value_library_def)
  show "deep_copier (l_Releases value_library) (slice_value release_value)"
    by (simp add: value_library_def copier_values release_value_def)
qed

text \<open>A resource with one condition and one gateway, whose listeners are a part of a longer array.\<close>

definition stored_condition :: "string \<Rightarrow> cell" where
  "stored_condition s = ConditionCell \<lparr>ctype = ''Ready'', cstatus = s, creason = [], cmessage = [],
     cobserved = 1, cseverity = []\<rparr>"

definition sample_store :: store where
  "sample_store =
     [[stored_condition ''False''],
      [ListenerCell \<lparr>lr_name = ''a'', lr_hostname = ''x''\<rparr>, ListenerCell \<lparr>lr_name = ''b'', lr_hostname = ''y''\<rparr>],
      [InfoCell \<lparr>ic_Name = ''ext'', ic_Namespace = ''ns'', ic_Ready = True,
         ic_Gateway = \<lparr>gc_Name = ''gw'', gc_Namespace = ''ns'', gc_Listeners = Slice 1 1 1\<rparr>\<rparr>]]"

definition sample_operator :: operator_cell where
  "sample_operator = \<lparr>oc_TypeMeta = (''v1alpha1'', ''MCPLifecycleOperator''),
     oc_ObjectMeta = \<lparr>mc_Name = ''default'', mc_UID = ''uid'', mc_Generation = 3, mc_Labels = NilSlice\<rparr>,
     oc_Spec = \<lparr>sp_ManagementState = ''Managed''\<rparr>,
     oc_Status = \<lparr>sc_Status = \<lparr>ps_Phase = [], ps_ObservedGeneration = 2, ps_Conditions = Slice 0 0 1\<rparr>,
       sc_Releases = NilSlice, sc_Distribution = \<lparr>dist_name = [], dist_version = []\<rparr>,
       sc_Gateways = Slice 2 0 1\<rparr>\<rparr>"

section \<open>Properties\<close>

text \<open>
  C29: The copy of a resource taken before a reconcile, the base of the status patch, is independent
  of it: it has the value the resource had, and keeps it whatever is written afterwards into the
  arrays the resource refers to, its conditions, gateways, listeners and releases, in place or
  appended. In the same way the resource keeps its value whatever is written through the copy.
\<close>

theorem deep_copy_is_independent:
  assumes "library_laws L" and "operator_value S cr = Some v"
    and "MCPLifecycleOperator_DeepCopy L (Some cr) S = (copied, S')"
  shows "\<exists>orig. copied = Some orig \<and>
    (\<forall>S''. agree (length S) (length S') S' S'' \<longrightarrow> operator_value S'' orig = Some v) \<and>
    (\<forall>S''. agree 0 (length S) S' S'' \<longrightarrow> operator_value S'' cr = Some v)"
proof -
  note laws = operator_copier [OF assms(1)]
  from assms(3) obtain orig where copied: "copied = Some orig"
    and into: "MCPLifecycleOperator_DeepCopyInto L cr S = (orig, S')"
    by (auto simp: MCPLifecycleOperator_DeepCopy_def deep_copy_def split: prod.splits)
  have "prefix S S'" using deep_copier.grows [OF laws assms(2) into] .
  then have "agree 0 (length S) S S''" if "agree 0 (length S) S' S''" for S''
    using agree_step [OF _ that] by simp
  with deep_copier.reads [OF laws assms(2)] deep_copier.fresh [OF laws assms(2) into] copied
  show ?thesis by blast
qed

theorem deep_copy_is_independent_witness:
  "\<exists>v orig S'. operator_value sample_store sample_operator = Some v \<and>
     MCPLifecycleOperator_DeepCopy value_library (Some sample_operator) sample_store = (Some orig, S') \<and>
     operator_value (S'[0 := [stored_condition ''True''], 1 := []]) orig = Some v \<and>
     operator_value (S'[0 := [stored_condition ''True'']]) sample_operator \<noteq> Some v"
proof -
  obtain copied S' where copy: "MCPLifecycleOperator_DeepCopy value_library (Some sample_operator) sample_store
    = (copied, S')" by fastforce
  have "operator_value sample_store sample_operator \<noteq> None" by code_simp
  then obtain v where v: "operator_value sample_store sample_operator = Some v" by blast
  from deep_copy_is_independent [OF value_library_laws v copy] obtain orig where orig: "copied = Some orig"
    and keeps: "\<And>S''. agree (length sample_store) (length S') S' S'' \<Longrightarrow> operator_value S'' orig = Some v" by blast
  have "agree (length sample_store) (length S') S' (S'[0 := [stored_condition ''True''], 1 := []])"
    by (simp add: agree_def sample_store_def)
  note kept = keeps [OF this]
  have "case MCPLifecycleOperator_DeepCopy value_library (Some sample_operator) sample_store of
     (p, S') \<Rightarrow> operator_value (S'[0 := [stored_condition ''True'']]) sample_operator \<noteq>
       operator_value sample_store sample_operator" by code_simp
  with v copy kept orig show ?thesis by auto
qed

text \<open>
  The same holds of a list of resources and all its items: the copy is a value of its own, and nil
  is copied to nil.
\<close>

theorem deep_copied_list:
  assumes "library_laws L" and "list_value S l = Some v"
    and "MCPLifecycleOperatorList_DeepCopyObject L (Some l) S = (copied, S')"
  shows "MCPLifecycleOperatorList_DeepCopyObject L None S = (None, S) \<and>
    (\<exists>l'. copied = Some l' \<and>
      (\<forall>S''. agree (length S) (length S') S' S'' \<longrightarrow> list_value S'' l' = Some v))"
proof -
  from assms(3) obtain l' where "copied = Some l'" and into: "MCPLifecycleOperatorList_DeepCopyInto L l S = (l', S')"
    by (auto simp: MCPLifecycleOperatorList_DeepCopyObject_def MCPLifecycleOperatorList_DeepCopy_def deep_copy_def
        split: prod.splits)
  with deep_copier.fresh [OF list_copier [OF assms(1)] assms(2) into] show ?thesis
    by (simp add: MCPLifecycleOperatorList_DeepCopyObject_def MCPLifecycleOperatorList_DeepCopy_def deep_copy_def)
qed

end
