(* ===== verification/Spec2Isabelle.thy ===== *)
theory Spec2Isabelle
  imports Resource_Life Kustomize_Spec Embedded Deep_Copy
begin

text \<open>
  MCP Lifecycle Module Operator: a Kubernetes operator that deploys the MCP Lifecycle Operator (the
  ``operand'') for a platform and reports on it through one cluster-scoped custom resource,
  MCPLifecycleOperator. This development models the Go code under api/, internal/, cmd/ and
  tools/source-update/ as functions of HOL, and proves what the code promises.

  \<^bold>\<open>The program\<close>

  main (cmd/main.go) checks the environment, resolves the TLS configuration of the metrics listener,
  configures the manager's cache, and runs one controller (internal/controller) that reconciles the
  resource. A reconcile reads the platform's ConfigMap, then either removes everything (state
  Removed) or: discovers the MCP gateways, resolves the cluster's TLS policy, renders the embedded
  operand manifests (internal/manifests) with that policy, applies them, collects garbage, waits for
  the operand's Deployments, checks once per distribution that every stored MCPServer can be listed
  at v1beta1, publishes the distribution, and drives a StorageVersionMigration of the stored
  objects. The outcome is a set of conditions, a phase, the releases, the distribution and the
  gateways in the status (api/v1alpha1), patched at the end.

  The embedded manifests and the default image come from the developer's tool tools/source-update.
  Its command update resolves a reference of the operand's repository to a commit, finds in the
  registry the image that was built from it, generates the manifests from the sources at that
  commit, and installs them, the pinned module version and the record of the image all together or
  not at all. Its command verify generates again and compares.

  \<^bold>\<open>The theories: the operator\<close>

  \<^item> Go_Prelude: Go strings, decimal conversion, error chains, dynamically typed values; the named
    theorem collections; generic lemmas. Go_JSON: how encoding/json fills Go values.
  \<^item> Platform_API: the resource (mcplifecycleoperator_types.go, groupversion_info.go). A struct is
    a record with the fields the sources use; a Go int of the API is an int.
  \<^item> Conditions: ConditionsManager (mcplifecycleoperator_lifecycle.go): Mark*, AggregateReady,
    Phase. The condition store is the parameter \<open>conditions_api\<close>.
  \<^item> Unstructured: the accessors of unstructured objects, a parameter with laws over paths.
  \<^item> Upsert: the contract of the ``set or append'' loops, as locales, interpreted in Kustomize for
    environment variables and flags, and in Source_Checks for the environment of child processes.
  \<^item> Kustomize, Kustomize_Spec: internal/manifests: loading the embedded YAML and the six
    transformers, and what the rendered manifests satisfy.
  \<^item> Kube_Client: the calls to the API server, as functions on a world of any type; Cluster: an
    executable instance with fault injection, on which the contracts are interpreted and the
    witnesses run.
  \<^item> Storage_Migration, Migration_Spec: storage_migration.go, and its refinement to a machine with
    one object (\<open>move_step\<close>).
  \<^item> Gateway_Discovery: gateway_discovery.go: extensions, listeners, watch registration; what is
    published as a relation on the items read (\<open>discovered\<close>), and the life of the watches over a
    client that records what it is asked for (\<open>watch_life\<close>).
  \<^item> TLS_Config: tls.go: the policy handed to the operand and the metrics listener's options.
  \<^item> Readiness: the deployments gate and the conversion gate, with their common contract, the
    locale \<open>readiness_gate\<close>.
  \<^item> Reconciler, Reconcile_Spec: mcplifecycleoperator_reconciler.go: Reconcile, its stages, and the
    watches; the relation \<open>outcome\<close> of the three ways a managed reconcile ends.
  \<^item> Operator_Main: cmd/main.go: the transform of cached CRDs, the cache (its contract is the locale
    \<open>informer_cache\<close>), and the start of the operator up to the run of the manager.
  \<^item> Sample: concrete inputs for the witnesses.
  \<^item> Resource_Life: the schema of the CRD (config/crd/bases) as a predicate, and the resource from
    its creation on: the step relation \<open>evolves\<close> of edits and reconciles, the reachable resources
    \<open>life\<close>, and their invariants.
  \<^item> Deep_Copy: zz_generated.deepcopy.go over an explicit store, where a slice refers to an array; its
    contract, the locale \<open>deep_copier\<close>, is proved type by type. Elsewhere resources are values.

  \<^bold>\<open>The theories: tools/source-update\<close>

  \<^item> File_System: the calls of package os the tool makes, on a file system that carries the answers
    the operating system will give, so that any call may fail.
  \<^item> Install, Install_Swap, Install_Spec: install.go: staging, swapping, rolling back, cleaning up; what
    each step may change (the locale \<open>territorial\<close>); all or nothing.
  \<^item> Image_Pin, Registry, Registry_Spec: image.go: the record of the image, and how an image is
    resolved from the registry.
  \<^item> Source_Pin, Source_Generate: source.go and generate.go: the pin in go.mod, child processes and
    their environment, commits, generating in a stage.
  \<^item> Source_Update, Source_Sync: update.go and main.go: trees and their differences, snapshots, the
    transaction of an update, and the two commands.
  \<^item> Source_Undo, Source_Spec: the update as a transaction: what it installs, and how it is undone.
  \<^item> Source_Checks: the pin of go.mod, the environment of the generators, the comparison of trees.
  \<^item> Source_Publish, Source_Round: what the commands achieve as a whole: what an update publishes,
    what verify accepts, and that verify accepts what an update published.
  \<^item> Embedded: embed.go: what the go command embeds of the repository; where the tool's installer
    becomes the operator's manifests.

  \<^bold>\<open>State, effects and errors\<close>

  A pointer receiver that a method writes through is a value that is taken and returned: the
  resource \<open>cr\<close>, the condition list, the watch flags. Calls to the cluster thread the world \<open>w\<close>;
  its type is a variable, so \<open>w' = w\<close> says that no call was made. The tool threads a file system \<open>fs\<close>
  and the world of the registry. A Go pair (value, error) is a \<open>result\<close>, a lone error an option; a
  wrapped error keeps its chain (\<open>Wrapped\<close>). Unstructured objects are association lists of \<open>gval\<close>.
  Logging, what the tool prints for its reader, and the time stamps of conditions are left out.

  \<^bold>\<open>Parameters and their laws\<close>

  Code outside the repository is an argument of the definitions that use it, gathered in records:
  \<open>platform\<close> (the Kubernetes clients, unstructured accessors, manifestival, the YAML and JSON
  decoders, the TLS framework, the condition store), \<open>host\<close> (the environment, the command line, the
  manager), \<open>registry_api\<close> (the HTTP client, SHA-256, the parsers of URLs and JSON) and \<open>toolchain\<close>
  (child processes, golang.org/x/mod, go/version, symbolic links), and \<open>library\<close> (the deep copies of
  the types of the libraries). The laws state documented
  behaviour: reading what was set, keeping what was not; a Transform that maps the transformers over
  the resources; an API server that stores a created object and loses a deleted one
  (\<open>migration_store\<close>); go commands that change go.mod and go.sum of their module only (\<open>go_tool\<close>);
  generators that are reproducible and confined to their stage (\<open>reliable\<close>). Each is shown to hold
  of an implementation: \<open>list_conditions\<close>, \<open>json_unstructured\<close>, \<open>simulated\<close>, \<open>sample_tools\<close>,
  \<open>desk_tools\<close> and the like. Those are not models of the libraries; they show that the laws are
  consistent, and let witnesses evaluate.

  \<^bold>\<open>The groups of properties\<close>

  \<^item> C1, C2, C14, C24, C25, C27, C28, C38: a reconcile as a whole: the distribution, Ready and the
    conversion marker are reached only through the gates; removal; releases; termination; requeues;
    the steady state.
  \<^item> C4, C6, C15: every reachable resource: its status is coherent, satisfies the schema, and keeps the
    signals of a verified conversion and of a completed migration. C29: the copy of a resource that a
    reconcile patches against is independent of it.
  \<^item> C5, C31, C32: the manifests: every resource patched by all transformers, and what each
    transformer refuses and leaves alone.
  \<^item> C7, C11, C19, C30, C39: the storage migration refines its machine; the retry budget; the completion
    signal; requeues; what happens when the object is lost between delete and create.
  \<^item> C20, C21, C26: the two gates, and the folding of conditions into Ready, ProvisioningSucceeded and
    Degraded.
  \<^item> C33, C34, C35: gateway discovery, its watches, and the TLS policy.
  \<^item> C36, C37: the start of the operator, and the agreement of its cache with its watches.
  \<^item> C3, C8, C17: installing and undoing: an update happens completely or not at all.
  \<^item> C9, C18, C40: the registry: what a resolved image is, whom the tool trusts, and the record of the pin.
  \<^item> C10, C12, C13, C16, C22, C23: what update publishes, that the operator applies it, what verify
    accepts, and that it accepts what was published; trees and the pin.

  Other theorems of the same theories state smaller facts: the message a Deployment is reported with,
  the platform configuration, garbage collection, the events that request a reconcile, secure metrics,
  the environment of the generators, a conversion check that does not end, the frames of a container
  patch and of a migration step, the gateways a failed discovery keeps, the outputs of a successful
  update, the cached CRDs, and the copies of lists.

  \<^bold>\<open>Bounds\<close>

  The page loop of the conversion check has no bound in the code, so \<open>conversionLoop\<close> is a partial
  function: None stands for a run that does not return. It returns whenever continue tokens descend
  in some rank (\<open>paging_ends\<close>), with at most 3 restarts (C27); a server that always returns one
  more token keeps it going for ever. Everything else is total: the names of temporary files and
  directories are drawn at most 10000 times, as package os does, at most 128 children of an image
  index are checked, and a response of the registry or a pin is read up to 8 MiB. Attempts of the
  storage migration are decimal machine integers (\<open>Atoi\<close> in the 64-bit range); the budget is 5.
  Permissions are 9 bit words.

  \<^bold>\<open>Not modelled\<close>

  The registration of Go types with a scheme beyond its order and failure, the options of the logger
  and the deployer, symbolic links in the tool's trees, a status patch that mixes with another
  writer's (the reconciler is the only one), and the test harness, which only drives a cluster.
\<close>

section \<open>Reconciling the custom resource\<close>

text \<open>
  C1: The distribution in the status, which the platform compares with its configuration to see
  an upgrade completed, changes only in a managed reconcile without error, only to the
  distribution of an available platform configuration, and only after the manifests were applied,
  every Deployment among them was read with its replicas available, and the conversion check
  listed all pages of the stored MCPServers at v1beta1.
\<close>

theorem distribution_committed_after_gates:
  assumes "reconcile P r cr w = Some (r', res, err, cr', w')"
    and "st_distribution (cr_status cr') \<noteq> st_distribution (cr_status cr)"
    and "prepared P r cr w = (pc, r1, cr1, w1)"
  shows "cr_management_state cr \<noteq> Removed \<and> err = None \<and> pc_Available pc \<and>
    st_distribution (cr_status cr') =
      \<lparr>dist_name = pc_DistributionName pc, dist_version = pc_DistributionVersion pc\<rparr> \<and>
    (\<exists>tls w2 w3. operand_up P r1 cr1 w1 tls w2 \<and> conversion_listed P (manager_of P cr) cr1 w2 w3)"
proof -
  have m: "cr_management_state cr \<noteq> Removed"
    using assms(2) removed_keeps_distribution [OF assms(1)] by blast
  obtain cr2 where o: "outcome P r1 (manager_of P cr) pc cr1 w1 (res, err, cr2, w')"
    and cr': "cr' = updateBaseStatus r (manager_of P cr) pc cr2"
    using reconcile_outcome [OF assms(1) m assms(3)] .
  have "st_distribution (cr_status cr2) \<noteq> st_distribution (cr_status cr1)"
    using assms(2) prepared_frame(6) [OF assms(3)] cr' by simp
  from outcome_distribution [OF o this] show ?thesis using cr' m by simp
qed

theorem distribution_committed_after_gates_witness:
  "\<exists>r' res cr' w' pc r1 cr1 w1 tls w2 w3.
     reconcile (sample_platform False) sample_reconciler (sample_cr ''Managed'') (sample_cluster 1)
       = Some (r', res, None, cr', w') \<and>
     prepared (sample_platform False) sample_reconciler (sample_cr ''Managed'') (sample_cluster 1)
       = (pc, r1, cr1, w1) \<and>
     operand_up (sample_platform False) r1 cr1 w1 tls w2 \<and>
     conversion_listed (sample_platform False) (manager_of (sample_platform False) (sample_cr ''Managed''))
       cr1 w2 w3"
proof -
  obtain r' res err cr' w' where run:
    "reconcile (sample_platform False) sample_reconciler (sample_cr ''Managed'') (sample_cluster 1)
      = Some (r', res, err, cr', w')"
    and "err = None" and "st_distribution (cr_status cr') = \<lparr>dist_name = ''Standalone'', dist_version = ''1.2.0''\<rparr>"
    using sample_run_obtain [OF sample_passes] by metis
  obtain pc r1 cr1 w1 where prep:
    "prepared (sample_platform False) sample_reconciler (sample_cr ''Managed'') (sample_cluster 1)
      = (pc, r1, cr1, w1)" by (metis prod_cases4)
  have "st_distribution (cr_status cr') \<noteq> st_distribution (cr_status (sample_cr ''Managed''))"
    using \<open>st_distribution (cr_status cr') = _\<close> by (simp add: sample_cr_def)
  then show ?thesis
    using distribution_committed_after_gates [OF run _ prep] run prep \<open>err = None\<close> by blast
qed

text \<open>
  C2: A managed reconcile reports the phase Ready exactly when both gates passed; availability,
  Ready and ProvisioningSucceeded then are all True and there was no error. Otherwise all three
  are False. In either case Degraded is False, and the conditions keep one entry per type.
\<close>

theorem ready_exactly_after_gates:
  assumes "conditions_laws (pl_conditions P)" and "one_per_type (GetConditions cr)"
    and "cr_management_state cr \<noteq> Removed"
    and "reconcile P r cr w = Some (r', res, err, cr', w')"
    and "prepared P r cr w = (pc, r1, cr1, w1)"
  shows "(st_phase (cr_status cr') = PhaseReady \<longleftrightarrow> gates_passed P r1 (manager_of P cr) pc cr1 w1) \<and>
    (if st_phase (cr_status cr') = PhaseReady then err = None \<and> all_three (manager_of P cr) cr' ConditionTrue
     else all_three (manager_of P cr) cr' ConditionFalse) \<and>
    not_degraded (manager_of P cr) cr' \<and> one_per_type (GetConditions cr')"
proof -
  let ?cm = "manager_of P cr"
  have lib: "conditions_lib ?cm" using assms(1) by (rule manager_laws)
  obtain cr2 where o: "outcome P r1 ?cm pc cr1 w1 (res, err, cr2, w')"
    and cr': "cr' = updateBaseStatus r ?cm pc cr2" and "r' = r1"
    using reconcile_outcome [OF assms(4,3,5)] .
  have one: "one_per_type (GetConditions cr1)" using assms(2) prepared_frame(7) [OF assms(5)] by simp
  have phase: "st_phase (cr_status cr') = PhaseReady \<longleftrightarrow> status_is ?cm (GetConditions cr2) ConditionTypeReady ConditionTrue"
    unfolding cr' by (rule base_phase) (simp add: assms(1))
  have app: "\<exists>cr3. applyReconcile P r1 ?cm pc cr1 w1 = Some (res, err, cr3, w') \<and> cr' = updateBaseStatus r ?cm pc cr3"
    using assms(4) by (auto simp: reconcile_managed [OF assms(3)] assms(5) split: option.splits)
  have true: "all_three ?cm cr' ConditionTrue" if "gates_passed P r1 ?cm pc cr1 w1"
    using conditions_lib.gates_available [OF lib that _ one] app by auto
  have ready: "status_is ?cm (GetConditions cr2) ConditionTypeReady ConditionTrue \<longleftrightarrow> all_three ?cm cr2 ConditionTrue"
    using conditions_lib.outcome_conditions(3) [OF lib o one]
    by (auto simp: all_three_def status_is_def)
  show ?thesis
    using conditions_lib.outcome_conditions [OF lib o one] true phase ready
      all_three_exclusive [of ?cm cr2 ConditionFalse ConditionTrue]
    by (auto simp: cr')
qed

theorem ready_exactly_after_gates_witness:
  "\<exists>r' res cr' w' pc r1 cr1 w1.
     reconcile (sample_platform False) sample_reconciler (sample_cr ''Managed'') (sample_cluster 0)
       = Some (r', res, None, cr', w') \<and>
     prepared (sample_platform False) sample_reconciler (sample_cr ''Managed'') (sample_cluster 0)
       = (pc, r1, cr1, w1) \<and>
     \<not> gates_passed (sample_platform False) r1 (manager_of (sample_platform False) (sample_cr ''Managed''))
         pc cr1 w1"
proof -
  obtain r' res err cr' w' where run:
    "reconcile (sample_platform False) sample_reconciler (sample_cr ''Managed'') (sample_cluster 0)
      = Some (r', res, err, cr', w')"
    and "err = None" and phase: "st_phase (cr_status cr') = ''Not Ready''"
    using sample_run_obtain [OF sample_held] by metis
  obtain pc r1 cr1 w1 where prep:
    "prepared (sample_platform False) sample_reconciler (sample_cr ''Managed'') (sample_cluster 0)
      = (pc, r1, cr1, w1)" by (metis prod_cases4)
  have managed: "cr_management_state (sample_cr ''Managed'') \<noteq> Removed"
    by (simp add: sample_cr_def Removed_def)
  from phase have "st_phase (cr_status cr') \<noteq> PhaseReady" by (simp add: PhaseReady_def)
  with ready_exactly_after_gates [OF sample_laws(1) sample_one_per_type managed run prep]
  have "\<not> gates_passed (sample_platform False) r1 (manager_of (sample_platform False) (sample_cr ''Managed''))
      pc cr1 w1" by blast
  with run prep \<open>err = None\<close> show ?thesis by blast
qed



text \<open>
  C25: In every reconcile, failed ones included, the releases follow the status: with an available
  platform configuration they are the module's own release and, when the status has a
  distribution version, a platform release of exactly that version; without one they are kept.
\<close>

theorem releases_follow_distribution:
  assumes "reconcile P r cr w = Some (r', res, err, cr', w')"
    and "getPlatformConfig (pl_kube P) r w = (pc, w1)"
  shows "if pc_Available pc then
      map (\<lambda>rel. (rel_name rel, rel_version rel)) (st_releases (cr_status cr')) =
        (MCPLifecycleOperatorServiceName, r_OperatorVersion r) #
        (let v = dist_version (st_distribution (cr_status cr'))
         in if v = [] then [] else [(platformReleaseName, v)])
    else st_releases (cr_status cr') = st_releases (cr_status cr)"
proof -
  obtain cr1 where cr': "cr' = updateBaseStatus r (manager_of P cr) pc cr1"
    and keep: "st_releases (cr_status cr1) = st_releases (cr_status cr)"
  proof (cases "cr_management_state cr = Removed")
    case True
    with reconcile_removed [OF assms(1)] assms(2) that show thesis
      by (auto simp: handleRemoved_def markRemoved_def Let_def split: prod.splits option.splits if_splits)
  next
    case False
    obtain pc' r1 cr0 w0 where p: "prepared P r cr w = (pc', r1, cr0, w0)" by (metis prod_cases4)
    from reconcile_outcome [OF assms(1) False p] obtain cr2
      where "outcome P r1 (manager_of P cr) pc' cr0 w0 (res, err, cr2, w')"
        and "cr' = updateBaseStatus r (manager_of P cr) pc' cr2" .
    with outcome_releases [of P r1 _ pc' cr0] prepared_frame(1) [OF p] prepared_releases [OF p] assms(2) that
    show thesis by simp
  qed
  show ?thesis
    using keep by (simp add: cr' updateBaseStatus_def setReleases_def SetReleaseStatus_def Let_def)
qed

theorem releases_follow_distribution_witness:
  "\<exists>r' res cr' w'.
     reconcile (sample_platform False) sample_reconciler (sample_cr ''Managed'') (sample_cluster 0)
       = Some (r', res, None, cr', w') \<and>
     map (\<lambda>rel. (rel_name rel, rel_version rel)) (st_releases (cr_status cr')) =
       [(''mcplifecycleoperator'', ''1.2.0''), (''platform'', ''1.1.0'')]"
proof -
  obtain r' res err cr' w' where run:
    "reconcile (sample_platform False) sample_reconciler (sample_cr ''Managed'') (sample_cluster 0)
      = Some (r', res, err, cr', w')" and "err = None"
    and d: "st_distribution (cr_status cr') = \<lparr>dist_name = ''Standalone'', dist_version = ''1.1.0''\<rparr>"
    using sample_run_obtain [OF sample_held] by metis
  obtain pc w1 where 1: "getPlatformConfig (pl_kube (sample_platform False)) sample_reconciler (sample_cluster 0)
    = (pc, w1)" by fastforce
  have "pc_Available (fst (getPlatformConfig (pl_kube (sample_platform False)) sample_reconciler (sample_cluster 0)))"
    by code_simp
  with releases_follow_distribution [OF run 1] 1 d run \<open>err = None\<close> show ?thesis
    by (simp add: MCPLifecycleOperatorServiceName_def platformReleaseName_def sample_reconciler_def)
qed

text \<open>
  C14: The ConversionVerified marker, which lets later reconciles skip the cluster-wide LIST, is
  written only by a reconcile without error in which the operand came up and the conversion check
  listed every page; it is then True for the reconciled generation.
\<close>

theorem conversion_marker_earned:
  assumes "conditions_laws (pl_conditions P)"
    and "reconcile P r cr w = Some (r', res, err, cr', w')"
    and "prepared P r cr w = (pc, r1, cr1, w1)"
    and "observed (manager_of P cr) (GetConditions cr') ConditionMCPServerConversionVerified \<noteq>
      observed (manager_of P cr) (GetConditions cr) ConditionMCPServerConversionVerified"
  shows "cr_management_state cr \<noteq> Removed \<and> err = None \<and>
    observed (manager_of P cr) (GetConditions cr') ConditionMCPServerConversionVerified =
      Some (ConditionTrue, ''ConversionVerified'', [], cr_generation cr) \<and>
    (\<exists>tls w2 w3. operand_up P r1 cr1 w1 tls w2 \<and> conversion_listed P (manager_of P cr) cr1 w2 w3)"
proof -
  have m: "cr_management_state cr \<noteq> Removed"
    using assms(4) conditions_lib.removed_keeps_signal [OF manager_laws [OF assms(1)] assms(2) _ refl]
    by (auto simp: durable_signals_def)
  obtain cr2 where o: "outcome P r1 (manager_of P cr) pc cr1 w1 (res, err, cr2, w')"
    and cr': "cr' = updateBaseStatus r (manager_of P cr) pc cr2"
    using reconcile_outcome [OF assms(2) m assms(3)] .
  from conditions_lib.outcome_verified [OF manager_laws [OF assms(1)] o] assms(4) prepared_frame(7) [OF assms(3)]
  show ?thesis by (auto simp: cr' m)
qed

theorem conversion_marker_earned_witness:
  "\<exists>r' res cr' w' pc r1 cr1 w1 tls w2 w3.
     reconcile (sample_platform False) sample_reconciler (sample_cr ''Managed'') (sample_cluster 1)
       = Some (r', res, None, cr', w') \<and>
     conversion_listed (sample_platform False) (manager_of (sample_platform False) (sample_cr ''Managed''))
       cr1 w2 w3 \<and>
     operand_up (sample_platform False) r1 cr1 w1 tls w2"
proof -
  obtain r' res err cr' w' where run:
    "reconcile (sample_platform False) sample_reconciler (sample_cr ''Managed'') (sample_cluster 1)
      = Some (r', res, err, cr', w')"
    and "err = None" and v: "lib_is_true list_conditions (GetConditions cr') ConditionMCPServerConversionVerified"
    using sample_run_obtain [OF sample_passes] by metis
  obtain pc r1 cr1 w1 where prep:
    "prepared (sample_platform False) sample_reconciler (sample_cr ''Managed'') (sample_cluster 1)
      = (pc, r1, cr1, w1)" by (metis prod_cases4)
  let ?cm = "manager_of (sample_platform False) (sample_cr ''Managed'')"
  have lib: "pl_conditions (sample_platform False) = list_conditions" by (simp add: sample_platform_def)
  have "observed ?cm (GetConditions (sample_cr ''Managed'')) ConditionMCPServerConversionVerified = None"
    by (simp add: observed_def lib list_conditions_def GetConditions_def sample_cr_def)
  moreover have "observed ?cm (GetConditions cr') ConditionMCPServerConversionVerified \<noteq> None"
    using v by (auto simp: observed_def lib list_conditions_def)
  ultimately have "observed ?cm (GetConditions cr') ConditionMCPServerConversionVerified \<noteq>
    observed ?cm (GetConditions (sample_cr ''Managed'')) ConditionMCPServerConversionVerified" by simp
  then show ?thesis
    using conversion_marker_earned [OF sample_laws(1) run prep] run \<open>err = None\<close> by blast
qed

text \<open>
  C38: With a settled handshake and a settled storage migration, a reconcile of an operand that is
  up makes no further call: the world stays as the deployments check left it, no MCPServer is
  listed, and the result asks for a requeue only for a transient TLS fallback.
\<close>

theorem steady_state_makes_no_calls:
  assumes "conditions_laws (cm_lib cm)" and "operand_up P r cr w tls w1"
    and "conversionHandshakeSettled (cm_lib cm) cr pc" and "storageMigrationSucceeded (cm_lib cm) cr"
  shows "applyReconcile P r cm pc cr w =
    Some (withFallbackRequeue tls emptyResult, None, markAvailable cm pc cr, w1)"
  using conditions_lib.steady_apply [OF conditions_lib.intro [OF assms(1)] assms(2-4)] .

theorem steady_state_makes_no_calls_witness:
  "\<exists>tls w1. applyReconcile (sample_platform True) sample_reconciler
       (manager_of (sample_platform True) settled_cr) sample_config settled_cr (sample_cluster 1) =
     Some (withFallbackRequeue tls emptyResult, None,
       markAvailable (manager_of (sample_platform True) settled_cr) sample_config settled_cr, w1)"
proof -
  obtain tls w1 where up: "operand_up (sample_platform True) sample_reconciler settled_cr (sample_cluster 1) tls w1"
    using settled_up by blast
  have "cm_lib (manager_of (sample_platform True) settled_cr) = list_conditions"
    by (simp add: sample_platform_def)
  then show ?thesis
    using steady_state_makes_no_calls [of "manager_of (sample_platform True) settled_cr", OF _ up]
      list_conditions_laws settled_handshake settled_migration by auto
qed

text \<open>
  C28: While the TLS policy was read through a transient fallback, a managed reconcile that ends
  without error always comes back: its result asks for a requeue, also when the operand is ready
  and the migration is done.
\<close>

theorem transient_fallback_requeues:
  assumes "ResolveTLSConfig (pl_tls P) w = (Inr tls, w1)" and "rt_UsedTransientFallback tls"
    and "applyReconcile P r cm pc cr w = Some (res, None, cr', w')"
  shows "RequeueAfter res \<noteq> 0"
  using apply_outcome [OF assms(3)]
proof cases
  case (held tls' desired w2 reason message)
  then show ?thesis by (simp add: defaultRequeueDelay_def Second_def)
next
  case (settled tls' w2 res')
  with assms(1,2) show ?thesis
    by (auto simp: operand_up_def applied_def withFallbackRequeue_def defaultRequeueDelay_def Second_def)
next
  case (verified tls' w2 w3 res')
  with assms(1,2) show ?thesis
    by (auto simp: operand_up_def applied_def withFallbackRequeue_def defaultRequeueDelay_def Second_def)
qed

theorem transient_fallback_requeues_witness:
  "\<exists>res cr' w'. applyReconcile (sample_platform True) sample_reconciler
       (manager_of (sample_platform True) settled_cr) sample_config settled_cr (sample_cluster 1) =
     Some (res, None, cr', w') \<and> RequeueAfter res \<noteq> 0"
proof -
  let ?out = "applyReconcile (sample_platform True) sample_reconciler
       (manager_of (sample_platform True) settled_cr) sample_config settled_cr (sample_cluster 1)"
  have "map_option (\<lambda>(res, err, cr, w). err = None) ?out = Some True" by code_simp
  then obtain res cr' w' where out: "?out = Some (res, None, cr', w')" by auto
  have "case fst (ResolveTLSConfig (pl_tls (sample_platform True)) (sample_cluster 1)) of
      Inl e \<Rightarrow> False | Inr tls \<Rightarrow> rt_UsedTransientFallback tls" by code_simp
  then obtain tls w1 where
    "ResolveTLSConfig (pl_tls (sample_platform True)) (sample_cluster 1) = (Inr tls, w1)"
    and "rt_UsedTransientFallback tls"
    by (cases "ResolveTLSConfig (pl_tls (sample_platform True)) (sample_cluster 1)") (auto split: sum.splits)
  from transient_fallback_requeues [OF this out] out show ?thesis by blast
qed

text \<open>
  C27: A reconcile returns whenever the server's paging ends, that is when some rank of the
  continue tokens falls from page to page: the bounded restarts and everything else end by
  themselves.
\<close>

theorem reconcile_returns:
  assumes "paging_ends (pl_kube P) rank"
  shows "Reconcile P r name w \<noteq> None"
proof -
  have check: "checkConversionHealth (pl_kube P) cm cr w \<noteq> None" for cm cr w
    unfolding checkConversionHealth_def by (rule conversion_loop_returns [OF assms])
  have gated: "gatedReconcile P cm pc tls desired cr w \<noteq> None" for cm pc tls desired cr w
    by (simp add: gatedReconcile_def check del: not_None_eq split: prod.splits option.splits)
  have manifests: "applyReconcile P r cm pc cr w \<noteq> None" for r cm pc cr w
    by (simp add: applyReconcile_def gated del: not_None_eq split: prod.splits sum.splits option.splits)
  have body: "reconcile P r cr w \<noteq> None" for cr w
    by (simp add: reconcile_def Let_def manifests del: not_None_eq split: prod.splits option.splits)
  show ?thesis
    by (simp add: Reconcile_def body del: not_None_eq split: prod.splits sum.splits option.splits)
qed

theorem reconcile_returns_witness:
  "Reconcile (sample_platform False) sample_reconciler ''default'' (sample_cluster 1) \<noteq> None"
proof (rule reconcile_returns)
  show "paging_ends (pl_kube (sample_platform False)) (\<lambda>_. 0)"
    by (auto simp: paging_ends_def sample_platform_def simulated_def cluster_list_def split: option.splits)
qed

text \<open>
  A failed gateway discovery keeps the gateways the status had; one that worked publishes
  exactly what it found, whatever the rest of the reconcile does.
\<close>

theorem gateways_published_or_kept:
  assumes "reconcile P r cr w = Some (r', res, err, cr', w')" and "cr_management_state cr \<noteq> Removed"
    and "getPlatformConfig (pl_kube P) r w = (pc, w1)"
    and "discoverMCPGateways (pl_kube P) (pl_unstructured P) (pl_json P) w1 = (found, w2)"
  shows "st_gateways (cr_status cr') =
    (case found of Inl e \<Rightarrow> st_gateways (cr_status cr) | Inr gateways \<Rightarrow> gateways)"
proof -
  obtain pc' r1 cr1 w3 where p: "prepared P r cr w = (pc', r1, cr1, w3)" by (metis prod_cases4)
  from reconcile_outcome [OF assms(1,2) p] obtain cr2
    where o: "outcome P r1 (manager_of P cr) pc' cr1 w3 (res, err, cr2, w')"
      and cr': "cr' = updateBaseStatus r (manager_of P cr) pc' cr2" .
  from p assms(3,4) have "cr1 = setGateways found cr" by (auto simp: prepared_def split: prod.splits)
  with outcome_frame [OF o] cr' show ?thesis by (auto simp: setGateways_def split: sum.splits)
qed

theorem gateways_published_or_kept_witness:
  "\<exists>r' res err cr' w'.
     reconcile (sample_platform False) sample_reconciler gateway_cr refusing_cluster =
       Some (r', res, err, cr', w') \<and> st_gateways (cr_status cr') = st_gateways (cr_status gateway_cr)"
proof -
  obtain r' res err cr' w' where run: "reconcile (sample_platform False) sample_reconciler gateway_cr
      refusing_cluster = Some (r', res, err, cr', w')"
    using refusing_returns by (metis option.exhaust prod_cases5)
  obtain pc w1 where 1: "getPlatformConfig (pl_kube (sample_platform False)) sample_reconciler refusing_cluster
    = (pc, w1)" by fastforce
  obtain found w2 where 2: "discoverMCPGateways (pl_kube (sample_platform False))
      (pl_unstructured (sample_platform False)) (pl_json (sample_platform False)) w1 = (found, w2)"
    by fastforce
  have "\<exists>e. found = Inl e"
    using refusing_discovery 1 2 by (simp add: sample_platform_def split: sum.splits)
  moreover have "cr_management_state gateway_cr \<noteq> Removed"
    by (simp add: gateway_cr_def sample_cr_def Removed_def)
  ultimately show ?thesis using gateways_published_or_kept [OF run _ 1 2] run by auto
qed

text \<open>
  Every reconcile records the generation it worked on, and touches nothing but the status:
  name, UID, generation and management state stay as they were.
\<close>

theorem observed_generation_recorded:
  assumes "reconcile P r cr w = Some (r', res, err, cr', w')"
  shows "st_observed_generation (cr_status cr') = cr_generation cr \<and> cr_name cr' = cr_name cr \<and>
    cr_uid cr' = cr_uid cr \<and> cr_generation cr' = cr_generation cr \<and>
    cr_management_state cr' = cr_management_state cr"
proof (cases "cr_management_state cr = Removed")
  case True
  from reconcile_removed [OF assms True] show ?thesis
    by (auto simp: handleRemoved_def markRemoved_def Let_def split: prod.splits option.splits if_splits)
next
  case False
  obtain pc r1 cr1 w1 where p: "prepared P r cr w = (pc, r1, cr1, w1)" by (metis prod_cases4)
  from reconcile_outcome [OF assms False p] obtain cr2
    where o: "outcome P r1 (manager_of P cr) pc cr1 w1 (res, err, cr2, w')"
      and cr': "cr' = updateBaseStatus r (manager_of P cr) pc cr2" .
  from outcome_frame [OF o] prepared_frame [OF p] cr' show ?thesis by simp
qed

theorem observed_generation_recorded_witness:
  "\<exists>r' res err cr' w'.
     reconcile (sample_platform False) sample_reconciler gateway_cr refusing_cluster =
       Some (r', res, err, cr', w') \<and> st_observed_generation (cr_status cr') = 3"
proof -
  obtain r' res err cr' w' where run: "reconcile (sample_platform False) sample_reconciler gateway_cr
      refusing_cluster = Some (r', res, err, cr', w')"
    using refusing_returns by (metis option.exhaust prod_cases5)
  from observed_generation_recorded [OF run] run show ?thesis
    by (auto simp: gateway_cr_def sample_cr_def)
qed

text \<open>
  Garbage collection after a deployment considers only objects of the operand namespace that
  carry the module's label, owned or not, and among them selects exactly those that no desired
  resource has the kind, namespace and name of.
\<close>

theorem garbage_spares_desired:
  shows "(gc_predicate (garbageConfig U r ns desired) obj \<longleftrightarrow>
      resourceKey U obj \<notin> resourceKey U ` set desired) \<and>
    gc_namespace (garbageConfig U r ns desired) = ns \<and>
    gc_label (garbageConfig U r ns desired) = (PlatformPartOf, MCPLifecycleOperatorServiceName) \<and>
    \<not> gc_only_owned (garbageConfig U r ns desired) \<and>
    gc_label (ownedConfig r) = gc_label (garbageConfig U r ns desired) \<and>
    gc_namespace (ownedConfig r) = r_PodNamespace r \<and> gc_predicate (ownedConfig r) obj"
  by (simp add: garbageConfig_def ownedConfig_def resolveOperandNamespace_def Let_def)

text \<open>
  The platform configuration: a ConfigMap that cannot be read for another reason than being
  absent makes it unavailable; an absent one stands for a standalone installation at the operator's
  own version; a present one names the distribution, and its version is the distribution's, else
  the platform's, else the operator's, each only if not empty.
\<close>

theorem platform_config_choice:
  assumes "k_GetConfigMap K (r_PodNamespace r, platformConfigName) w = (found, w1)"
  shows "getPlatformConfig K r w =
    (\<lparr>pc_Available = (case found of Inl e \<Rightarrow> k_IsNotFound K e | Inr data \<Rightarrow> True),
      pc_DistributionName =
        (case found of
           Inl e \<Rightarrow> if k_IsNotFound K e then distributionStandalone else []
         | Inr data \<Rightarrow> (case map_of data distributionNameKey of
             Some (c # cs) \<Rightarrow> c # cs | _ \<Rightarrow> distributionStandalone)),
      pc_DistributionVersion =
        (case found of
           Inl e \<Rightarrow> if k_IsNotFound K e then r_OperatorVersion r else []
         | Inr data \<Rightarrow>
             (case filter (\<lambda>v. v \<noteq> []) (List.map_filter (map_of data) [distributionVersionKey, platformVersionKey]) of
                v # vs \<Rightarrow> v | [] \<Rightarrow> r_OperatorVersion r))\<rparr>, w1)"
  using assms
  by (auto simp: getPlatformConfig_def data_at_def Let_def map_filter_simps
      split: sum.split option.split list.split)

theorem platform_config_choice_witness:
  "getPlatformConfig simulated sample_reconciler
     ((sample_cluster 1)\<lparr>cl_configmaps := [((''opendatahub'', platformConfigName),
        [(platformVersionKey, ''3.0''), (distributionNameKey, ''RHOAI'')])]\<rparr>) =
   (\<lparr>pc_Available = True, pc_DistributionName = ''RHOAI'', pc_DistributionVersion = ''3.0''\<rparr>,
    called ''get-configmap'' ((sample_cluster 1)\<lparr>cl_configmaps := [((''opendatahub'', platformConfigName),
        [(platformVersionKey, ''3.0''), (distributionNameKey, ''RHOAI'')])]\<rparr>))"
proof -
  let ?w = "(sample_cluster 1)\<lparr>cl_configmaps := [((''opendatahub'', platformConfigName),
        [(platformVersionKey, ''3.0''), (distributionNameKey, ''RHOAI'')])]\<rparr>"
  have "k_GetConfigMap simulated (r_PodNamespace sample_reconciler, platformConfigName) ?w =
      (Inr [(platformVersionKey, ''3.0''), (distributionNameKey, ''RHOAI'')], called ''get-configmap'' ?w)"
    by (simp add: simulated_def reading_def fault_def lookup_in_def sample_cluster_def empty_cluster_def
        sample_reconciler_def)
  from platform_config_choice [OF this] show ?thesis
    by (simp add: platformVersionKey_def distributionNameKey_def distributionVersionKey_def map_filter_simps)
qed

text \<open>
  Events reach the reconciler through the one component resource: a labelled object of a
  watched kind requests it, an unlabelled one does not, a ConfigMap counts only as the platform
  configuration of the operator's namespace, and a CRD also as one of the two gateway CRDs.
\<close>

theorem watched_events_request_component:
  shows "requestsFor r openShift kind obj =
    (if kind = ''ConfigMap'' \<and> om_name obj = platformConfigName \<and> om_namespace obj = r_PodNamespace r \<or>
        kind \<in> set labelled_kinds \<and> map_of (om_labels obj) PlatformPartOf = Some MCPLifecycleOperatorServiceName \<or>
        kind = ''CustomResourceDefinition'' \<and>
          (map_of (om_labels obj) PlatformPartOf = Some MCPLifecycleOperatorServiceName \<or>
           om_name obj \<in> {mcpGatewayExtensionCRDName, gatewayCRDName}) \<or>
        kind = ''APIServer'' \<and> openShift
     then [([], MCPLifecycleOperatorInstanceName)] else [])"
  unfolding requests_watching watching_kinds managed_label gateway_crd_names platformConfigPredicate_def ..

end
